(* ===== verification/Prelude.thy ===== *)
theory Prelude
  imports Main "HOL-Library.Code_Target_Nat" "HOL-Library.AList" "HOL-Library.Char_ord" "HOL-Library.List_Lexorder"
    "HOL-Library.Sublist"
begin

section \<open>Shared vocabulary: Go strings, numbers, results\<close>

text \<open>
  The vocabulary every component theory imports.  A Go \<open>string\<close> is a sequence of bytes and is
  modelled by \<^typ>\<open>string\<close> (a list of 8-bit characters), so that lengths, slices and the
  order \<open><\<close> (byte-wise lexicographic, from List_Lexorder) are those of Go.  The functions of the
  packages \<open>strings\<close>, \<open>strconv\<close> and \<open>fmt\<close> that the router calls are
  defined here with Go's argument order; \<open>-1\<close> results become \<^const>\<open>None\<close>.  Case
  mapping and space trimming act on ASCII, which is what the router applies them to (header names,
  hexadecimal sizes, comma-separated header parameters).

  A fallible operation returns a sum: \<^const>\<open>Inl\<close> an error value, \<^const>\<open>Inr\<close> the
  result.  Where Go code can panic as well, the error type is wrapped in \<open>fault\<close>.
\<close>

named_theorems gostr \<open>facts about the string primitives\<close>

subsection \<open>Results\<close>

datatype 'e fault = Failed 'e | Panicked

fun rbind :: "'e + 'a \<Rightarrow> ('a \<Rightarrow> 'e + 'b) \<Rightarrow> 'e + 'b" where
  "rbind (Inl e) f = Inl e"
| "rbind (Inr x) f = f x"

fun rmap_err :: "('e \<Rightarrow> 'f) \<Rightarrow> 'e + 'a \<Rightarrow> 'f + 'a" where
  "rmap_err g (Inl e) = Inl (g e)"
| "rmap_err g (Inr x) = Inr x"

lemma rbind_Inr_iff [simp]: "rbind r f = Inr y \<longleftrightarrow> (\<exists>x. r = Inr x \<and> f x = Inr y)"
  by (cases r) auto

lemma rmap_err_Inr_iff [simp]: "rmap_err g r = Inr y \<longleftrightarrow> r = Inr y"
  by (cases r) auto

text \<open>A loop that appends the result of a fallible body, stopping at the first error.\<close>

fun rmapM :: "('a \<Rightarrow> 'e + 'b) \<Rightarrow> 'a list \<Rightarrow> 'e + 'b list" where
  "rmapM f [] = Inr []"
| "rmapM f (x # xs) = rbind (f x) (\<lambda>y. rbind (rmapM f xs) (\<lambda>ys. Inr (y # ys)))"

lemma rmapM_length: "rmapM f xs = Inr ys \<Longrightarrow> length ys = length xs"
  by (induction xs arbitrary: ys) auto

lemma rmapM_pure: "(\<And>x. x \<in> set xs \<Longrightarrow> f x = Inr (g x)) \<Longrightarrow> rmapM f xs = Inr (map g xs)"
  by (induction xs) auto

subsection \<open>Package strings: prefixes and suffixes\<close>

definition HasPrefix :: "string \<Rightarrow> string \<Rightarrow> bool" where
  "HasPrefix s p \<longleftrightarrow> take (length p) s = p"

definition HasSuffix :: "string \<Rightarrow> string \<Rightarrow> bool" where
  "HasSuffix s p \<longleftrightarrow> length p \<le> length s \<and> drop (length s - length p) s = p"

definition TrimPrefix :: "string \<Rightarrow> string \<Rightarrow> string" where
  "TrimPrefix s p = (if HasPrefix s p then drop (length p) s else s)"

definition TrimSuffix :: "string \<Rightarrow> string \<Rightarrow> string" where
  "TrimSuffix s p = (if HasSuffix s p then take (length s - length p) s else s)"

lemma HasPrefix_iff [gostr]: "HasPrefix s p \<longleftrightarrow> (\<exists>t. s = p @ t)"
  by (auto simp: HasPrefix_def) (metis append_take_drop_id)

lemma HasPrefix_prefix: "HasPrefix s p \<longleftrightarrow> prefix p s"
  by (auto simp: HasPrefix_iff prefix_def)

lemma HasPrefix_append [simp, intro]: "HasPrefix (p @ t) p"
  by (simp add: HasPrefix_def)

lemma HasPrefix_Nil [simp]: "HasPrefix s []"
  by (simp add: HasPrefix_def)

lemma HasPrefix_refl [simp, intro]: "HasPrefix s s"
  by (simp add: HasPrefix_def)

lemma HasPrefix_Cons [simp]: "HasPrefix (c # s) (d # p) \<longleftrightarrow> c = d \<and> HasPrefix s p"
  by (auto simp: HasPrefix_def)

lemma HasPrefix_Nil_left [simp]: "HasPrefix [] p \<longleftrightarrow> p = []"
  by (auto simp: HasPrefix_def)

lemma HasPrefix_trans: "HasPrefix s p \<Longrightarrow> HasPrefix p q \<Longrightarrow> HasPrefix s q"
  by (auto simp: HasPrefix_iff)

lemma HasPrefix_length: "HasPrefix s p \<Longrightarrow> length p \<le> length s"
  by (auto simp: HasPrefix_iff)

lemma HasPrefix_linear: "HasPrefix s p \<Longrightarrow> HasPrefix s q \<Longrightarrow> HasPrefix p q \<or> HasPrefix q p"
  using prefix_same_cases by (auto simp: HasPrefix_prefix)

lemma HasSuffix_iff [gostr]: "HasSuffix s p \<longleftrightarrow> (\<exists>t. s = t @ p)"
proof
  assume "HasSuffix s p"
  then have "s = take (length s - length p) s @ p"
    unfolding HasSuffix_def by (metis append_take_drop_id)
  then show "\<exists>t. s = t @ p" by blast
qed (auto simp: HasSuffix_def)

lemma HasSuffix_append [simp, intro]: "HasSuffix (t @ p) p"
  by (auto simp: HasSuffix_iff)

lemma TrimPrefix_append [simp]: "TrimPrefix (p @ t) p = t"
  by (simp add: TrimPrefix_def)

lemma TrimPrefix_Nil [simp]: "TrimPrefix s [] = s"
  by (simp add: TrimPrefix_def)

lemma TrimSuffix_append [simp]: "TrimSuffix (t @ p) p = t"
  by (simp add: TrimSuffix_def HasSuffix_def)

lemma TrimPrefix_restore: "HasPrefix s p \<Longrightarrow> p @ TrimPrefix s p = s"
  by (auto simp: HasPrefix_iff)

lemma TrimSuffix_restore: "HasSuffix s p \<Longrightarrow> TrimSuffix s p @ p = s"
  by (auto simp: HasSuffix_iff)

subsection \<open>Package strings: searching and splitting\<close>

fun IndexByte :: "string \<Rightarrow> char \<Rightarrow> nat option" where
  "IndexByte [] c = None"
| "IndexByte (x # xs) c = (if x = c then Some 0 else map_option Suc (IndexByte xs c))"

fun strIndex :: "string \<Rightarrow> string \<Rightarrow> nat option" where
  "strIndex [] p = (if p = [] then Some 0 else None)"
| "strIndex (x # xs) p =
     (if HasPrefix (x # xs) p then Some 0 else map_option Suc (strIndex xs p))"

definition Contains :: "string \<Rightarrow> string \<Rightarrow> bool" where
  "Contains s p \<longleftrightarrow> strIndex s p \<noteq> None"

text \<open>\<open>strings.SplitN(s, sep, 2)\<close>: the parts before and after the first separator.\<close>

definition SplitN2 :: "string \<Rightarrow> string \<Rightarrow> string list" where
  "SplitN2 s sep =
     (case strIndex s sep of None \<Rightarrow> [s] | Some i \<Rightarrow> [take i s, drop (i + length sep) s])"

lemma IndexByte_None: "IndexByte s c = None \<longleftrightarrow> c \<notin> set s"
  by (induction s) auto

lemma IndexByte_Some:
  "IndexByte s c = Some i \<Longrightarrow> i < length s \<and> s ! i = c \<and> c \<notin> set (take i s)"
  by (induction s arbitrary: i) (auto split: if_splits)

lemma IndexByte_append: "c \<notin> set p \<Longrightarrow> IndexByte (p @ c # t) c = Some (length p)"
  by (induction p) auto

lemma strIndex_Some:
  "strIndex s p = Some i \<Longrightarrow> i + length p \<le> length s \<and> s = take i s @ p @ drop (i + length p) s"
proof (induction s arbitrary: i)
  case (Cons x xs)
  show ?case
  proof (cases "HasPrefix (x # xs) p")
    case True
    with Cons.prems have "i = 0" by simp
    with TrimPrefix_restore [OF True] True show ?thesis
      using HasPrefix_length [OF True] by (simp add: TrimPrefix_def)
  next
    case False
    with Cons.prems obtain j where "i = Suc j" "strIndex xs p = Some j" by auto
    with Cons.IH show ?thesis by auto
  qed
qed (auto split: if_splits)

lemma strIndex_None: "strIndex s p = None \<Longrightarrow> s \<noteq> a @ p @ b"
proof (induction s arbitrary: a)
  case (Cons x xs)
  then have np: "\<not> HasPrefix (x # xs) p" and "strIndex xs p = None" by (auto split: if_splits)
  show ?case
  proof (cases a)
    case Nil
    with np show ?thesis by (auto simp: HasPrefix_iff)
  next
    case (Cons y ys)
    with Cons.IH [OF \<open>strIndex xs p = None\<close>, of ys] show ?thesis by auto
  qed
qed (auto split: if_splits)

lemma Contains_iff [gostr]: "Contains s p \<longleftrightarrow> (\<exists>a b. s = a @ p @ b)"
  unfolding Contains_def using strIndex_Some strIndex_None by (metis not_None_eq)

lemma strIndex_one: "strIndex s [c] = IndexByte s c"
  by (induction s) auto

text \<open>\<open>strings.Split(s, sep)\<close> for a non-empty separator.\<close>

function Split :: "string \<Rightarrow> string \<Rightarrow> string list" where
  "Split s sep =
     (case (if sep = [] then None else strIndex s sep) of
        None \<Rightarrow> [s]
      | Some i \<Rightarrow> take i s # Split (drop (i + length sep) s) sep)"
  by pat_completeness auto
termination
proof (relation "measure (\<lambda>(s, sep). length s)", goal_cases)
  case (2 s sep i)
  then have "sep \<noteq> []" and "i + length sep \<le> length s"
    by (auto split: if_splits dest: strIndex_Some)
  then show ?case by (cases sep; cases s) auto
qed simp

declare Split.simps [simp del]

fun Join :: "string list \<Rightarrow> string \<Rightarrow> string" where
  "Join [] sep = []"
| "Join [s] sep = s"
| "Join (s # t # ss) sep = s @ sep @ Join (t # ss) sep"

lemma Split_nonempty [simp]: "Split s sep \<noteq> []"
  by (subst Split.simps) (auto split: option.splits)

lemma Join_Cons: "ss \<noteq> [] \<Longrightarrow> Join (s # ss) sep = s @ sep @ Join ss sep"
  by (cases ss) auto

lemma Join_Split: "Join (Split s sep) sep = s"
proof (induction s sep rule: Split.induct)
  case (1 s sep)
  show ?case
  proof (cases "if sep = [] then None else strIndex s sep")
    case None
    then show ?thesis by (subst Split.simps) simp
  next
    case (Some i)
    then have "s = take i s @ sep @ drop (i + length sep) s"
      by (auto split: if_splits dest: strIndex_Some)
    with Some "1.IH" [OF Some] show ?thesis
      by (subst Split.simps) (simp add: Join_Cons)
  qed
qed

text \<open>Splitting at a single byte, as the structural recursion the proofs use.\<close>

fun split_byte :: "char \<Rightarrow> string \<Rightarrow> string list" where
  "split_byte c [] = [[]]"
| "split_byte c (x # xs) =
     (if x = c then [] # split_byte c xs
      else (case split_byte c xs of [] \<Rightarrow> [[x]] | y # ys \<Rightarrow> (x # y) # ys))"

lemma split_byte_nonempty [simp]: "split_byte c s \<noteq> []"
  by (induction s) (auto split: list.splits)

lemma split_byte_none: "c \<notin> set s \<Longrightarrow> split_byte c s = [s]"
  by (induction s) auto

lemma split_byte_append: "c \<notin> set p \<Longrightarrow> split_byte c (p @ c # t) = p # split_byte c t"
  by (induction p) auto

lemma Split_byte: "Split s [c] = split_byte c s"
proof (induction s "[c]" rule: Split.induct)
  case (1 s)
  show ?case
  proof (cases "IndexByte s c")
    case None
    then show ?thesis
      by (subst Split.simps) (simp add: strIndex_one split_byte_none IndexByte_None [THEN iffD1])
  next
    case (Some i)
    then have i: "i < length s" "s ! i = c" "c \<notin> set (take i s)"
      by (auto dest: IndexByte_Some)
    then have "s = take i s @ c # drop (Suc i) s" by (metis id_take_nth_drop)
    then have "split_byte c s = take i s # split_byte c (drop (Suc i) s)"
      using i(3) split_byte_append by metis
    moreover have "Split s [c] = take i s # Split (drop (Suc i) s) [c]"
      using Some by (subst Split.simps) (simp add: strIndex_one)
    moreover have "Split (drop (Suc i) s) [c] = split_byte c (drop (Suc i) s)"
      using "1.hyps" [of i] Some by (simp add: strIndex_one)
    ultimately show ?thesis by simp
  qed
qed

lemma Split_byte_append: "c \<notin> set p \<Longrightarrow> Split (p @ c # t) [c] = p # Split t [c]"
  by (simp add: Split_byte split_byte_append)

lemma Split_byte_none: "c \<notin> set s \<Longrightarrow> Split s [c] = [s]"
  by (simp add: Split_byte split_byte_none)

lemma SplitN2_byte_append: "c \<notin> set p \<Longrightarrow> SplitN2 (p @ c # t) [c] = [p, t]"
  by (simp add: SplitN2_def strIndex_one IndexByte_append)

subsection \<open>ASCII case and space\<close>

definition is_upper :: "char \<Rightarrow> bool" where
  "is_upper c \<longleftrightarrow> CHR ''A'' \<le> c \<and> c \<le> CHR ''Z''"

definition is_lower :: "char \<Rightarrow> bool" where
  "is_lower c \<longleftrightarrow> CHR ''a'' \<le> c \<and> c \<le> CHR ''z''"

definition is_digit :: "char \<Rightarrow> bool" where
  "is_digit c \<longleftrightarrow> CHR ''0'' \<le> c \<and> c \<le> CHR ''9''"

definition lower_char :: "char \<Rightarrow> char" where
  "lower_char c = (if is_upper c then char_of (of_char c + 32 :: nat) else c)"

definition upper_char :: "char \<Rightarrow> char" where
  "upper_char c = (if is_lower c then char_of (of_char c - 32 :: nat) else c)"

definition ToLower :: "string \<Rightarrow> string" where
  "ToLower s = map lower_char s"

definition ToUpper :: "string \<Rightarrow> string" where
  "ToUpper s = map upper_char s"

definition EqualFold :: "string \<Rightarrow> string \<Rightarrow> bool" where
  "EqualFold a b \<longleftrightarrow> ToLower a = ToLower b"

definition is_space :: "char \<Rightarrow> bool" where
  "is_space c \<longleftrightarrow> c = CHR '' '' \<or> (CHR 0x09 \<le> c \<and> c \<le> CHR 0x0D)"

definition TrimSpace :: "string \<Rightarrow> string" where
  "TrimSpace s = rev (dropWhile is_space (rev (dropWhile is_space s)))"

lemma TrimSpace_id: "(\<And>c. c \<in> set s \<Longrightarrow> \<not> is_space c) \<Longrightarrow> TrimSpace s = s"
proof -
  assume a: "\<And>c. c \<in> set s \<Longrightarrow> \<not> is_space c"
  have "dropWhile is_space t = t" if "set t \<subseteq> set s" for t
    using that a by (cases t) auto
  from this [of s] this [of "rev s"] show ?thesis by (simp add: TrimSpace_def)
qed

subsection \<open>Numbers as text\<close>

definition digit_char :: "nat \<Rightarrow> char" where
  "digit_char d = (if d < 10 then char_of (48 + d) else char_of (87 + d))"

fun digits_base :: "nat \<Rightarrow> nat \<Rightarrow> string" where
  "digits_base b n =
     (if b < 2 \<or> n < b then [digit_char n] else digits_base b (n div b) @ [digit_char (n mod b)])"

declare digits_base.simps [simp del]

text \<open>\<open>fmt\<close>'s verbs \<open>%d\<close> and \<open>%x\<close> on a non-negative integer.\<close>

definition fmt_d :: "nat \<Rightarrow> string" where
  "fmt_d n = digits_base 10 n"

definition fmt_x :: "nat \<Rightarrow> string" where
  "fmt_x n = digits_base 16 n"

definition fmt_int :: "int \<Rightarrow> string" where
  "fmt_int i = (if i < 0 then CHR ''-'' # fmt_d (nat (- i)) else fmt_d (nat i))"

definition digit_value :: "char \<Rightarrow> nat option" where
  "digit_value c =
     (if is_digit c then Some (of_char c - 48)
      else if CHR ''a'' \<le> c \<and> c \<le> CHR ''z'' then Some (of_char c - 87)
      else if CHR ''A'' \<le> c \<and> c \<le> CHR ''Z'' then Some (of_char c - 55)
      else None)"

fun parse_digits :: "nat \<Rightarrow> nat \<Rightarrow> string \<Rightarrow> nat option" where
  "parse_digits b acc [] = Some acc"
| "parse_digits b acc (c # cs) =
     (case digit_value c of
        Some d \<Rightarrow> if d < b then parse_digits b (b * acc + d) cs else None
      | None \<Rightarrow> None)"

text \<open>
  \<open>strconv.ParseInt(s, base, 64)\<close>: an optional sign, at least one digit, and the range of
  \<open>int64\<close>; every failure (syntax or range) is \<^const>\<open>None\<close>.
\<close>

definition ParseInt :: "string \<Rightarrow> nat \<Rightarrow> int option" where
  "ParseInt s b =
     (let neg = (s \<noteq> [] \<and> hd s = CHR ''-'');
          ds = (if s \<noteq> [] \<and> (hd s = CHR ''-'' \<or> hd s = CHR ''+'') then tl s else s)
      in if ds = [] then None
         else case parse_digits b 0 ds of
           None \<Rightarrow> None
         | Some n \<Rightarrow>
             (if neg then (if n \<le> 2 ^ 63 then Some (- int n) else None)
              else (if n < 2 ^ 63 then Some (int n) else None)))"

lemma digit_value_digit_char: "d < 36 \<Longrightarrow> digit_value (digit_char d) = Some d"
  by (auto simp: digit_value_def digit_char_def is_digit_def less_eq_char_def)

lemma digit_char_digit: "d < 10 \<Longrightarrow> is_digit (digit_char d)"
  by (auto simp: digit_char_def is_digit_def less_eq_char_def)

lemma parse_digits_append:
  "parse_digits b acc (s @ t) = Option.bind (parse_digits b acc s) (\<lambda>a. parse_digits b a t)"
  by (induction s arbitrary: acc) (auto split: option.splits)

lemma parse_digits_base:
  "2 \<le> b \<Longrightarrow> b \<le> 36 \<Longrightarrow> \<exists>k. \<forall>acc. parse_digits b acc (digits_base b n) = Some (acc * b ^ k + n)"
proof (induction b n rule: digits_base.induct)
  case (1 b n)
  show ?case
  proof (cases "n < b")
    case True
    with 1 show ?thesis
      by (intro exI [of _ 1]) (subst digits_base.simps, simp add: digit_value_digit_char mult.commute)
  next
    case False
    with 1 obtain k where
      k: "\<forall>acc. parse_digits b acc (digits_base b (n div b)) = Some (acc * b ^ k + n div b)"
      by auto
    have "parse_digits b acc (digits_base b n) = Some (acc * b ^ Suc k + n)" for acc
    proof -
      have "n mod b < b" using 1 by simp
      moreover from this have "digit_value (digit_char (n mod b)) = Some (n mod b)"
        using 1(2,3) by (intro digit_value_digit_char) linarith
      moreover have "b * (acc * b ^ k + n div b) + n mod b = acc * b ^ Suc k + n"
        by (simp add: algebra_simps)
      ultimately show ?thesis using False 1 k
        by (subst digits_base.simps) (simp add: parse_digits_append del: power_Suc)
    qed
    then show ?thesis by blast
  qed
qed

lemma parse_digits_fmt: "2 \<le> b \<Longrightarrow> b \<le> 36 \<Longrightarrow> parse_digits b 0 (digits_base b n) = Some n"
  using parse_digits_base [of b n] by auto

lemma digits_base_nonempty [simp]: "digits_base b n \<noteq> []"
  by (subst digits_base.simps) simp

lemma digit_char_no_sign: "d < 36 \<Longrightarrow> digit_char d \<noteq> CHR ''-'' \<and> digit_char d \<noteq> CHR ''+''"
  using digit_value_digit_char [of d] by (auto simp: digit_value_def is_digit_def less_eq_char_def)

lemma set_digits_base: "2 \<le> b \<Longrightarrow> c \<in> set (digits_base b n) \<Longrightarrow> \<exists>d < b. c = digit_char d"
proof (induction b n rule: digits_base.induct)
  case (1 b n)
  show ?case
  proof (cases "n < b")
    case True
    with 1 show ?thesis by (subst (asm) digits_base.simps) auto
  next
    case False
    with 1 have "c \<in> set (digits_base b (n div b)) \<or> c = digit_char (n mod b)"
      by (subst (asm) (2) digits_base.simps) auto
    moreover have "n mod b < b" using 1(2) by simp
    moreover have "\<not> (b < 2 \<or> n < b)" using False 1(2) by simp
    ultimately show ?thesis using "1.IH" 1(2) by blast
  qed
qed

lemma ParseInt_fmt:
  assumes "2 \<le> b" "b \<le> 36" "n < 2 ^ 63"
  shows "ParseInt (digits_base b n) b = Some (int n)"
proof -
  have "hd (digits_base b n) \<in> set (digits_base b n)" by simp
  then obtain d where "d < b" "hd (digits_base b n) = digit_char d"
    using set_digits_base assms(1) by blast
  with assms(2) have "hd (digits_base b n) \<noteq> CHR ''-''" "hd (digits_base b n) \<noteq> CHR ''+''"
    using digit_char_no_sign [of d] by auto
  then show ?thesis using assms by (simp add: ParseInt_def parse_digits_fmt Let_def)
qed

subsection \<open>Association lists as Go maps\<close>

text \<open>
  A Go map whose entries are iterated over is an association list; its order is the (arbitrary)
  order of one iteration.  Look-up is \<^const>\<open>map_of\<close>, assignment \<^const>\<open>AList.update\<close>.
\<close>

lemma map_of_update [simp]: "map_of (AList.update k v m) = (map_of m)(k \<mapsto> v)"
  by (rule update_conv')

end
