(* ===== verification/Template.thy ===== *)
theory Template
  imports Prelude
begin

section \<open>Templates (internal/template)\<close>

text \<open>
  The template language of endpoints and rewrite results: \<open>$name\<close>, \<open>${name}\<close>,
  \<open>${name:-default}\<close>, \<open>${name:+expansion}\<close>.  \<open>node\<close> is the AST of
  template.go, \<open>Parse\<close> the recursive-descent parser, \<open>Execute\<close> the evaluator over
  \<open>Placeholders\<close>, and \<open>analyzeTemplate\<close> the static analysis the prefix optimizer and
  the reverse rewrite consult.  The parser's position is represented by the input that is still
  unread.  The lemmas show that parsing terminates, that rendering an AST and parsing it gives the
  AST back, and that a template without conditionals is exactly its analysis.
\<close>

subsection \<open>The AST and the placeholders\<close>

datatype node =
    LiteralNode string
  | PlaceholderNode (ph_Name: string) (ph_Inner: "node option") (ph_IfSet: bool)
  | SequenceNode "node list"

record placeholders =
  named :: "string \<rightharpoonup> string"
  indexed :: "string list"

definition NewPlaceholders :: placeholders where
  "NewPlaceholders = \<lparr>named = Map.empty, indexed = []\<rparr>"

definition SetNamed :: "string \<Rightarrow> string \<Rightarrow> placeholders \<Rightarrow> placeholders" where
  "SetNamed name value p = p\<lparr>named := (named p)(name \<mapsto> value)\<rparr>"

definition SetNamedMap :: "(string \<times> string) list \<Rightarrow> placeholders \<Rightarrow> placeholders" where
  "SetNamedMap vars p = fold (\<lambda>(k, v). SetNamed k v) vars p"

definition SetNamedMapBorrow :: "(string \<rightharpoonup> string) \<Rightarrow> placeholders \<Rightarrow> placeholders" where
  "SetNamedMapBorrow vars p = p\<lparr>named := vars\<rparr>"

definition AddIndexed :: "string \<Rightarrow> placeholders \<Rightarrow> placeholders" where
  "AddIndexed value p = p\<lparr>indexed := indexed p @ [value]\<rparr>"

definition AddIndexedAll :: "string list \<Rightarrow> placeholders \<Rightarrow> placeholders" where
  "AddIndexedAll values p = p\<lparr>indexed := indexed p @ values\<rparr>"

definition SetIndexedAllBorrow :: "string list \<Rightarrow> placeholders \<Rightarrow> placeholders" where
  "SetIndexedAllBorrow values p = p\<lparr>indexed := values\<rparr>"

lemmas placeholders_defs = NewPlaceholders_def SetNamed_def SetNamedMapBorrow_def AddIndexed_def
  AddIndexedAll_def SetIndexedAllBorrow_def

lemma named_SetNamedMap: "distinct (map fst vars) \<Longrightarrow>
    named (SetNamedMap vars p) = named p ++ map_of vars"
proof (induction vars arbitrary: p)
  case (Cons kv vars)
  obtain k v where kv: "kv = (k, v)" by force
  with Cons.prems have "k \<notin> dom (map_of vars)" by (auto simp: dom_map_of_conv_image_fst)
  then have "(named p)(k \<mapsto> v) ++ map_of vars = (named p ++ map_of vars)(k \<mapsto> v)"
    by (rule map_add_upd_left)
  moreover have "named (SetNamedMap (kv # vars) p) = (named p)(k \<mapsto> v) ++ map_of vars"
    using Cons.IH [of "SetNamed k v p"] Cons.prems kv by (simp add: SetNamedMap_def SetNamed_def fun_upd_def)
  ultimately show ?case by (simp only: kv map_of.simps fst_conv snd_conv map_add_upd)
qed (simp add: SetNamedMap_def)

subsection \<open>Evaluation\<close>

text \<open>
  The value of a placeholder name: the named map first, then, for a numeric name, the indexed list
  (an index past the end counts as unset).
\<close>

definition ph_value :: "placeholders \<Rightarrow> string \<Rightarrow> string option" where
  "ph_value p name =
     (case named p name of
        Some v \<Rightarrow> Some v
      | None \<Rightarrow>
          (case ParseInt name 10 of
             None \<Rightarrow> None
           | Some i \<Rightarrow> if 0 \<le> i \<and> nat i < length (indexed p) then Some (indexed p ! nat i) else None))"

fun executeNode :: "placeholders \<Rightarrow> node \<Rightarrow> string" where
  "executeNode p (LiteralNode v) = v"
| "executeNode p (PlaceholderNode name None ifset) =
     (case ph_value p name of Some v \<Rightarrow> v | None \<Rightarrow> [])"
| "executeNode p (PlaceholderNode name (Some inner) ifset) =
     (if ifset then
        (case ph_value p name of
           Some v \<Rightarrow> if v \<noteq> [] then executeNode p inner else []
         | None \<Rightarrow> [])
      else
        (case ph_value p name of
           Some v \<Rightarrow> if v \<noteq> [] then v else executeNode p inner
         | None \<Rightarrow> executeNode p inner))"
| "executeNode p (SequenceNode ns) = concat (map (executeNode p) ns)"

subsection \<open>Parsing\<close>

datatype template_error =
    InvalidName              \<comment> \<open>invalid placeholder name\<close>
  | ExpectedBraceOrDefault   \<comment> \<open>expected a closing brace or an operator\<close>
  | Unclosed                 \<comment> \<open>unclosed placeholder\<close>

definition isIdentifierStart :: "char \<Rightarrow> bool" where
  "isIdentifierStart c \<longleftrightarrow> is_lower c \<or> is_upper c \<or> c = CHR ''_''"

definition isIdentifierPart :: "char \<Rightarrow> bool" where
  "isIdentifierPart c \<longleftrightarrow> isIdentifierStart c \<or> is_digit c"

definition parseName :: "string \<Rightarrow> string \<times> string" where
  "parseName s =
     (let ds = takeWhile is_digit s in
      if ds \<noteq> [] then (ds, dropWhile is_digit s)
      else case s of
        [] \<Rightarrow> ([], s)
      | c # cs \<Rightarrow>
          (if isIdentifierStart c
           then (c # takeWhile isIdentifierPart cs, dropWhile isIdentifierPart cs)
           else ([], s)))"

definition parseLiteral :: "string \<Rightarrow> string \<times> string" where
  "parseLiteral s = (takeWhile (\<lambda>c. c \<noteq> CHR ''$'') s, dropWhile (\<lambda>c. c \<noteq> CHR ''$'') s)"

text \<open>
  The brace counting of \<open>parseDefaultValue\<close>: the text up to the brace that closes the
  enclosing placeholder, and the rest, which starts with that brace.
\<close>

fun scanDefault :: "nat \<Rightarrow> string \<Rightarrow> (string \<times> string) option" where
  "scanDefault depth [] = None"
| "scanDefault depth [c] =
     (if c = CHR ''}'' \<and> depth = 1 then Some ([], [c]) else None)"
| "scanDefault depth (c # d # cs) =
     (if c = CHR ''$'' \<and> d = CHR ''{'' then
        map_option (\<lambda>(t, r). (c # d # t, r)) (scanDefault (Suc depth) cs)
      else if c = CHR ''}'' then
        (if depth = 1 then Some ([], c # d # cs)
         else map_option (\<lambda>(t, r). (c # t, r)) (scanDefault (depth - 1) (d # cs)))
      else map_option (\<lambda>(t, r). (c # t, r)) (scanDefault depth (d # cs)))"

text \<open>
  A placeholder as it is read: complete, or with the text of its default or expansion, which
  \<open>parseTemplate\<close> parses in turn.
\<close>

datatype placeholder_token = Complete node | WithInner string bool string

definition parseBracedPlaceholder :: "string \<Rightarrow> template_error + placeholder_token \<times> string" where
  "parseBracedPlaceholder s =
     (let (name, r) = parseName s in
      if name = [] then Inl InvalidName
      else case r of
        c # d # r' \<Rightarrow>
          (if c = CHR '':'' \<and> (d = CHR ''-'' \<or> d = CHR ''+'') then
             (case scanDefault 1 r' of
                None \<Rightarrow> Inl Unclosed
              | Some (dflt, r'') \<Rightarrow> Inr (WithInner name (d = CHR ''+'') dflt, tl r''))
           else if c = CHR ''}'' then Inr (Complete (PlaceholderNode name None False), d # r')
           else Inl ExpectedBraceOrDefault)
      | [c] \<Rightarrow>
          (if c = CHR ''}'' then Inr (Complete (PlaceholderNode name None False), [])
           else Inl ExpectedBraceOrDefault)
      | [] \<Rightarrow> Inl ExpectedBraceOrDefault)"

definition parsePlaceholder :: "string \<Rightarrow> template_error + placeholder_token \<times> string" where
  "parsePlaceholder s =
     (let r = tl s in
      if r \<noteq> [] \<and> hd r = CHR ''{'' then parseBracedPlaceholder (tl r)
      else let (name, r') = parseName r in
        if name = [] then Inr (Complete (LiteralNode ''$''), r)
        else Inr (Complete (PlaceholderNode name None False), r'))"

definition seqNode :: "node list \<Rightarrow> node" where
  "seqNode ns = (case ns of [] \<Rightarrow> LiteralNode [] | [n] \<Rightarrow> n | _ \<Rightarrow> SequenceNode ns)"

lemma parseName_append: "parseName s = (n, r) \<Longrightarrow> s = n @ r"
  by (auto simp: parseName_def Let_def split: if_splits list.splits)

lemma scanDefault_append:
  "scanDefault k s = Some (t, r) \<Longrightarrow> s = t @ r \<and> r \<noteq> [] \<and> hd r = CHR ''}''"
  by (induction k s arbitrary: t r rule: scanDefault.induct) (auto split: if_splits)

lemma parseBraced_shorter:
  assumes "parseBracedPlaceholder s = Inr (tok, r)"
  shows "length r < length s \<and> (\<forall>n b d. tok = WithInner n b d \<longrightarrow> length d < length s)"
proof -
  obtain name r0 where n: "parseName s = (name, r0)" by force
  then have "s = name @ r0" by (rule parseName_append)
  with assms n show ?thesis
    by (auto simp: parseBracedPlaceholder_def Let_def split: if_splits list.splits option.splits
        dest!: scanDefault_append)
qed

lemma parsePlaceholder_shorter:
  assumes "parsePlaceholder (c # cs) = Inr (tok, r)"
  shows "length r < length (c # cs)" "tok = WithInner n b d \<Longrightarrow> length d < length (c # cs)"
proof -
  have "length r < length (c # cs) \<and> (\<forall>n b d. tok = WithInner n b d \<longrightarrow> length d < length (c # cs))"
  proof (cases "cs \<noteq> [] \<and> hd cs = CHR ''{''")
    case True
    then have "parseBracedPlaceholder (tl cs) = Inr (tok, r)"
      using assms by (simp add: parsePlaceholder_def)
    from parseBraced_shorter [OF this] True show ?thesis by (cases cs) auto
  next
    case False
    obtain name r' where "parseName cs = (name, r')" by force
    moreover from this have "cs = name @ r'" by (rule parseName_append)
    ultimately show ?thesis using False assms
      by (auto simp: parsePlaceholder_def Let_def split: if_splits)
  qed
  then show "length r < length (c # cs)" "tok = WithInner n b d \<Longrightarrow> length d < length (c # cs)"
    by auto
qed

function parseNodes :: "string \<Rightarrow> template_error + node list" where
  "parseNodes [] = Inr []"
| "parseNodes (c # cs) =
     (if c = CHR ''$'' then
        (case parsePlaceholder (c # cs) of
           Inl e \<Rightarrow> Inl e
         | Inr (tok, r) \<Rightarrow>
             (case tok of
                Complete n \<Rightarrow> rbind (parseNodes r) (\<lambda>ns. Inr (n # ns))
              | WithInner name ifset d \<Rightarrow>
                  rbind (parseNodes d) (\<lambda>ks.
                    rbind (parseNodes r) (\<lambda>ns.
                      Inr (PlaceholderNode name (Some (seqNode ks)) ifset # ns)))))
      else rbind (parseNodes (snd (parseLiteral (c # cs))))
             (\<lambda>ns. Inr (LiteralNode (fst (parseLiteral (c # cs))) # ns)))"
  by pat_completeness auto
termination
proof (relation "measure length", goal_cases)
  case (2 c cs tr tok r n)
  then show ?case using parsePlaceholder_shorter(1) [of c cs tok r] by (cases tr) auto
next
  case (3 c cs tr tok r name ifset d)
  then show ?case using parsePlaceholder_shorter(2) [of c cs tok r name ifset d] by (cases tr) auto
next
  case (4 c cs tr tok r name ifset d x)
  then show ?case using parsePlaceholder_shorter(1) [of c cs tok r] by (cases tr) auto
next
  case (5 c cs)
  then show ?case by (simp add: parseLiteral_def less_Suc_eq_le length_dropWhile_le)
qed simp

declare parseNodes.simps(2) [simp del]

definition parseTemplate :: "string \<Rightarrow> template_error + node" where
  "parseTemplate s = rbind (parseNodes s) (\<lambda>ns. Inr (seqNode ns))"

subsection \<open>Static analysis\<close>

record analysis =
  ta_Prefix :: string
  ta_Rest :: "(node \<times> string) list"
  ta_ContainsConditionals :: bool

record analyzer_context =
  prefixB :: string
  tailB :: string
  ln :: "node option"
  rest :: "(node \<times> string) list"
  containsConditionals :: bool

fun traverse :: "node \<Rightarrow> analyzer_context \<Rightarrow> analyzer_context" where
  "traverse (PlaceholderNode name inner ifset) a =
     (let a' = (case ln a of
                  Some l \<Rightarrow> a\<lparr>rest := rest a @ [(l, tailB a)], tailB := []\<rparr>
                | None \<Rightarrow> a)
      in a'\<lparr>containsConditionals := containsConditionals a' \<or> inner \<noteq> None,
            ln := Some (PlaceholderNode name inner ifset)\<rparr>)"
| "traverse (LiteralNode v) a =
     (if ln a = None then a\<lparr>prefixB := prefixB a @ v\<rparr> else a\<lparr>tailB := tailB a @ v\<rparr>)"
| "traverse (SequenceNode ns) a = fold traverse ns a"

definition finalize :: "analyzer_context \<Rightarrow> analyzer_context" where
  "finalize a =
     (case ln a of Some l \<Rightarrow> a\<lparr>rest := rest a @ [(l, tailB a)]\<rparr> | None \<Rightarrow> a)"

definition analyzeTemplate :: "node \<Rightarrow> analysis" where
  "analyzeTemplate r =
     (let ctx = finalize (traverse r
                  \<lparr>prefixB = [], tailB = [], ln = None, rest = [], containsConditionals = False\<rparr>)
      in \<lparr>ta_Prefix = prefixB ctx, ta_Rest = rest ctx,
          ta_ContainsConditionals = containsConditionals ctx\<rparr>)"

record template =
  tmpl_input :: string
  tmpl_root :: node
  tmpl_analysis :: analysis

definition Parse :: "string \<Rightarrow> template_error + template" where
  "Parse input =
     rbind (parseTemplate input) (\<lambda>r.
       Inr \<lparr>tmpl_input = input, tmpl_root = r, tmpl_analysis = analyzeTemplate r\<rparr>)"

definition Execute :: "template \<Rightarrow> placeholders \<Rightarrow> string" where
  "Execute t p = executeNode p (tmpl_root t)"

text \<open>What the analysis denotes: the prefix, then every placeholder followed by its tail.\<close>

definition pairs_text :: "placeholders \<Rightarrow> (node \<times> string) list \<Rightarrow> string" where
  "pairs_text p ps = concat (map (\<lambda>(ph, tail). executeNode p ph @ tail) ps)"

definition analysis_text :: "placeholders \<Rightarrow> analysis \<Rightarrow> string" where
  "analysis_text p a = ta_Prefix a @ pairs_text p (ta_Rest a)"

definition context_ok :: "analyzer_context \<Rightarrow> bool" where
  "context_ok a \<longleftrightarrow> (ln a = None \<longrightarrow> rest a = [] \<and> tailB a = [])"

definition context_text :: "placeholders \<Rightarrow> analyzer_context \<Rightarrow> string" where
  "context_text p a = prefixB a @ pairs_text p (rest a) @
     (case ln a of None \<Rightarrow> [] | Some l \<Rightarrow> executeNode p l @ tailB a)"

lemmas context_defs = context_ok_def context_text_def pairs_text_def

lemma traverse_context:
  "context_ok a \<Longrightarrow> context_ok (traverse n a) \<and>
     context_text p (traverse n a) = context_text p a @ executeNode p n"
proof (induction n a rule: traverse.induct)
  case (1 name inner ifset a)
  then show ?case by (cases "ln a") (auto simp: context_defs Let_def)
next
  case (2 v a)
  then show ?case by (auto simp: context_defs split: option.splits)
next
  case (3 ns a)
  have "context_ok (fold traverse ms a) \<and>
      context_text p (fold traverse ms a) = context_text p a @ concat (map (executeNode p) ms)"
    if "set ms \<subseteq> set ns" "context_ok a" for ms a
    using that 3(1)
  proof (induction ms arbitrary: a)
    case (Cons m ms)
    from Cons.prems(1,2) Cons.prems(3) [of m a]
    have "context_ok (traverse m a)" "context_text p (traverse m a) = context_text p a @ executeNode p m"
      by auto
    with Cons.IH [of "traverse m a"] Cons.prems show ?case by auto
  qed simp
  from this [of ns a] 3(2) show ?case by simp
qed

lemma analysis_text_execute: "executeNode p r = analysis_text p (analyzeTemplate r)"
proof -
  let ?a = "\<lparr>prefixB = [], tailB = [], ln = None, rest = [], containsConditionals = False\<rparr>"
  have "context_text p (traverse r ?a) = executeNode p r" and "context_ok (traverse r ?a)"
    using traverse_context [of ?a r p] by (simp_all add: context_defs)
  then show ?thesis
    by (cases "ln (traverse r ?a)")
      (auto simp: analyzeTemplate_def analysis_text_def finalize_def context_defs Let_def)
qed

text \<open>The pairs of an analysis are placeholders, and a conditional shows in the flag.\<close>

definition is_plain :: "node \<Rightarrow> bool" where
  "is_plain n \<longleftrightarrow> (\<exists>name b. n = PlaceholderNode name None b)"

definition context_plain :: "analyzer_context \<Rightarrow> bool" where
  "context_plain a \<longleftrightarrow> (\<not> containsConditionals a \<longrightarrow>
     (\<forall>(l, t) \<in> set (rest a). is_plain l) \<and> (\<forall>l. ln a = Some l \<longrightarrow> is_plain l))"

lemma traverse_plain: "context_plain a \<Longrightarrow> context_plain (traverse n a) \<and>
    (containsConditionals a \<longrightarrow> containsConditionals (traverse n a))"
proof (induction n a rule: traverse.induct)
  case (1 name inner ifset a)
  then show ?case
    by (cases "ln a") (auto simp: context_plain_def Let_def is_plain_def)
next
  case (3 ns a)
  have "context_plain (fold traverse ms a) \<and>
      (containsConditionals a \<longrightarrow> containsConditionals (fold traverse ms a))"
    if "set ms \<subseteq> set ns" "context_plain a" for ms a
    using that 3(1)
  proof (induction ms arbitrary: a)
    case (Cons m ms)
    from Cons.prems(1,2) Cons.prems(3) [of m a] have "context_plain (traverse m a)"
      "containsConditionals a \<longrightarrow> containsConditionals (traverse m a)" by auto
    with Cons.IH [of "traverse m a"] Cons.prems show ?case by auto
  qed simp
  from this [of ns a] 3(2) show ?case by simp
qed (auto simp: context_plain_def)

lemma analysis_plain:
  "\<not> ta_ContainsConditionals (analyzeTemplate r) \<Longrightarrow> (ph, t) \<in> set (ta_Rest (analyzeTemplate r)) \<Longrightarrow>
     is_plain ph"
  using traverse_plain [of "\<lparr>prefixB = [], tailB = [], ln = None, rest = [], containsConditionals = False\<rparr>" r]
  by (auto simp: context_plain_def analyzeTemplate_def finalize_def Let_def split: option.splits)

subsection \<open>Rendering and parsing\<close>

text \<open>
  The text of an AST, with every placeholder in braces.  An AST is well formed when its names are
  names, its literals hold no dollar sign (inside a default, no closing brace either) and no two
  literals are adjacent.
\<close>

fun render :: "node \<Rightarrow> string" where
  "render (LiteralNode v) = v"
| "render (PlaceholderNode name None b) = ''${'' @ name @ ''}''"
| "render (PlaceholderNode name (Some i) b) =
     ''${'' @ name @ (if b then '':+'' else '':-'') @ render i @ ''}''"
| "render (SequenceNode ns) = concat (map render ns)"

definition valid_name :: "string \<Rightarrow> bool" where
  "valid_name n \<longleftrightarrow> n \<noteq> [] \<and>
     ((\<forall>c \<in> set n. is_digit c) \<or> (isIdentifierStart (hd n) \<and> (\<forall>c \<in> set (tl n). isIdentifierPart c)))"

fun is_literal :: "node \<Rightarrow> bool" where
  "is_literal (LiteralNode v) = True"
| "is_literal n = False"

fun no_adjacent :: "node list \<Rightarrow> bool" where
  "no_adjacent (m # n # ns) \<longleftrightarrow> \<not> (is_literal m \<and> is_literal n) \<and> no_adjacent (n # ns)"
| "no_adjacent ns \<longleftrightarrow> True"

fun wf_node :: "bool \<Rightarrow> node \<Rightarrow> bool" where
  "wf_node inner (LiteralNode v) \<longleftrightarrow> CHR ''$'' \<notin> set v \<and> (inner \<longrightarrow> CHR ''}'' \<notin> set v)"
| "wf_node inner (PlaceholderNode name None b) \<longleftrightarrow> valid_name name \<and> \<not> b"
| "wf_node inner (PlaceholderNode name (Some i) b) \<longleftrightarrow> valid_name name \<and> wf_node True i"
| "wf_node inner (SequenceNode ns) \<longleftrightarrow> 2 \<le> length ns \<and> no_adjacent ns \<and>
     (\<forall>n \<in> set ns. wf_node inner n \<and> n \<noteq> LiteralNode [] \<and> (\<forall>ms. n \<noteq> SequenceNode ms))"

lemma identifier_chars:
  "isIdentifierPart c \<Longrightarrow> c \<noteq> CHR ''$'' \<and> c \<noteq> CHR ''}'' \<and> c \<noteq> CHR ''{'' \<and> c \<noteq> CHR '':''"
  by (auto simp: isIdentifierPart_def isIdentifierStart_def is_digit_def is_lower_def is_upper_def
      less_eq_char_def)

lemma start_not_digit: "isIdentifierStart c \<Longrightarrow> \<not> is_digit c"
  by (auto simp: isIdentifierStart_def is_digit_def is_lower_def is_upper_def less_eq_char_def)

lemma valid_name_part: "valid_name n \<Longrightarrow> c \<in> set n \<Longrightarrow> isIdentifierPart c"
  by (cases n) (auto simp: valid_name_def isIdentifierPart_def)

lemma parseName_valid:
  assumes "valid_name n" "\<not> isIdentifierPart c"
  shows "parseName (n @ c # r) = (n, c # r)"
proof (cases "\<forall>d \<in> set n. is_digit d")
  case True
  with assms show ?thesis
    by (auto simp: parseName_def Let_def valid_name_def isIdentifierPart_def takeWhile_append
        dropWhile_append)
next
  case False
  with assms obtain d ds where n: "n = d # ds" and "isIdentifierStart d"
    and "\<forall>c \<in> set ds. isIdentifierPart c"
    by (cases n) (auto simp: valid_name_def)
  with assms show ?thesis
    by (auto simp: parseName_def Let_def start_not_digit takeWhile_append dropWhile_append)
qed

lemma scan_other: "c \<noteq> CHR ''$'' \<Longrightarrow> c \<noteq> CHR ''}'' \<Longrightarrow>
    scanDefault k (c # s) = map_option (\<lambda>(t, r). (c # t, r)) (scanDefault k s)"
  by (cases s) auto

lemma scan_others: "CHR ''$'' \<notin> set u \<Longrightarrow> CHR ''}'' \<notin> set u \<Longrightarrow>
    scanDefault k (u @ s) = map_option (\<lambda>(t, r). (u @ t, r)) (scanDefault k s)"
  by (induction u) (auto simp: scan_other option.map_comp o_def split_def option.map_ident)

lemma scan_close: "k \<noteq> 1 \<Longrightarrow>
    scanDefault k (CHR ''}'' # s) = map_option (\<lambda>(t, r). (CHR ''}'' # t, r)) (scanDefault (k - 1) s)"
  by (cases s) auto

lemma scan_stop: "scanDefault (Suc 0) (CHR ''}'' # s) = Some ([], CHR ''}'' # s)"
  by (cases s) auto

lemma valid_name_scan: "valid_name n \<Longrightarrow> CHR ''$'' \<notin> set n \<and> CHR ''}'' \<notin> set n"
  using identifier_chars valid_name_part by blast

lemma scan_render:
  "wf_node True n \<Longrightarrow> 0 < k \<Longrightarrow>
     scanDefault k (render n @ s) = map_option (\<lambda>(t, r). (render n @ t, r)) (scanDefault k s)"
proof (induction n arbitrary: k s rule: render.induct)
  case (1 v)
  then show ?case by (simp add: scan_others)
next
  case (2 name b)
  then show ?case
    by (simp add: valid_name_scan scan_others scan_close option.map_comp o_def split_def)
next
  case (3 name i b)
  then show ?case
    by (simp add: valid_name_scan scan_others scan_close scan_other option.map_comp o_def split_def)
next
  case (4 ns)
  have "scanDefault k (concat (map render ms) @ s) =
      map_option (\<lambda>(t, r). (concat (map render ms) @ t, r)) (scanDefault k s)"
    if "set ms \<subseteq> set ns" for ms
    using that
  proof (induction ms)
    case (Cons m ms)
    with 4 show ?case by (simp add: option.map_comp o_def split_def)
  qed (simp add: option.map_ident split_def)
  from this [of ns] show ?case by simp
qed

lemma parse_placeholder_plain:
  assumes "valid_name name"
  shows "parsePlaceholder (''${'' @ name @ CHR ''}'' # r) =
     Inr (Complete (PlaceholderNode name None False), r)"
proof -
  have "parseName (name @ CHR ''}'' # r) = (name, CHR ''}'' # r)"
    using parseName_valid [OF assms] identifier_chars by blast
  then show ?thesis using assms
    by (cases r) (simp_all add: parsePlaceholder_def parseBracedPlaceholder_def valid_name_def)
qed

lemma parse_placeholder_inner:
  assumes "valid_name name" "wf_node True i"
  shows "parsePlaceholder (''${'' @ name @ (if b then '':+'' else '':-'') @ render i @ CHR ''}'' # r) =
     Inr (WithInner name b (render i), r)"
proof -
  have "parseName (name @ CHR '':'' # s) = (name, CHR '':'' # s)" for s
    using parseName_valid [of name] assms(1) identifier_chars by blast
  moreover have "scanDefault 1 (render i @ CHR ''}'' # r) = Some (render i, CHR ''}'' # r)"
    using scan_render [OF assms(2)] by (simp add: scan_stop)
  ultimately show ?thesis using assms(1)
    by (auto simp: parsePlaceholder_def parseBracedPlaceholder_def valid_name_def)
qed

lemma parseLiteral_all:
  assumes "CHR ''$'' \<notin> set v" "r = [] \<or> hd r = CHR ''$''"
  shows "parseLiteral (v @ r) = (v, r)"
proof -
  have "takeWhile (\<lambda>c. c \<noteq> CHR ''$'') r = []" "dropWhile (\<lambda>c. c \<noteq> CHR ''$'') r = r"
    using assms(2) by (cases r; simp)+
  with assms(1) show ?thesis by (induction v) (auto simp: parseLiteral_def)
qed

definition parses_back :: "node \<Rightarrow> bool" where
  "parses_back n \<longleftrightarrow> (\<exists>ns. parseNodes (render n) = Inr ns \<and> seqNode ns = n)"

lemma parse_elements:
  assumes "\<forall>n \<in> set ns. wf_node b n \<and> n \<noteq> LiteralNode [] \<and> (\<forall>ms. n \<noteq> SequenceNode ms)"
    and "no_adjacent ns"
    and "\<And>name i b. PlaceholderNode name (Some i) b \<in> set ns \<Longrightarrow> parses_back i"
  shows "parseNodes (concat (map render ns)) = Inr ns"
  using assms
proof (induction ns)
  case (Cons n ns)
  have IH: "parseNodes (concat (map render ns)) = Inr ns"
    using Cons.IH Cons.prems by (cases ns) auto
  let ?s = "concat (map render ns)"
  show ?case
  proof (cases n)
    case (LiteralNode v)
    obtain c cs where v: "v = c # cs" using Cons.prems(1) LiteralNode by (cases v) auto
    have nd: "CHR ''$'' \<notin> set v" using Cons.prems(1) LiteralNode by simp
    have "?s = [] \<or> hd ?s = CHR ''$''"
    proof (cases ns)
      case ns: (Cons m ms)
      with Cons.prems(2) LiteralNode have "\<not> is_literal m" by simp
      moreover have "\<forall>ks. m \<noteq> SequenceNode ks" using Cons.prems(1) ns by simp
      ultimately have "hd (render m) = CHR ''$'' \<and> render m \<noteq> []"
        by (cases m rule: render.cases) simp_all
      then show ?thesis using ns by simp
    qed simp
    then have "parseLiteral (v @ ?s) = (v, ?s)" by (rule parseLiteral_all [OF nd])
    then show ?thesis using v nd LiteralNode IH by (auto simp: parseNodes.simps(2))
  next
    case (PlaceholderNode name inner ifset)
    then have vn: "valid_name name" using Cons.prems(1) by (cases inner) auto
    show ?thesis
    proof (cases inner)
      case None
      with PlaceholderNode Cons.prems(1) have "\<not> ifset" by simp
      with None vn IH PlaceholderNode show ?thesis
        using parse_placeholder_plain [OF vn] by (simp add: parseNodes.simps(2))
    next
      case (Some i)
      with PlaceholderNode Cons.prems(1) have wi: "wf_node True i" by simp
      from Some PlaceholderNode have "parses_back i"
        using Cons.prems(3) [of name i ifset] by simp
      then obtain ks where "parseNodes (render i) = Inr ks" "seqNode ks = i"
        by (auto simp: parses_back_def)
      with Some IH PlaceholderNode show ?thesis
        using parse_placeholder_inner [OF vn wi, of ifset]
        by (cases ifset) (simp_all add: parseNodes.simps(2))
    qed
  qed (use Cons.prems in auto)
qed simp

lemma wf_parses_back: "wf_node b n \<Longrightarrow> parses_back n"
proof (induction b n rule: wf_node.induct)
  case (1 inner v)
  then show ?case
    using parse_elements [of "[LiteralNode v]" inner]
    by (cases v) (auto simp: parses_back_def seqNode_def)
next
  case (2 inner name b)
  then show ?case
    using parse_elements [of "[PlaceholderNode name None b]" inner]
    by (auto simp: parses_back_def seqNode_def)
next
  case (3 inner name i b)
  then show ?case
    using parse_elements [of "[PlaceholderNode name (Some i) b]" inner]
    by (auto simp: parses_back_def seqNode_def)
next
  case (4 inner ns)
  have "parses_back i" if "PlaceholderNode name (Some i) b \<in> set ns" for name i b
  proof -
    from 4 that have "wf_node inner (PlaceholderNode name (Some i) b)" by auto
    then have "parses_back (PlaceholderNode name (Some i) b)" "valid_name name" "wf_node True i"
      using 4 that by auto
    then show ?thesis
      using parse_placeholder_inner [of name i b "[]"]
      by (cases b) (auto simp: parses_back_def parseNodes.simps(2) seqNode_def)
  qed
  then have "parseNodes (concat (map render ns)) = Inr ns"
    using parse_elements [of ns inner] 4(2) by auto
  moreover have "seqNode ns = SequenceNode ns"
    using 4(2) by (auto simp: seqNode_def split: list.splits)
  ultimately show ?case by (simp add: parses_back_def)
qed

lemma parse_render: "wf_node b n \<Longrightarrow> parseTemplate (render n) = Inr n"
  using wf_parses_back by (auto simp: parses_back_def parseTemplate_def)

subsection \<open>Properties\<close>

text \<open>
  C20: rendering a well-formed template AST and parsing the text gives the same AST back, at any
  depth of nested defaults and expansions (the brace counting finds the right closing brace).
\<close>

theorem template_parse_render:
  "wf_node False n \<Longrightarrow> \<exists>t. Parse (render n) = Inr t \<and> tmpl_root t = n \<and> tmpl_input t = render n"
  using parse_render by (simp add: Parse_def)

theorem template_parse_render_witness:
  "\<exists>t. Parse ''https://${host:-${region:+x-${region}}.local}/${1}'' = Inr t \<and> tmpl_root t =
     SequenceNode [LiteralNode ''https://'',
       PlaceholderNode ''host'' (Some (SequenceNode
         [PlaceholderNode ''region'' (Some (SequenceNode
            [LiteralNode ''x-'', PlaceholderNode ''region'' None False])) True,
          LiteralNode ''.local''])) False,
       LiteralNode ''/'', PlaceholderNode ''1'' None False]"
  using template_parse_render [of "SequenceNode [LiteralNode ''https://'',
       PlaceholderNode ''host'' (Some (SequenceNode
         [PlaceholderNode ''region'' (Some (SequenceNode
            [LiteralNode ''x-'', PlaceholderNode ''region'' None False])) True,
          LiteralNode ''.local''])) False,
       LiteralNode ''/'', PlaceholderNode ''1'' None False]"]
  by (force simp: valid_name_def isIdentifierStart_def isIdentifierPart_def is_digit_def
      is_lower_def is_upper_def less_eq_char_def)

text \<open>
  C21: executing a parsed template yields exactly the text its eager analysis describes: the static
  prefix followed by the value and the literal tail of each placeholder; and where the analysis
  reports no conditional, every placeholder is a plain variable.  The prefix optimizer and the
  reverse rewrite decide on the analysis alone.
\<close>

theorem template_execute_analysis:
  assumes "Parse s = Inr t"
  shows "Execute t p = analysis_text p (tmpl_analysis t) \<and>
    (\<not> ta_ContainsConditionals (tmpl_analysis t) \<longrightarrow>
      (\<forall>(ph, tail) \<in> set (ta_Rest (tmpl_analysis t)). is_plain ph))"
proof -
  from assms have "tmpl_analysis t = analyzeTemplate (tmpl_root t)" by (auto simp: Parse_def)
  then show ?thesis
    using analysis_text_execute analysis_plain by (auto simp: Execute_def)
qed

theorem template_execute_analysis_witness:
  "\<exists>t. Parse ''PRE/$1'' = Inr t \<and>
     Execute t (SetIndexedAllBorrow [''a'', ''b''] NewPlaceholders) = ''PRE/b'' \<and>
     ta_Prefix (tmpl_analysis t) = ''PRE/''"
proof -
  let ?p = "SetIndexedAllBorrow [''a'', ''b''] NewPlaceholders"
  obtain t where t: "Parse ''PRE/$1'' = Inr t"
    and a: "tmpl_analysis t = \<lparr>ta_Prefix = ''PRE/'', ta_Rest = [(PlaceholderNode ''1'' None False, [])],
      ta_ContainsConditionals = False\<rparr>"
    by (simp add: Parse_def parseTemplate_def parseNodes.simps parseLiteral_def parsePlaceholder_def
        parseName_def is_digit_def less_eq_char_def seqNode_def analyzeTemplate_def finalize_def Let_def)
  have "executeNode ?p (PlaceholderNode ''1'' None False) = ''b''"
    by (simp add: ph_value_def placeholders_defs ParseInt_def digit_value_def is_digit_def
        less_eq_char_def Let_def)
  with template_execute_analysis [OF t, of ?p] a have "Execute t ?p = ''PRE/b''"
    by (simp add: analysis_text_def pairs_text_def)
  with t a show ?thesis by simp
qed

end
