(* ===== verification/Regex.thy ===== *)
theory Regex
  imports Prelude
begin

section \<open>Regular expressions (Go's package regexp)\<close>

text \<open>
  Routes and rewrites are matched with Go's \<open>regexp\<close>.  The part of the library that routing
  patterns use is modelled here: the syntax (literals, \<open>.\<close>, classes, groups, named groups,
  alternation, greedy and lazy \<open>* + ?\<close>, the anchors \<open>^\<close> and \<open>$\<close>, the escapes
  \<open>\d \w \s\<close> and escaped punctuation) and leftmost-first matching with captures.  Counted
  repetition, flags, Unicode classes and the escapes outside that list are reported as
  \<open>Unsupported\<close>, which is a limit of this model and not an error of Go.

  A match is computed by enumerating, in priority order, the ways an expression can match at a
  position; the first one is the leftmost-first match of the library.  Text is scanned rune by rune
  with Go's decoding rules (an invalid byte counts as U+FFFD of width 1); positions are byte
  offsets.
\<close>

subsection \<open>Runes\<close>

definition byte :: "char \<Rightarrow> nat" where
  "byte c = of_char c"

definition cont_byte :: "char \<Rightarrow> bool" where
  "cont_byte c \<longleftrightarrow> 128 \<le> byte c \<and> byte c < 192"

text \<open>\<open>utf8.DecodeRune\<close>: the first code point of a string and its width in bytes.\<close>

definition DecodeRune :: "string \<Rightarrow> nat \<times> nat" where
  "DecodeRune s =
     (case s of
        [] \<Rightarrow> (65533, 0)
      | a # s1 \<Rightarrow>
         (if byte a < 128 then (byte a, 1)
          else if 194 \<le> byte a \<and> byte a \<le> 223 then
            (case s1 of b # _ \<Rightarrow>
               if cont_byte b then ((byte a - 192) * 64 + (byte b - 128), 2) else (65533, 1)
             | [] \<Rightarrow> (65533, 1))
          else if 224 \<le> byte a \<and> byte a \<le> 239 then
            (case s1 of b # c # _ \<Rightarrow>
               if cont_byte b \<and> cont_byte c \<and> (byte a = 224 \<longrightarrow> 160 \<le> byte b) \<and>
                  (byte a = 237 \<longrightarrow> byte b \<le> 159)
               then ((byte a - 224) * 4096 + (byte b - 128) * 64 + (byte c - 128), 3)
               else (65533, 1)
             | _ \<Rightarrow> (65533, 1))
          else if 240 \<le> byte a \<and> byte a \<le> 244 then
            (case s1 of b # c # d # _ \<Rightarrow>
               if cont_byte b \<and> cont_byte c \<and> cont_byte d \<and> (byte a = 240 \<longrightarrow> 144 \<le> byte b) \<and>
                  (byte a = 244 \<longrightarrow> byte b \<le> 143)
               then ((byte a - 240) * 262144 + (byte b - 128) * 4096 + (byte c - 128) * 64
                     + (byte d - 128), 4)
               else (65533, 1)
             | _ \<Rightarrow> (65533, 1))
          else (65533, 1)))"

definition rune_width :: "string \<Rightarrow> nat" where
  "rune_width s = snd (DecodeRune s)"

lemma rune_width_pos: "s \<noteq> [] \<Longrightarrow> 0 < rune_width s"
  by (auto simp: rune_width_def DecodeRune_def split: list.splits)

lemma DecodeRune_ascii [simp]: "byte c < 128 \<Longrightarrow> DecodeRune (c # s) = (byte c, 1)"
  by (simp add: DecodeRune_def)

subsection \<open>Expressions\<close>

datatype re =
    REmpty
  | RRune nat
  | RAny                                    \<comment> \<open>any rune but a newline\<close>
  | RClass bool "(nat \<times> nat) list"         \<comment> \<open>negated?, inclusive ranges of code points\<close>
  | RBol
  | REol
  | RCat re re
  | RAlt re re
  | RStar bool re                           \<comment> \<open>greedy?\<close>
  | RPlus bool re
  | RQuest bool re
  | RGroup nat re

text \<open>A matching state: the offset, the text from there on, and the groups captured so far.\<close>

record mstate =
  mpos :: nat
  mrest :: string
  mcaps :: "(nat \<times> nat \<times> nat) list"

definition in_class :: "bool \<Rightarrow> (nat \<times> nat) list \<Rightarrow> nat \<Rightarrow> bool" where
  "in_class neg rs r \<longleftrightarrow> neg \<noteq> list_ex (\<lambda>(lo, hi). lo \<le> r \<and> r \<le> hi) rs"

definition step_rune :: "(nat \<Rightarrow> bool) \<Rightarrow> mstate \<Rightarrow> mstate list" where
  "step_rune P st =
     (if mrest st = [] then []
      else let (r, w) = DecodeRune (mrest st) in
        if P r then [st\<lparr>mpos := mpos st + w, mrest := drop w (mrest st)\<rparr>] else [])"

text \<open>
  The loop of \<open>x*\<close> over the matches of its body: an iteration that consumes nothing ends the
  loop, as in the library's compilation of a nullable star.
\<close>

function star_loop :: "(mstate \<Rightarrow> mstate list) \<Rightarrow> bool \<Rightarrow> mstate \<Rightarrow> mstate list" where
  "star_loop f greedy st =
     (let more = concat (map (\<lambda>st'. if length (mrest st') < length (mrest st)
                                      then star_loop f greedy st' else [st']) (f st))
      in if greedy then more @ [st] else st # more)"
  by pat_completeness auto
termination
  by (relation "measure (\<lambda>(f, g, st). length (mrest st))") auto

declare star_loop.simps [simp del]

primrec rmatch :: "re \<Rightarrow> mstate \<Rightarrow> mstate list" where
  "rmatch REmpty st = [st]"
| "rmatch (RRune r) st = step_rune (\<lambda>x. x = r) st"
| "rmatch RAny st = step_rune (\<lambda>x. x \<noteq> 10) st"
| "rmatch (RClass neg rs) st = step_rune (in_class neg rs) st"
| "rmatch RBol st = (if mpos st = 0 then [st] else [])"
| "rmatch REol st = (if mrest st = [] then [st] else [])"
| "rmatch (RCat a b) st = concat (map (rmatch b) (rmatch a st))"
| "rmatch (RAlt a b) st = rmatch a st @ rmatch b st"
| "rmatch (RStar g a) st = star_loop (rmatch a) g st"
| "rmatch (RPlus g a) st =
     concat (map (\<lambda>st'. if length (mrest st') < length (mrest st)
                           then star_loop (rmatch a) g st' else [st']) (rmatch a st))"
| "rmatch (RQuest g a) st = (if g then rmatch a st @ [st] else st # rmatch a st)"
| "rmatch (RGroup i a) st =
     map (\<lambda>st'. st'\<lparr>mcaps := (i, mpos st, mpos st') # mcaps st'\<rparr>) (rmatch a st)"

subsection \<open>Compiled expressions and searching\<close>

record regexp =
  re_text :: string             \<comment> \<open>\<open>String()\<close>\<close>
  re_prog :: re
  re_names :: "string list"     \<comment> \<open>\<open>SubexpNames()\<close>: entry 0 is the whole match\<close>

text \<open>Try every start position from the left; the first match found wins.\<close>

function search :: "re \<Rightarrow> nat \<Rightarrow> string \<Rightarrow> (nat \<times> mstate) option" where
  "search e p s =
     (case rmatch e \<lparr>mpos = p, mrest = s, mcaps = []\<rparr> of
        m # _ \<Rightarrow> Some (p, m)
      | [] \<Rightarrow> if s = [] then None else search e (p + rune_width s) (drop (rune_width s) s))"
  by pat_completeness auto
termination
  by (relation "measure (\<lambda>(e, p, s). length s)") (auto simp: rune_width_pos)

declare search.simps [simp del]

text \<open>
  \<open>FindStringSubmatchIndex\<close>: \<^const>\<open>None\<close> when nothing matches, otherwise the byte range of
  the match and of every group; a group that took no part is \<^const>\<open>None\<close> (Go's pair of \<open>-1\<close>).
\<close>

definition FindStringSubmatchIndex :: "regexp \<Rightarrow> string \<Rightarrow> (nat \<times> nat) option list option" where
  "FindStringSubmatchIndex r s =
     (case search (re_prog r) 0 s of
        None \<Rightarrow> None
      | Some (p, m) \<Rightarrow>
          Some (Some (p, mpos m) # map (\<lambda>i. map_of (mcaps m) i) [1..<length (re_names r)]))"

definition MatchString :: "regexp \<Rightarrow> string \<Rightarrow> bool" where
  "MatchString r s \<longleftrightarrow> FindStringSubmatchIndex r s \<noteq> None"

subsection \<open>Parsing patterns\<close>

datatype re_error =
    MissingRepeatArgument
  | InvalidRepeatOp
  | MissingParen
  | UnexpectedParen
  | MissingBracket
  | InvalidCharRange
  | TrailingBackslash
  | InvalidNamedCapture
  | DuplicateName
  | Unsupported

definition class_d :: "(nat \<times> nat) list" where "class_d = [(48, 57)]"
definition class_w :: "(nat \<times> nat) list" where "class_w = [(48, 57), (65, 90), (95, 95), (97, 122)]"
definition class_s :: "(nat \<times> nat) list" where "class_s = [(9, 10), (12, 13), (32, 32)]"

definition is_punct :: "char \<Rightarrow> bool" where
  "is_punct c \<longleftrightarrow> 33 \<le> byte c \<and> byte c \<le> 126 \<and> \<not> is_digit c \<and> \<not> is_lower c \<and> \<not> is_upper c"

text \<open>What follows a backslash outside a class.\<close>

definition escape_atom :: "char \<Rightarrow> re_error + re" where
  "escape_atom c =
     (if c = CHR ''d'' then Inr (RClass False class_d)
      else if c = CHR ''D'' then Inr (RClass True class_d)
      else if c = CHR ''w'' then Inr (RClass False class_w)
      else if c = CHR ''W'' then Inr (RClass True class_w)
      else if c = CHR ''s'' then Inr (RClass False class_s)
      else if c = CHR ''S'' then Inr (RClass True class_s)
      else if c = CHR ''A'' then Inr RBol
      else if c = CHR ''z'' then Inr REol
      else if c = CHR ''t'' then Inr (RRune 9)
      else if c = CHR ''n'' then Inr (RRune 10)
      else if c = CHR ''r'' then Inr (RRune 13)
      else if is_punct c then Inr (RRune (byte c))
      else Inl Unsupported)"

text \<open>One member of a class: its ranges, or one rune that may start a range.\<close>

definition class_item :: "string \<Rightarrow> re_error + ((nat \<times> nat) list + nat) \<times> string" where
  "class_item s =
     (case s of
        [] \<Rightarrow> Inl MissingBracket
      | c # r \<Rightarrow>
          (if c = CHR 0x5C then
             (case r of
                [] \<Rightarrow> Inl TrailingBackslash
              | d # r' \<Rightarrow>
                  (if d = CHR ''d'' then Inr (Inl class_d, r')
                   else if d = CHR ''w'' then Inr (Inl class_w, r')
                   else if d = CHR ''s'' then Inr (Inl class_s, r')
                   else if d = CHR ''t'' then Inr (Inr 9, r')
                   else if d = CHR ''n'' then Inr (Inr 10, r')
                   else if d = CHR ''r'' then Inr (Inr 13, r')
                   else if is_punct d then Inr (Inr (byte d), r')
                   else Inl Unsupported))
           else if c = CHR ''['' \<and> r \<noteq> [] \<and> hd r = CHR '':'' then Inl Unsupported
           else Inr (Inr (fst (DecodeRune s)), drop (rune_width s) s)))"

lemma class_item_shorter: "class_item s = Inr (x, r) \<Longrightarrow> length r < length s"
  using rune_width_pos [of s]
  by (auto simp: class_item_def split: list.splits if_splits)

text \<open>The members up to the closing bracket (a bracket in first place is a member).\<close>

function class_items :: "bool \<Rightarrow> string \<Rightarrow> re_error + (nat \<times> nat) list \<times> string" where
  "class_items first s =
     (if s = [] then Inl MissingBracket
      else if \<not> first \<and> hd s = CHR '']'' then Inr ([], tl s)
      else
        (case class_item s of
           Inl e \<Rightarrow> Inl e
         | Inr (Inl rs, r) \<Rightarrow> rbind (class_items False r) (\<lambda>(rs', r'). Inr (rs @ rs', r'))
         | Inr (Inr lo, r) \<Rightarrow>
             (if length r \<ge> 2 \<and> hd r = CHR ''-'' \<and> hd (tl r) \<noteq> CHR '']'' then
                (case class_item (tl r) of
                   Inr (Inr hi, r'') \<Rightarrow>
                     (if length r'' < length s then
                        (if lo \<le> hi then rbind (class_items False r'') (\<lambda>(rs', r'). Inr ((lo, hi) # rs', r'))
                         else Inl InvalidCharRange)
                      else Inl InvalidCharRange)
                 | Inr (Inl _, _) \<Rightarrow> Inl InvalidCharRange
                 | Inl e \<Rightarrow> Inl e)
              else rbind (class_items False r) (\<lambda>(rs', r'). Inr ((lo, lo) # rs', r')))))"
  by pat_completeness auto
termination
  by (relation "measure (\<lambda>(b, s). length s)") (auto dest: class_item_shorter)

declare class_items.simps [simp del]

definition class_atom :: "string \<Rightarrow> re_error + re \<times> string" where
  "class_atom s =
     (let neg = (s \<noteq> [] \<and> hd s = CHR ''^'') in
      rbind (class_items True (if neg then tl s else s)) (\<lambda>(rs, r). Inr (RClass neg rs, r)))"

lemma class_items_shorter: "class_items b s = Inr (rs, r) \<Longrightarrow> length r < length s"
proof (induction "length s" arbitrary: b s rs r rule: less_induct)
  case less
  have step: "length r < length s"
    if "length u < length s" "rbind (class_items False u) (\<lambda>(rs', r'). Inr (g rs', r')) = Inr (rs, r)"
    for u and g :: "(nat \<times> nat) list \<Rightarrow> (nat \<times> nat) list"
    using that less.hyps [of u False] by auto
  show ?case
  proof (cases "s = [] \<or> (\<not> b \<and> hd s = CHR '']'')")
    case True
    with less.prems show ?thesis by (subst (asm) class_items.simps) (auto split: if_splits)
  next
    case False
    with less.prems obtain x u where it: "class_item s = Inr (x, u)"
      by (subst (asm) class_items.simps) (auto split: sum.splits)
    note u = class_item_shorter [OF it]
    note eq = less.prems [unfolded class_items.simps [of b s]]
    show ?thesis
    proof (cases x)
      case (Inl ls)
      with eq False it u show ?thesis by (auto simp del: rbind_Inr_iff intro: step)
    next
      case (Inr lo)
      show ?thesis
      proof (cases "length u \<ge> 2 \<and> hd u = CHR ''-'' \<and> hd (tl u) \<noteq> CHR '']''")
        case True
        with eq False it Inr obtain hi v where v: "length v < length s"
          "rbind (class_items False v) (\<lambda>(rs', r'). Inr ((lo, hi) # rs', r')) = Inr (rs, r)"
          by (simp del: rbind_Inr_iff split: sum.splits prod.splits if_splits)
        then show ?thesis by (rule step)
      next
        case no_range: False
        with eq False it Inr
        have "rbind (class_items False u) (\<lambda>(rs', r'). Inr ((lo, lo) # rs', r')) = Inr (rs, r)"
          by (simp only: if_not_P [OF no_range] if_False sum.case prod.case split: if_splits) auto
        with u show ?thesis by (rule step)
      qed
    qed
  qed
qed

lemma class_atom_shorter: "class_atom s = Inr (a, r) \<Longrightarrow> length r < length s"
  by (auto simp: class_atom_def Let_def split: if_splits dest!: class_items_shorter)

text \<open>
  A group that is still open: its capture index, the alternatives closed so far and the atoms of the
  current one, last first.
\<close>

record re_frame =
  f_group :: "nat option"
  f_alts :: "re list"
  f_cur :: "re list"

definition cat_of :: "re list \<Rightarrow> re" where
  "cat_of as = (case as of [] \<Rightarrow> REmpty | a # bs \<Rightarrow> foldl RCat a bs)"

definition frame_re :: "re_frame \<Rightarrow> re" where
  "frame_re f =
     (let e = foldr RAlt (f_alts f) (cat_of (rev (f_cur f)))
      in case f_group f of None \<Rightarrow> e | Some i \<Rightarrow> RGroup i e)"

definition push_atom :: "re \<Rightarrow> re_frame list \<Rightarrow> re_frame list" where
  "push_atom a fs = (case fs of [] \<Rightarrow> [] | f # fs' \<Rightarrow> f\<lparr>f_cur := a # f_cur f\<rparr> # fs')"

definition name_char :: "char \<Rightarrow> bool" where
  "name_char c \<longleftrightarrow> is_digit c \<or> is_lower c \<or> is_upper c \<or> c = CHR ''_''"

text \<open>The head of a group, after its opening parenthesis: \<open>?P<name>\<close>, \<open>?:\<close> or a plain one.\<close>

definition group_head :: "string \<Rightarrow> re_error + string option \<times> bool \<times> string" where
  "group_head s =
     (if HasPrefix s ''?:'' then Inr (None, False, drop 2 s)
      else if HasPrefix s ''?P<'' \<or> HasPrefix s ''?<'' then
        (let body = drop (if HasPrefix s ''?P<'' then 3 else 2) s;
             name = takeWhile name_char body; r = dropWhile name_char body in
         if name \<noteq> [] \<and> r \<noteq> [] \<and> hd r = CHR ''>'' then Inr (Some name, True, tl r)
         else Inl InvalidNamedCapture)
      else if HasPrefix s ''?'' then Inl Unsupported
      else Inr (None, True, s))"

lemma length_tl_dropWhile: "length (dropWhile P (drop k s)) - 1 \<le> length s"
  using length_dropWhile_le [of P "drop k s"] by simp

lemma group_head_shorter: "group_head s = Inr (n, b, r) \<Longrightarrow> length r \<le> length s"
  unfolding group_head_def Let_def
  by (auto split: if_split_asm simp: length_tl_dropWhile [simplified])

function rparse :: "string \<Rightarrow> bool \<Rightarrow> re_frame list \<Rightarrow> string list \<Rightarrow> re_error + re \<times> string list" where
  "rparse s rep fs names =
     (case s of
        [] \<Rightarrow> (case fs of [f] \<Rightarrow> Inr (frame_re f, names) | _ \<Rightarrow> Inl MissingParen)
      | c # r \<Rightarrow>
         (if c = CHR ''('' then
            (case group_head r of
               Inl e \<Rightarrow> Inl e
             | Inr (name, capturing, r') \<Rightarrow>
                 (if capturing then
                    (if name \<noteq> None \<and> the name \<in> set names then Inl DuplicateName
                     else rparse r' False
                       (\<lparr>f_group = Some (length names), f_alts = [], f_cur = []\<rparr> # fs)
                       (names @ [case name of Some n \<Rightarrow> n | None \<Rightarrow> []]))
                  else rparse r' False (\<lparr>f_group = None, f_alts = [], f_cur = []\<rparr> # fs) names))
          else if c = CHR '')'' then
            (case fs of
               f # g # fs' \<Rightarrow> rparse r False (push_atom (frame_re f) (g # fs')) names
             | _ \<Rightarrow> Inl UnexpectedParen)
          else if c = CHR ''|'' then
            (case fs of
               f # fs' \<Rightarrow> rparse r False
                  (f\<lparr>f_alts := f_alts f @ [cat_of (rev (f_cur f))], f_cur := []\<rparr> # fs') names
             | [] \<Rightarrow> Inl UnexpectedParen)
          else if c = CHR ''*'' \<or> c = CHR ''+'' \<or> c = CHR ''?'' then
            (case fs of
               f # fs' \<Rightarrow>
                 (case f_cur f of
                    [] \<Rightarrow> Inl MissingRepeatArgument
                  | a # as \<Rightarrow>
                      (if rep then Inl InvalidRepeatOp
                       else
                         (let lazy = (r \<noteq> [] \<and> hd r = CHR ''?'');
                              op = (if c = CHR ''*'' then RStar else if c = CHR ''+'' then RPlus else RQuest)
                          in rparse (if lazy then tl r else r) True
                               (f\<lparr>f_cur := op (\<not> lazy) a # as\<rparr> # fs') names)))
             | [] \<Rightarrow> Inl UnexpectedParen)
          else if c = CHR ''.'' then rparse r False (push_atom RAny fs) names
          else if c = CHR ''^'' then rparse r False (push_atom RBol fs) names
          else if c = CHR ''$'' then rparse r False (push_atom REol fs) names
          else if c = CHR ''['' then
            (case class_atom r of
               Inl e \<Rightarrow> Inl e
             | Inr (a, r') \<Rightarrow> rparse r' False (push_atom a fs) names)
          else if c = CHR 0x5C then
            (case r of
               [] \<Rightarrow> Inl TrailingBackslash
             | d # r' \<Rightarrow>
                 (case escape_atom d of
                    Inl e \<Rightarrow> Inl e
                  | Inr a \<Rightarrow> rparse r' False (push_atom a fs) names))
          else if c = CHR ''{'' then Inl Unsupported
          else rparse (drop (rune_width s) s) False (push_atom (RRune (fst (DecodeRune s))) fs) names))"
  by pat_completeness auto
termination
  by (relation "measure (\<lambda>(s, rep, fs, names). length s)")
    (auto dest!: group_head_shorter class_atom_shorter simp: rune_width_pos)

declare rparse.simps [simp del]

definition Compile :: "string \<Rightarrow> re_error + regexp" where
  "Compile pattern =
     rbind (rparse pattern False [\<lparr>f_group = None, f_alts = [], f_cur = []\<rparr>] [[]])
       (\<lambda>(e, names). Inr \<lparr>re_text = pattern, re_prog = e, re_names = names\<rparr>)"

end
