(* ===== verification/Http.thy ===== *)
theory Http
  imports Prelude
begin

section \<open>Header maps, escaping and URLs (Go's packages net/http and net/url)\<close>

text \<open>
  What the router uses of \<open>http.Header\<close>, \<open>url.Values\<close>, \<open>url.URL\<close> and the percent-encoding
  functions of \<open>net/url\<close>.  A header or a query is an association list from keys to value
  lists (a Go map of slices).
\<close>

subsection \<open>Percent-encoding\<close>

datatype escape_mode = EncodePath | EncodePathSegment | EncodeQueryComponent

definition unreserved :: "char \<Rightarrow> bool" where
  "unreserved c \<longleftrightarrow> is_digit c \<or> is_lower c \<or> is_upper c \<or> c \<in> set ''-_.~''"

text \<open>\<open>shouldEscape\<close> of package net/url.\<close>

definition shouldEscape :: "escape_mode \<Rightarrow> char \<Rightarrow> bool" where
  "shouldEscape m c =
     (if unreserved c then False
      else if c \<in> set ''$&+,/:;=?@'' then
        (case m of
           EncodePath \<Rightarrow> c = CHR ''?''
         | EncodePathSegment \<Rightarrow> c \<in> set ''/;,?''
         | EncodeQueryComponent \<Rightarrow> True)
      else True)"

definition hex_upper :: "nat \<Rightarrow> char" where
  "hex_upper d = (if d < 10 then char_of (48 + d) else char_of (55 + d))"

definition unhex :: "char \<Rightarrow> nat option" where
  "unhex c =
     (if is_digit c then Some (of_char c - 48)
      else if CHR ''a'' \<le> c \<and> c \<le> CHR ''f'' then Some (of_char c - 87)
      else if CHR ''A'' \<le> c \<and> c \<le> CHR ''F'' then Some (of_char c - 55)
      else None)"

definition percent :: "char \<Rightarrow> string" where
  "percent c = [CHR ''%'', hex_upper (of_char c div 16), hex_upper (of_char c mod 16)]"

definition escape_char :: "escape_mode \<Rightarrow> char \<Rightarrow> string" where
  "escape_char m c =
     (if c = CHR '' '' \<and> m = EncodeQueryComponent then ''+''
      else if shouldEscape m c then percent c else [c])"

definition escape :: "escape_mode \<Rightarrow> string \<Rightarrow> string" where
  "escape m s = concat (map (escape_char m) s)"

text \<open>\<open>unescape\<close>; a malformed escape is \<^const>\<open>None\<close> (Go's \<open>EscapeError\<close>).\<close>

fun unescape :: "escape_mode \<Rightarrow> string \<Rightarrow> string option" where
  "unescape m [] = Some []"
| "unescape m (c # s) =
     (if c = CHR ''%'' then
        (case s of
           a # b # r \<Rightarrow>
             (case (unhex a, unhex b) of
                (Some x, Some y) \<Rightarrow> map_option (Cons (char_of (16 * x + y))) (unescape m r)
              | _ \<Rightarrow> None)
         | _ \<Rightarrow> None)
      else map_option (Cons (if c = CHR ''+'' \<and> m = EncodeQueryComponent then CHR '' '' else c))
        (unescape m s))"

definition PathUnescape :: "string \<Rightarrow> string option" where
  "PathUnescape s = unescape EncodePathSegment s"

definition QueryUnescape :: "string \<Rightarrow> string option" where
  "QueryUnescape s = unescape EncodeQueryComponent s"

definition QueryEscape :: "string \<Rightarrow> string" where
  "QueryEscape s = escape EncodeQueryComponent s"

lemma unhex_hex_upper: "d < 16 \<Longrightarrow> unhex (hex_upper d) = Some d"
  by (auto simp: unhex_def hex_upper_def is_digit_def less_eq_char_def)

lemma unescape_percent: "unescape m (percent c @ s) = map_option (Cons c) (unescape m s)"
proof -
  have "of_char c < (256 :: nat)" by (rule nat_of_char_less_256)
  then have "(of_char c :: nat) div 16 < 16" by (simp add: less_mult_imp_div_less)
  moreover have "16 * (of_char c div 16) + of_char c mod 16 = (of_char c :: nat)" by simp
  ultimately show ?thesis
    by (simp add: percent_def unhex_hex_upper)
qed

lemma unescape_escape_char:
  "unescape m (escape_char m c @ s) = map_option (Cons c) (unescape m s)"
proof -
  have "\<not> shouldEscape m CHR ''+'' \<Longrightarrow> m \<noteq> EncodeQueryComponent"
    by (auto simp: shouldEscape_def unreserved_def is_digit_def is_lower_def is_upper_def
        less_eq_char_def)
  moreover have "shouldEscape m CHR ''%''"
    by (auto simp: shouldEscape_def unreserved_def is_digit_def is_lower_def is_upper_def
        less_eq_char_def)
  ultimately show ?thesis
    by (cases "c = CHR ''%''"; cases "c = CHR ''+''")
      (auto simp: escape_char_def unescape_percent)
qed

lemma unescape_escape_append:
  "unescape m (escape m s @ t) = map_option ((@) s) (unescape m t)"
  by (induction s)
    (auto simp: escape_def unescape_escape_char option.map_comp o_def option.map_ident)

lemma unescape_escape: "unescape m (escape m s) = Some s"
  using unescape_escape_append [of m s "[]"] by simp

subsection \<open>Header maps\<close>

type_synonym header = "(string \<times> string list) list"

definition token_char :: "char \<Rightarrow> bool" where
  "token_char c \<longleftrightarrow> is_digit c \<or> is_lower c \<or> is_upper c \<or> c \<in> set ''!#$%&'' \<or> c = CHR 0x27 \<or> c \<in> set ''*+-.^_`|~''"

fun canon_chars :: "bool \<Rightarrow> string \<Rightarrow> string" where
  "canon_chars up [] = []"
| "canon_chars up (c # s) =
     (if up then upper_char c else lower_char c) # canon_chars (c = CHR ''-'') s"

text \<open>\<open>textproto.CanonicalMIMEHeaderKey\<close>.\<close>

definition CanonicalKey :: "string \<Rightarrow> string" where
  "CanonicalKey k = (if list_all token_char k then canon_chars True k else k)"

definition hValues :: "header \<Rightarrow> string \<Rightarrow> string list" where
  "hValues h k = (case map_of h (CanonicalKey k) of Some vs \<Rightarrow> vs | None \<Rightarrow> [])"

definition hGet :: "header \<Rightarrow> string \<Rightarrow> string" where
  "hGet h k = (case hValues h k of v # _ \<Rightarrow> v | [] \<Rightarrow> [])"

definition hSet :: "string \<Rightarrow> string \<Rightarrow> header \<Rightarrow> header" where
  "hSet k v h = AList.update (CanonicalKey k) [v] h"

definition hAdd :: "string \<Rightarrow> string \<Rightarrow> header \<Rightarrow> header" where
  "hAdd k v h = AList.update (CanonicalKey k) (hValues h k @ [v]) h"

definition hDel :: "string \<Rightarrow> header \<Rightarrow> header" where
  "hDel k h = AList.delete (CanonicalKey k) h"

text \<open>A property of the characters of a range, from its numbers.\<close>

lemma char_range:
  assumes "\<forall>n \<in> set [a..<b]. P (char_of n :: char)" "char_of a \<le> c" "c < char_of b" "a < b" "b < 256"
  shows "P c"
proof -
  have "a \<le> of_char c" "of_char c < b" using assms(2-5) by (auto simp: less_eq_char_def less_char_def)
  then have "(of_char c :: nat) \<in> set [a..<b]" by simp
  from bspec [OF assms(1) this] show ?thesis by simp
qed

lemma hGet_hSet [simp]:
  "hGet (hSet k v h) k' = (if CanonicalKey k = CanonicalKey k' then v else hGet h k')"
  by (simp add: hGet_def hValues_def hSet_def)

lemma hValues_hSet [simp]:
  "hValues (hSet k v h) k' = (if CanonicalKey k = CanonicalKey k' then [v] else hValues h k')"
  by (simp add: hValues_def hSet_def)

lemma hGet_hDel [simp]:
  "hGet (hDel k h) k' = (if CanonicalKey k = CanonicalKey k' then [] else hGet h k')"
  by (simp add: hGet_def hValues_def hDel_def delete_conv')

lemma hValues_hAdd [simp]:
  "hValues (hAdd k v h) k' =
     (if CanonicalKey k = CanonicalKey k' then hValues h k @ [v] else hValues h k')"
  by (auto simp: hValues_def hAdd_def)

lemma distinct_hSet [simp]: "distinct (map fst h) \<Longrightarrow> distinct (map fst (hSet k v h))"
  by (simp add: hSet_def distinct_update)

lemma distinct_hDel [simp]: "distinct (map fst h) \<Longrightarrow> distinct (map fst (hDel k h))"
  by (simp add: hDel_def distinct_delete)

lemma distinct_hAdd [simp]: "distinct (map fst h) \<Longrightarrow> distinct (map fst (hAdd k v h))"
  by (simp add: hAdd_def distinct_update)

subsection \<open>Queries\<close>

type_synonym url_values = "(string \<times> string list) list"

definition vValues :: "url_values \<Rightarrow> string \<Rightarrow> string list" where
  "vValues q k = (case map_of q k of Some vs \<Rightarrow> vs | None \<Rightarrow> [])"

definition vGet :: "url_values \<Rightarrow> string \<Rightarrow> string" where
  "vGet q k = (case vValues q k of v # _ \<Rightarrow> v | [] \<Rightarrow> [])"

definition vHas :: "url_values \<Rightarrow> string \<Rightarrow> bool" where
  "vHas q k \<longleftrightarrow> map_of q k \<noteq> None"

definition vAdd :: "string \<Rightarrow> string \<Rightarrow> url_values \<Rightarrow> url_values" where
  "vAdd k v q = AList.update k (vValues q k @ [v]) q"

definition vSet :: "string \<Rightarrow> string \<Rightarrow> url_values \<Rightarrow> url_values" where
  "vSet k v q = AList.update k [v] q"

lemma vGet_vSet [simp]: "vGet (vSet k v q) k' = (if k = k' then v else vGet q k')"
  by (simp add: vGet_def vValues_def vSet_def)

text \<open>\<open>strings.Cut(s, c)\<close> for a one-byte separator.\<close>

definition Cut :: "string \<Rightarrow> char \<Rightarrow> string \<times> string" where
  "Cut s c = (takeWhile (\<lambda>x. x \<noteq> c) s, tl (dropWhile (\<lambda>x. x \<noteq> c) s))"

text \<open>
  One pair of \<open>parseQuery\<close>: empty pairs, pairs with a semicolon and pairs whose key or value
  does not unescape are skipped; the error \<open>ParseQuery\<close> remembers for the latter is the flag.
\<close>

definition query_pair :: "string \<Rightarrow> url_values \<times> bool \<Rightarrow> url_values \<times> bool" where
  "query_pair p acc =
     (if CHR '';'' \<in> set p then (fst acc, True)
      else if p = [] then acc
      else let (k, v) = Cut p CHR ''='' in
        (case (QueryUnescape k, QueryUnescape v) of
           (Some k', Some v') \<Rightarrow> (vAdd k' v' (fst acc), snd acc)
         | _ \<Rightarrow> (fst acc, True)))"

definition parseQuery :: "string \<Rightarrow> url_values \<times> bool" where
  "parseQuery s = (if s = [] then ([], False) else fold query_pair (Split s ''&'') ([], False))"

text \<open>\<open>url.ParseQuery\<close>, and \<open>(*URL).Query\<close>, which ignores the error.\<close>

definition ParseQuery :: "string \<Rightarrow> url_values option" where
  "ParseQuery s = (let (q, bad) = parseQuery s in if bad then None else Some q)"

definition Query :: "string \<Rightarrow> url_values" where
  "Query s = fst (parseQuery s)"

subsection \<open>URLs\<close>

record url =
  uScheme :: string
  uHost :: string
  uPath :: string
  uRawPath :: string
  uRawQuery :: string

definition validEncoded :: "string \<Rightarrow> bool" where
  "validEncoded s \<longleftrightarrow>
     list_all (\<lambda>c. c \<in> set ''!$&()*+,;=:@[]%'' \<or> c = CHR 0x27 \<or> \<not> shouldEscape EncodePath c) s"

text \<open>\<open>(*URL).EscapedPath\<close>: the raw path when it is a valid encoding of the path.\<close>

definition EscapedPath :: "url \<Rightarrow> string" where
  "EscapedPath u =
     (if uRawPath u \<noteq> [] \<and> validEncoded (uRawPath u) \<and>
         unescape EncodePath (uRawPath u) = Some (uPath u) then uRawPath u
      else if uPath u = ''*'' then ''*''
      else escape EncodePath (uPath u))"

subsection \<open>Requests and responses\<close>

record request =
  qMethod :: string
  qURL :: url
  qHost :: string
  qHeader :: header
  qBody :: string
  qBodyErr :: "string option"       \<comment> \<open>the error after these bytes; otherwise the end\<close>
  qContentLength :: int             \<comment> \<open>-1 when unknown\<close>
  qTrailer :: header

text \<open>\<open>r.URL.Query()\<close>.\<close>

definition qQuery :: "request \<Rightarrow> url_values" where
  "qQuery r = Query (uRawQuery (qURL r))"

text \<open>A response; the body is text, or the value an XML document is written from.\<close>

record 'b response =
  rsStatus :: nat
  rsHeader :: header
  rsBody :: 'b

end
