(* ===== verification/Time.thy ===== *)
theory Time
  imports Prelude
begin

section \<open>Time stamps (Go's package time)\<close>

text \<open>
  A time is the number of nanoseconds since 1970-01-01T00:00:00Z, in UTC, on the proleptic Gregorian
  calendar.  The layouts the router uses are modelled: \<open>20060102\<close>, \<open>20060102T150405Z\<close>,
  RFC 3339 and the HTTP date, and parsing of the second of them.  Years before 0 are out of the model.
\<close>

definition leap :: "nat \<Rightarrow> bool" where
  "leap y \<longleftrightarrow> (4 dvd y \<and> \<not> 100 dvd y) \<or> 400 dvd y"

definition year_length :: "nat \<Rightarrow> nat" where
  "year_length y = (if leap y then 366 else 365)"

definition month_length :: "nat \<Rightarrow> nat \<Rightarrow> nat" where
  "month_length y m =
     (if m = 2 then (if leap y then 29 else 28)
      else if m = 4 \<or> m = 6 \<or> m = 9 \<or> m = 11 then 30 else 31)"

text \<open>Take whole years, then whole months, off a number of days.\<close>

fun split_year :: "nat \<Rightarrow> nat \<Rightarrow> nat \<times> nat" where
  "split_year y d =
     (if d < year_length y \<or> year_length y = 0 then (y, d) else split_year (Suc y) (d - year_length y))"

declare split_year.simps [simp del]

fun split_month :: "nat \<Rightarrow> nat list \<Rightarrow> nat \<Rightarrow> nat \<times> nat" where
  "split_month y [] d = (12, d)"
| "split_month y (m # ms) d =
     (if d < month_length y m then (m, d) else split_month y ms (d - month_length y m))"

definition epoch_day :: nat where "epoch_day = 719528"     \<comment> \<open>days from 0000-01-01 to 1970-01-01\<close>

definition cycle_days :: nat where "cycle_days = 146097"    \<comment> \<open>days in 400 years\<close>

definition civil :: "nat \<Rightarrow> nat \<times> nat \<times> nat" where
  "civil d =
     (let (y, r) = split_year 0 (d mod cycle_days); year = 400 * (d div cycle_days) + y;
          (m, dd) = split_month year [1..<13] r
      in (year, m, Suc dd))"

definition days_before_year :: "nat \<Rightarrow> nat" where
  "days_before_year y = y div 400 * cycle_days + sum_list (map year_length [0..<y mod 400])"

definition days_before_month :: "nat \<Rightarrow> nat \<Rightarrow> nat" where
  "days_before_month y m = sum_list (map (month_length y) [1..<m])"

definition day_number :: "nat \<Rightarrow> nat \<Rightarrow> nat \<Rightarrow> nat" where
  "day_number y m d = days_before_year y + days_before_month y m + (d - 1)"

type_synonym time = int

definition time_of :: "nat \<Rightarrow> nat \<Rightarrow> nat \<Rightarrow> nat \<Rightarrow> nat \<Rightarrow> nat \<Rightarrow> nat \<Rightarrow> time" where
  "time_of y mo d h mi s ns =
     ((int (day_number y mo d) - int epoch_day) * 86400 + int (h * 3600 + mi * 60 + s)) * 1000000000 + int ns"

text \<open>Seconds and day number of a time from year 0 on.\<close>

definition day_of :: "time \<Rightarrow> nat" where
  "day_of t = nat (t div 1000000000 div 86400 + int epoch_day)"

definition clock_of :: "time \<Rightarrow> nat" where
  "clock_of t = nat (t div 1000000000 mod 86400)"

definition two_digits :: "nat \<Rightarrow> string" where
  "two_digits n = [digit_char (n div 10 mod 10), digit_char (n mod 10)]"

definition four_digits :: "nat \<Rightarrow> string" where
  "four_digits n = [digit_char (n div 1000 mod 10), digit_char (n div 100 mod 10),
     digit_char (n div 10 mod 10), digit_char (n mod 10)]"

definition format_date :: "time \<Rightarrow> string" where
  "format_date t = (let (y, m, d) = civil (day_of t) in four_digits y @ two_digits m @ two_digits d)"

definition format_clock :: "time \<Rightarrow> string" where
  "format_clock t = (let c = clock_of t in two_digits (c div 3600) @ two_digits (c div 60 mod 60) @ two_digits (c mod 60))"

text \<open>The layout \<open>20060102T150405Z\<close>.\<close>

definition format_amz :: "time \<Rightarrow> string" where
  "format_amz t = format_date t @ ''T'' @ format_clock t @ ''Z''"

text \<open>\<open>time.RFC3339\<close> for a UTC time.\<close>

definition format_rfc3339 :: "time \<Rightarrow> string" where
  "format_rfc3339 t =
     (let (y, m, d) = civil (day_of t); c = clock_of t in
      four_digits y @ ''-'' @ two_digits m @ ''-'' @ two_digits d @ ''T'' @
      two_digits (c div 3600) @ '':'' @ two_digits (c div 60 mod 60) @ '':'' @ two_digits (c mod 60) @ ''Z'')"

definition weekdays :: "string list" where
  "weekdays = [''Sat'', ''Sun'', ''Mon'', ''Tue'', ''Wed'', ''Thu'', ''Fri'']"

definition months :: "string list" where
  "months = [''Jan'', ''Feb'', ''Mar'', ''Apr'', ''May'', ''Jun'', ''Jul'', ''Aug'', ''Sep'', ''Oct'', ''Nov'', ''Dec'']"

text \<open>\<open>http.TimeFormat\<close>; 0000-01-01 was a Saturday.\<close>

definition format_http :: "time \<Rightarrow> string" where
  "format_http t =
     (let (y, m, d) = civil (day_of t); c = clock_of t in
      weekdays ! (day_of t mod 7) @ '', '' @ two_digits d @ '' '' @ months ! (m - 1) @ '' '' @ four_digits y @ '' '' @
      two_digits (c div 3600) @ '':'' @ two_digits (c div 60 mod 60) @ '':'' @ two_digits (c mod 60) @ '' GMT'')"

text \<open>
  \<open>time.Parse("20060102T150405Z", s)\<close>: fixed-width fields in range, an optional fraction of a
  second (accepted by the library although the layout has none), a final \<open>Z\<close> and nothing more.
\<close>

definition digits_value :: "string \<Rightarrow> nat option" where
  "digits_value s = (if list_all is_digit s then parse_digits 10 0 s else None)"

definition parse_fraction :: "string \<Rightarrow> nat \<times> string" where
  "parse_fraction s =
     (if length s \<ge> 2 \<and> (hd s = CHR ''.'' \<or> hd s = CHR '','') \<and> is_digit (s ! 1) then
        (let ds = takeWhile is_digit (tl s); d9 = take 9 ds in
         (the (parse_digits 10 0 d9) * 10 ^ (9 - length d9), dropWhile is_digit (tl s)))
      else (0, s))"

definition parse_amz :: "string \<Rightarrow> time option" where
  "parse_amz s =
     (case (digits_value (take 4 s), digits_value (take 2 (drop 4 s)), digits_value (take 2 (drop 6 s)),
            digits_value (take 2 (drop 9 s)), digits_value (take 2 (drop 11 s)), digits_value (take 2 (drop 13 s))) of
        (Some y, Some mo, Some d, Some h, Some mi, Some sec) \<Rightarrow>
          (let (ns, r) = parse_fraction (drop 15 s) in
           if 15 \<le> length s \<and> s ! 8 = CHR ''T'' \<and> 1 \<le> mo \<and> mo \<le> 12 \<and> 1 \<le> d \<and> d \<le> month_length y mo \<and>
              h < 24 \<and> mi < 60 \<and> sec < 60 \<and> r = ''Z''
           then Some (time_of y mo d h mi sec ns) else None)
      | _ \<Rightarrow> None)"

text \<open>
  \<open>time.Parse(http.TimeFormat, s)\<close>.  Spaces of the layout match any number of spaces, names are
  compared without case, the hour may have one digit, and a fraction of a second is accepted.  The
  name of the day is not compared with the date.
\<close>

function skipText :: "string \<Rightarrow> string \<Rightarrow> string option" where
  "skipText s [] = Some s"
| "skipText s (p # ps) =
     (if p = CHR '' '' then
        (if s \<noteq> [] \<and> hd s \<noteq> CHR '' '' then None
         else skipText (dropWhile (\<lambda>c. c = CHR '' '') s) (dropWhile (\<lambda>c. c = CHR '' '') ps))
      else case s of
        [] \<Rightarrow> None
      | c # cs \<Rightarrow> if c = p then skipText cs ps else None)"
  by pat_completeness auto
termination by (relation "measure (\<lambda>(_, p). length p)") (auto simp: le_imp_less_Suc length_dropWhile_le)

definition getNum :: "bool \<Rightarrow> string \<Rightarrow> (nat \<times> string) option" where
  "getNum fixed s =
     (case s of
        [] \<Rightarrow> None
      | a # r \<Rightarrow>
          (if \<not> is_digit a then None
           else if r \<noteq> [] \<and> is_digit (hd r) then Some ((of_char a - 48) * 10 + (of_char (hd r) - 48), tl r)
           else if fixed then None
           else Some (of_char a - 48, r)))"

definition lookupName :: "string list \<Rightarrow> string \<Rightarrow> (nat \<times> string) option" where
  "lookupName names s =
     (case List.find (\<lambda>i. EqualFold (take 3 s) (names ! i)) [0..<length names] of
        Some i \<Rightarrow> Some (i, drop 3 s) | None \<Rightarrow> None)"

definition parse_http :: "string \<Rightarrow> time option" where
  "parse_http s =
     Option.bind (lookupName weekdays s) (\<lambda>(_, s).
     Option.bind (skipText s '', '') (\<lambda>s.
     Option.bind (getNum True s) (\<lambda>(d, s).
     Option.bind (skipText s '' '') (\<lambda>s.
     Option.bind (lookupName months s) (\<lambda>(mo, s).
     Option.bind (skipText s '' '') (\<lambda>s.
     Option.bind (if length s \<ge> 4 \<and> is_digit (hd s) then digits_value (take 4 s) else None) (\<lambda>y.
     Option.bind (skipText (drop 4 s) '' '') (\<lambda>s.
     Option.bind (getNum False s) (\<lambda>(h, s).
     Option.bind (skipText s '':'') (\<lambda>s.
     Option.bind (getNum True s) (\<lambda>(mi, s).
     Option.bind (skipText s '':'') (\<lambda>s.
     Option.bind (getNum True s) (\<lambda>(sec, s).
       let (ns, s) = parse_fraction s in
     Option.bind (skipText s '' GMT'') (\<lambda>s.
       if s = [] \<and> h < 24 \<and> mi < 60 \<and> sec < 60 \<and> 1 \<le> d \<and> d \<le> month_length y (Suc mo)
       then Some (time_of y (Suc mo) d h mi sec ns) else None))))))))))))))"

subsection \<open>Formatting and parsing\<close>

lemma digit_mod [simp]:
  "digit_value (digit_char (n mod 10)) = Some (n mod 10)" "is_digit (digit_char (n mod 10))"
proof -
  have "n mod 10 < 10" by simp
  then show "is_digit (digit_char (n mod 10))" by (rule digit_char_digit)
  have "n mod 10 < 36" using \<open>n mod 10 < 10\<close> by linarith
  then show "digit_value (digit_char (n mod 10)) = Some (n mod 10)" by (rule digit_value_digit_char)
qed

lemma parse_two [simp]:
  assumes "n < 100"
  shows "digits_value (two_digits n) = Some n"
proof -
  have "digits_value (two_digits n) = Some (10 * (n div 10 mod 10) + n mod 10)"
    by (simp add: digits_value_def two_digits_def)
  also have "n div 10 mod 10 = n div 10" using assms by simp
  finally show ?thesis by simp
qed

lemma parse_four [simp]:
  assumes "n < 10000"
  shows "digits_value (four_digits n) = Some n"
proof -
  have d: "n div 1000 mod 10 = n div 1000" using assms by simp
  have "n div 1000 = n div 100 div 10" "n div 100 = n div 10 div 10"
    by (simp_all add: div_mult2_eq [symmetric])
  then have e: "10 * (n div 1000) + n div 100 mod 10 = n div 100" "10 * (n div 100) + n div 10 mod 10 = n div 10"
    by simp_all
  have "digits_value (four_digits n) = Some (10 * (10 * (10 * (n div 1000 mod 10) + n div 100 mod 10) +
      n div 10 mod 10) + n mod 10)"
    by (simp add: digits_value_def four_digits_def del: mod_less)
  then show ?thesis by (simp only: d e) simp
qed

lemma length_digits [simp]: "length (two_digits n) = 2" "length (four_digits n) = 4"
  by (simp_all add: two_digits_def four_digits_def)

lemma year_length_pos [simp]: "0 < year_length y" "year_length y \<noteq> 0"
  by (simp_all add: year_length_def)

lemma leap_cycle [simp]: "leap (400 * c + y) = leap y"
proof -
  have "k dvd 400 * c + y \<longleftrightarrow> k dvd y" if "k dvd 400" for k :: nat
    by (rule dvd_add_right_iff) (rule dvd_mult2 [OF that])
  from this [of 4] this [of 100] this [of 400] show ?thesis by (simp add: leap_def)
qed

lemma month_length_cycle [simp]: "month_length (400 * c + y) m = month_length y m"
  by (simp add: month_length_def)

lemma split_year_sum:
  "split_year y d = (y', r) \<Longrightarrow> y \<le> y' \<and> d = sum_list (map year_length [y..<y']) + r \<and> r < year_length y'"
proof (induction y d rule: split_year.induct)
  case (1 y d)
  show ?case
  proof (cases "d < year_length y")
    case True
    with "1.prems" show ?thesis by (simp add: split_year.simps)
  next
    case False
    with "1.prems" have "split_year (Suc y) (d - year_length y) = (y', r)"
      by (subst (asm) split_year.simps) simp
    with 1 False have "Suc y \<le> y'" "d - year_length y = sum_list (map year_length [Suc y..<y']) + r" "r < year_length y'"
      by auto
    with False show ?thesis by (simp add: upt_conv_Cons)
  qed
qed

lemma cycle_sum: "sum_list (map year_length [0..<400]) = cycle_days"
  by code_simp

lemma split_year_cycle: "d < cycle_days \<Longrightarrow> split_year 0 d = (y, r) \<Longrightarrow> y < 400"
proof (rule ccontr)
  assume d: "d < cycle_days" and s: "split_year 0 d = (y, r)" and "\<not> y < 400"
  then have "[0..<y] = [0..<400] @ [400..<y]" by (metis le_add_diff_inverse linorder_not_less upt_add_eq_append zero_le)
  then have "cycle_days \<le> sum_list (map year_length [0..<y])" by (simp add: cycle_sum)
  with split_year_sum [OF s] d show False by linarith
qed

lemma split_month_sum:
  "split_month y [k..<13] d = (m, r) \<Longrightarrow> k \<le> 12 \<Longrightarrow> d < sum_list (map (month_length y) [k..<13]) \<Longrightarrow>
     k \<le> m \<and> m \<le> 12 \<and> d = sum_list (map (month_length y) [k..<m]) + r \<and> r < month_length y m"
proof (induction "13 - k" arbitrary: k d)
  case (Suc n)
  then have up: "[k..<13] = k # [Suc k..<13]" by (simp add: upt_rec)
  show ?case
  proof (cases "d < month_length y k")
    case True
    with Suc.prems up show ?thesis by auto
  next
    case False
    with Suc.prems up have s: "split_month y [Suc k..<13] (d - month_length y k) = (m, r)"
      and l: "d - month_length y k < sum_list (map (month_length y) [Suc k..<13])" by auto
    then have "Suc k \<le> 12" by (cases "Suc k \<le> 12") auto
    from Suc.hyps(1) [OF _ s this l] Suc.hyps(2) have "Suc k \<le> m" "m \<le> 12" "r < month_length y m"
      "d - month_length y k = sum_list (map (month_length y) [Suc k..<m]) + r" by auto
    with False show ?thesis by (simp add: upt_conv_Cons)
  qed
qed simp

lemma year_months: "sum_list (map (month_length y) [1..<13]) = year_length y"
proof -
  have "[1..<13] = [1, 2, 3, 4, 5, 6, 7, 8, 9, 10, 11, 12 :: nat]" by code_simp
  then show ?thesis by (simp add: month_length_def year_length_def)
qed

lemma civil_day:
  assumes "civil d = (y, m, dd)"
  shows "day_number y m dd = d \<and> 1 \<le> m \<and> m \<le> 12 \<and> 1 \<le> dd \<and> dd \<le> month_length y m"
proof -
  obtain y0 r where s: "split_year 0 (d mod cycle_days) = (y0, r)" by fastforce
  define c where "c = d div cycle_days"
  have y0: "y0 < 400" using split_year_cycle [OF _ s] by (simp add: cycle_days_def)
  from assms s have y: "y = 400 * c + y0" and sm: "split_month y [1..<13] r = (m, dd - 1)" "1 \<le> dd"
    by (auto simp: civil_def Let_def c_def split: prod.splits)
  have r: "d mod cycle_days = sum_list (map year_length [0..<y0]) + r" "r < year_length y0"
    using split_year_sum [OF s] by auto
  then have "r < sum_list (map (month_length y) [1..<13])" unfolding year_months by (simp add: y year_length_def)
  from split_month_sum [OF sm(1) _ this]
  have mm: "1 \<le> m" "m \<le> 12" "r = sum_list (map (month_length y) [1..<m]) + (dd - 1)" "dd - 1 < month_length y m"
    by auto
  have "days_before_year y = c * cycle_days + sum_list (map year_length [0..<y0])"
    using y0 by (simp add: days_before_year_def y)
  then have "day_number y m dd = c * cycle_days + d mod cycle_days"
    using r mm by (simp add: day_number_def days_before_month_def)
  then show ?thesis using mm sm(2) by (simp add: c_def)
qed

text \<open>Times of whole seconds between the years 0 and 9999 are read back as they were written.\<close>

definition printable :: "time \<Rightarrow> bool" where
  "printable t \<longleftrightarrow> t mod 1000000000 = 0 \<and> 0 \<le> t div 1000000000 div 86400 + int epoch_day \<and> fst (civil (day_of t)) < 10000"

lemma clock_split: "k div 3600 * 3600 + k div 60 mod 60 * 60 + k mod 60 = (k :: nat)"
proof -
  have "k div 3600 = k div 60 div 60" by (simp add: div_mult2_eq [symmetric])
  then have "k div 3600 * 60 + k div 60 mod 60 = k div 60" by simp
  then have "(k div 3600 * 60 + k div 60 mod 60) * 60 + k mod 60 = k" by simp
  then show ?thesis by (simp add: algebra_simps)
qed

lemma time_of_clock:
  "time_of y m d (k div 3600) (k div 60 mod 60) (k mod 60) 0
     = ((int (day_number y m d) - int epoch_day) * 86400 + int k) * 1000000000"
  unfolding time_of_def clock_split by simp

lemma parse_format_amz:
  assumes p: "printable t"
  shows "parse_amz (format_amz t) = Some t"
proof -
  obtain y m d where c: "civil (day_of t) = (y, m, d)" by (metis prod.exhaust)
  note dd = civil_day [OF c]
  have y: "y < 10000" using p c by (simp add: printable_def)
  define k where "k = clock_of t"
  have k: "k < 86400" by (simp add: k_def clock_of_def)
  have d31: "d < 100" using dd by (auto simp: month_length_def split: if_splits)
  have hms: "k div 3600 < 24" using k by (simp add: less_mult_imp_div_less)
  have fm: "format_amz t = four_digits y @ two_digits m @ two_digits d @ ''T'' @ two_digits (k div 3600) @
      two_digits (k div 60 mod 60) @ two_digits (k mod 60) @ ''Z''"
    by (simp add: format_amz_def format_date_def format_clock_def c k_def Let_def)
  define s where "s = format_amz t"
  have cuts: "take 4 s = four_digits y" "take 2 (drop 4 s) = two_digits m" "take 2 (drop 6 s) = two_digits d"
    "take 2 (drop 9 s) = two_digits (k div 3600)" "take 2 (drop 11 s) = two_digits (k div 60 mod 60)"
    "take 2 (drop 13 s) = two_digits (k mod 60)" "drop 15 s = ''Z''" "s ! 8 = CHR ''T''" "15 \<le> length s"
    by (simp_all add: s_def fm two_digits_def four_digits_def)
  have m60: "n mod 60 < 100" "n mod 60 < 60" for n :: nat
    using mod_less_divisor [of 60 n] by linarith+
  have vals: "digits_value (four_digits y) = Some y" "digits_value (two_digits m) = Some m"
    "digits_value (two_digits d) = Some d" "digits_value (two_digits (k div 3600)) = Some (k div 3600)"
    "digits_value (two_digits (k div 60 mod 60)) = Some (k div 60 mod 60)"
    "digits_value (two_digits (k mod 60)) = Some (k mod 60)"
    using y dd d31 hms m60 by simp_all
  have "parse_amz s = Some (time_of y m d (k div 3600) (k div 60 mod 60) (k mod 60) 0)"
    unfolding parse_amz_def cuts vals using cuts dd hms m60 by (simp add: parse_fraction_def)
  also have "\<dots> = Some (((int (day_of t) - int epoch_day) * 86400 + int k) * 1000000000)"
    using dd by (simp add: time_of_clock)
  also have "(int (day_of t) - int epoch_day) * 86400 + int k = t div 1000000000"
    using p by (simp add: day_of_def k_def clock_of_def printable_def)
  also have "t div 1000000000 * 1000000000 = t"
    using p div_mult_mod_eq [of t 1000000000] by (simp add: printable_def)
  finally show ?thesis by (simp add: s_def)
qed

lemma length_format_amz: "length (format_amz t) = 16"
  by (auto simp: format_amz_def format_date_def format_clock_def Let_def split: prod.splits)

lemma take8_format_amz: "take 8 (format_amz t) = format_date t"
  by (auto simp: format_amz_def format_date_def Let_def split: prod.splits)

end
