(* ===== verification/ConfigError.thy ===== *)
theory ConfigError
  imports Regex Template
begin

section \<open>Configuration errors and their locations\<close>

text \<open>
  \<open>internal/config/context.go\<close>, \<open>internal/config/error.go\<close> and
  \<open>internal/config/ir/reflect.go\<close>.  A \<open>Context\<close> is a location and a pointer to the error
  list shared by all contexts; here the location is an argument and the list is threaded through
  the population functions, which append to it and never stop at an error.  Go's \<open>append(c.loc, ..)\<close>
  may share a backing array between sibling contexts; as a location is copied when an error is
  recorded and siblings are used one after the other, a list that is extended by value behaves the
  same.
\<close>

subsection \<open>Locations\<close>

record field_or_index =
  Field :: string
  Key :: string
  Ind :: int

type_synonym path = "field_or_index list"

definition fieldStep :: "string \<Rightarrow> field_or_index" where
  "fieldStep f = \<lparr>Field = f, Key = [], Ind = 0\<rparr>"

definition Enter :: "path \<Rightarrow> string \<Rightarrow> path" where
  "Enter loc f = loc @ [fieldStep f]"

definition EnterKey :: "path \<Rightarrow> string \<Rightarrow> path" where
  "EnterKey loc k = loc @ [\<lparr>Field = [], Key = k, Ind = 0\<rparr>]"

definition EnterIndex :: "path \<Rightarrow> nat \<Rightarrow> path" where
  "EnterIndex loc i = loc @ [\<lparr>Field = [], Key = [], Ind = int i\<rparr>]"

fun AppendString_from :: "bool \<Rightarrow> path \<Rightarrow> string" where
  "AppendString_from first [] = []"
| "AppendString_from first (c # cs) =
     (if Field c \<noteq> [] then (if first then [] else ''.'') @ Field c
      else if Key c \<noteq> [] then ''['' @ Key c @ '']''
      else if Ind c \<ge> 0 then ''['' @ fmt_int (Ind c) @ '']''
      else ''???'') @ AppendString_from False cs"

definition AppendString :: "path \<Rightarrow> string" where
  "AppendString p = AppendString_from True p"

definition backslash :: char where "backslash = CHR 0x5C"
definition quote :: char where "quote = CHR 0x27"

text \<open>
  \<open>appendEscaped\<close> flushes the pending slice and writes a backslash at each quote or backslash;
  it then moves the start of the slice past that byte, which is therefore never written.
\<close>

function appendEscaped_from :: "nat \<Rightarrow> nat \<Rightarrow> string \<Rightarrow> string" where
  "appendEscaped_from s i v =
     (if i < length v then
        (if v ! i = backslash \<or> v ! i = quote
         then take (i - s) (drop s v) @ [backslash] @ appendEscaped_from (Suc i) (Suc i) v
         else appendEscaped_from s (Suc i) v)
      else if s < length v then drop s v else [])"
  by pat_completeness auto
termination
  by (relation "measure (\<lambda>(s, i, v). length v - i)") auto

declare appendEscaped_from.simps [simp del]

definition appendEscaped :: "string \<Rightarrow> string" where
  "appendEscaped v = appendEscaped_from 0 0 v"

fun AppendJSONPath_from :: "path \<Rightarrow> string" where
  "AppendJSONPath_from [] = []"
| "AppendJSONPath_from (c # cs) =
     (if Field c \<noteq> [] then ''.'' @ Field c
      else if Key c \<noteq> [] then ''['' @ [quote] @ appendEscaped (Key c) @ [quote] @ '']''
      else if Ind c \<ge> 0 then ''['' @ fmt_int (Ind c) @ '']''
      else ''???'') @ AppendJSONPath_from cs"

definition AppendJSONPath :: "path \<Rightarrow> string" where
  "AppendJSONPath p = CHR ''$'' # AppendJSONPath_from p"

subsection \<open>Translation to the names of the configuration file\<close>

text \<open>The part of \<open>reflect.Type\<close> the translation looks at; a field has a name and tag.\<close>

datatype gotype =
    TBasic
  | TString
  | TAny
  | TPtr gotype
  | TSlice gotype
  | TMap gotype gotype
  | TStruct "(string \<times> string option \<times> gotype) list"

fun struct_field :: "(string \<times> string option \<times> gotype) list \<Rightarrow> string \<Rightarrow> (string option \<times> gotype) option" where
  "struct_field [] f = None"
| "struct_field ((n, tag, t) # fs) f = (if n = f then Some (tag, t) else struct_field fs f)"

datatype translate_error =
    NoSuchField string
  | NoTag string
  | ExpectingStruct
  | ExpectingKeyedMap
  | ExpectingSlice
  | EmptyItem

text \<open>
  The element of type \<open>t\<close> a path component selects, with the component under its tag name.
  In the index branch the code evaluates \<open>t.Key()\<close> once \<open>t\<close> is known to be a slice;
  \<open>reflect.Type.Key\<close> panics on a type that is not a map.
\<close>

definition translateStep :: "gotype \<Rightarrow> field_or_index \<Rightarrow> translate_error fault + field_or_index \<times> gotype" where
  "translateStep t c =
     (if Field c \<noteq> [] then
        (case t of
           TStruct fs \<Rightarrow>
             (case struct_field fs (Field c) of
                None \<Rightarrow> Inl (Failed (NoSuchField (Field c)))
              | Some (None, _) \<Rightarrow> Inl (Failed (NoTag (Field c)))
              | Some (Some tv, t') \<Rightarrow> Inr (fieldStep (hd (Split tv '','')), t'))
         | TMap k e \<Rightarrow> if k = TString then Inr (c, e) else Inl (Failed ExpectingStruct)
         | _ \<Rightarrow> Inl (Failed ExpectingStruct))
      else if Key c \<noteq> [] then
        (case t of
           TMap k e \<Rightarrow> if k = TString \<or> k = TAny then Inr (c, e) else Inl (Failed ExpectingKeyedMap)
         | _ \<Rightarrow> Inl (Failed ExpectingKeyedMap))
      else if Ind c \<ge> 0 then
        (case t of
           TSlice e \<Rightarrow> Inl Panicked
         | _ \<Rightarrow> Inl (Failed ExpectingSlice))
      else Inl (Failed EmptyItem))"

fun TranslateToUnmappedPath :: "gotype \<Rightarrow> path \<Rightarrow> translate_error fault + path" where
  "TranslateToUnmappedPath t [] = Inr []"
| "TranslateToUnmappedPath t (c # cs) =
     rbind (translateStep t c) (\<lambda>(c', t'). rbind (TranslateToUnmappedPath t' cs) (\<lambda>r. Inr (c' # r)))"

subsection \<open>The type of the configuration file\<close>

text \<open>The types of \<open>internal/config/ir/model.go\<close>, with their \<open>mapstructure\<close> tags.\<close>

definition tField :: "string \<Rightarrow> string \<Rightarrow> gotype \<Rightarrow> string \<times> string option \<times> gotype" where
  "tField n tag t = (n, Some tag, t)"

definition tCredentialsAssumeRole :: gotype where
  "tCredentialsAssumeRole = TStruct
     [tField ''RoleARN'' ''role_arn'' TString,
      tField ''SessionName'' ''session_name,omitempty'' TString,
      tField ''Duration'' ''duration,omitempty'' TString]"

definition tCredentialsConfig :: gotype where
  "tCredentialsConfig = TStruct
     [tField ''Type'' ''type'' TString,
      tField ''Path'' ''path,omitempty'' TString,
      tField ''SecretName'' ''secret_name,omitempty'' TString,
      tField ''Region'' ''region,omitempty'' TString,
      tField ''AssumeRole'' ''assume_role,omitempty'' (TPtr tCredentialsAssumeRole),
      tField ''AccessKeyID'' ''access_key_id,omitempty'' TString,
      tField ''SecretAccessKey'' ''secret_access_key,omitempty'' TString,
      tField ''SessionToken'' ''session_token,omitempty'' TString]"

definition tBackendConfig :: gotype where
  "tBackendConfig = TStruct
     [tField ''Endpoint'' ''endpoint,omitempty'' TString,
      tField ''Region'' ''region,omitempty'' TString,
      tField ''Bucket'' ''bucket'' TString,
      tField ''Prefix'' ''prefix,omitempty'' TString,
      tField ''Timeout'' ''timeout,omitempty'' TString,
      tField ''Retries'' ''retries,omitempty'' TBasic,
      tField ''UsePathStyle'' ''use_path_style,omitempty'' TBasic,
      tField ''UseFIPS'' ''use_fips,omitempty'' TBasic,
      tField ''UseGlobalEndpoint'' ''use_global_endpoint,omitempty'' TBasic,
      tField ''UseDualStack'' ''use_dual_stack,omitempty'' TBasic,
      tField ''Accelerate'' ''accelerate,omitempty'' TBasic,
      tField ''Credentials'' ''credentials,omitempty'' (TPtr tCredentialsConfig)]"

definition tRewriteRule :: gotype where
  "tRewriteRule = TStruct
     [tField ''Pattern'' ''pattern,omitempty'' TString, tField ''Result'' ''result'' TString]"

definition tRouteConfig :: gotype where
  "tRouteConfig = TStruct
     [tField ''Path'' ''path'' TString, tField ''Backend'' ''backend'' TString,
      tField ''Rewrites'' ''rewrite,omitempty'' (TSlice tRewriteRule)]"

definition tBucketConfig :: gotype where
  "tBucketConfig = TStruct
     [tField ''Name'' ''name'' TString, tField ''Routes'' ''routes'' (TSlice tRouteConfig)]"

definition tServerConfig :: gotype where
  "tServerConfig = TStruct
     [tField ''ReadTimeout'' ''read_timeout,omitempty'' TAny,
      tField ''WriteTimeout'' ''write_timeout,omitempty'' TAny,
      tField ''IdleTimeout'' ''idle_timeout,omitempty'' TAny,
      tField ''MaxBodySize'' ''max_body_size,omitempty'' TAny,
      tField ''RouteCacheSize'' ''route_cache_size,omitempty'' TAny]"

definition tAuthConfig :: gotype where
  "tAuthConfig = TStruct
     [tField ''DefaultRegion'' ''default_region,omitempty'' TString,
      tField ''ClockSkewLeeway'' ''clock_skew_leeway,omitempty'' TString]"

definition tVirtualHostConfig :: gotype where
  "tVirtualHostConfig = TStruct [tField ''Hosts'' ''hosts,omitempty'' (TSlice TAny)]"

definition configType :: gotype where
  "configType = TStruct
     [tField ''Backends'' ''backends'' (TMap TString tBackendConfig),
      tField ''Buckets'' ''buckets'' (TMap TString tBucketConfig),
      tField ''Features'' ''features,omitempty'' (TMap TString TBasic),
      tField ''CredentialsStore'' ''credentials_store,omitempty'' TString,
      tField ''Server'' ''server,omitempty'' (TPtr tServerConfig),
      tField ''Auth'' ''auth,omitempty'' (TPtr tAuthConfig),
      tField ''VirtualHosts'' ''virtual_hosts,omitempty'' (TPtr tVirtualHostConfig)]"

lemmas config_types = configType_def tVirtualHostConfig_def tAuthConfig_def tServerConfig_def
  tBucketConfig_def tRouteConfig_def tRewriteRule_def tBackendConfig_def tCredentialsConfig_def
  tCredentialsAssumeRole_def tField_def

subsection \<open>Errors\<close>

text \<open>
  The message of an error: a format string with the values of its verbs, or an error wrapped under
  a prefix.
\<close>

datatype parse_error = EmptyValue | BadFormat | BadNumber | UnknownUnit | NegativeValue | BadType

datatype cfg_msg =
    Fmt string "string list"
  | RegexErr string re_error
  | TemplateErr string template_error
  | ValueErr string parse_error
  | StoreErr string

record cfg_error =
  err_loc :: path
  err_msg :: cfg_msg

definition AppendErr :: "path \<Rightarrow> cfg_msg \<Rightarrow> cfg_error list \<Rightarrow> cfg_error list" where
  "AppendErr loc m errs = errs @ [\<lparr>err_loc = loc, err_msg = m\<rparr>]"

text \<open>
  \<open>(*Error).Error()\<close>: the JSON path under the file's names, or the plain path when it cannot be
  translated; a panic of the translation is not recovered.  The text of the message itself is the
  argument \<open>msg_text\<close>.
\<close>

definition cfgErrorText :: "(cfg_msg \<Rightarrow> string) \<Rightarrow> cfg_error \<Rightarrow> unit fault + string" where
  "cfgErrorText msg_text e =
     (case TranslateToUnmappedPath configType (err_loc e) of
        Inr p \<Rightarrow> Inr (AppendJSONPath p @ '': '' @ msg_text (err_msg e))
      | Inl (Failed _) \<Rightarrow> Inr (AppendString (err_loc e) @ '': '' @ msg_text (err_msg e))
      | Inl Panicked \<Rightarrow> Inl Panicked)"

definition cfgErrorsText :: "(cfg_msg \<Rightarrow> string) \<Rightarrow> cfg_error list \<Rightarrow> unit fault + string" where
  "cfgErrorsText msg_text es =
     rbind (rmapM (cfgErrorText msg_text) es) (\<lambda>ts. Inr (Join ts '' / ''))"

subsection \<open>Properties\<close>

lemma appendEscaped_from_eq:
  "s \<le> i \<Longrightarrow> i \<le> length v \<Longrightarrow>
     appendEscaped_from s i v =
       take (i - s) (drop s v) @ map (\<lambda>c. if c = quote then backslash else c) (drop i v)"
proof (induction s i v rule: appendEscaped_from.induct)
  case (1 s i v)
  show ?case
  proof (cases "i < length v")
    case True
    then have d: "drop i v = v ! i # drop (Suc i) v" by (rule Cons_nth_drop_Suc [symmetric])
    have t: "take (Suc i - s) (drop s v) = take (i - s) (drop s v) @ [v ! i]"
      using 1(3) True by (simp add: Suc_diff_le take_Suc_conv_app_nth)
    show ?thesis
      using 1 True by (subst appendEscaped_from.simps) (auto simp: d t)
  next
    case False
    with 1 show ?thesis by (subst appendEscaped_from.simps) auto
  qed
qed

text \<open>
  A key quoted in a JSON path keeps its length: a backslash stays one backslash and a quote
  is replaced by a backslash instead of being preceded by one.  So no quote inside a key ends the
  quotation early, but keys that differ in these two characters only have the same quotation.
\<close>

theorem append_escaped_text:
  "appendEscaped v = map (\<lambda>c. if c = quote then backslash else c) v \<and> quote \<notin> set (appendEscaped v)"
  using appendEscaped_from_eq [of 0 0 v] by (auto simp: appendEscaped_def quote_def backslash_def)

lemma translate_no_index:
  "(\<forall>c \<in> set p. Field c \<noteq> [] \<or> Key c \<noteq> []) \<Longrightarrow> TranslateToUnmappedPath t p \<noteq> Inl Panicked"
proof (induction p arbitrary: t)
  case (Cons c cs)
  then have "translateStep t c \<noteq> Inl Panicked"
    by (auto simp: translateStep_def split: gotype.splits option.splits)
  with Cons show ?case by (cases "translateStep t c") (auto split: prod.splits elim!: rbind.elims)
qed simp

text \<open>
  C32: \<open>Error()\<close> returns for a location without list indices, and panics for every error
  recorded inside a route of a bucket: the location translation asks the slice type of
  \<open>Routes\<close> for its map key type.
\<close>

theorem route_error_panics:
  assumes "b \<noteq> []" "\<forall>c \<in> set p. Field c \<noteq> [] \<or> Key c \<noteq> []"
  shows "cfgErrorText msg_text
       \<lparr>err_loc = EnterIndex (Enter (EnterKey (Enter [] ''Buckets'') b) ''Routes'') i @ below, err_msg = m\<rparr>
     = Inl Panicked \<and>
     cfgErrorText msg_text \<lparr>err_loc = p, err_msg = m\<rparr> \<noteq> Inl Panicked"
  using assms translate_no_index [of p configType]
  by (auto simp: cfgErrorText_def Enter_def EnterKey_def EnterIndex_def fieldStep_def
      translateStep_def config_types Split_byte split: sum.splits fault.splits)

theorem route_error_panics_witness:
  "cfgErrorText (\<lambda>_. [])
     \<lparr>err_loc = EnterIndex (Enter (EnterKey (Enter [] ''Buckets'') ''media'') ''Routes'') 0 @ [fieldStep ''Path''],
       err_msg = Fmt ''path is required'' []\<rparr> = Inl Panicked \<and>
   cfgErrorText (\<lambda>_. []) \<lparr>err_loc = [fieldStep ''Buckets''], err_msg = Fmt ''path is required'' []\<rparr>
     \<noteq> Inl Panicked"
  using route_error_panics [of "''media''" "[fieldStep ''Buckets'']" "\<lambda>_. []" 0 "[fieldStep ''Path'']"
      "Fmt ''path is required'' []"]
  by (simp add: fieldStep_def)

end
