(* ===== verification/ParseValue.thy ===== *)
theory ParseValue
  imports ConfigError
begin

section \<open>Sizes, counts and durations of the configuration\<close>

text \<open>
  \<open>internal/config/parse.go\<close>.  The functions take a Go \<open>any\<close> holding what the configuration
  file had: nothing, an \<open>int\<close>, an \<open>int64\<close>, a \<open>float64\<close>, a string or something else.
  Integers are mathematical integers kept in the range of \<open>int64\<close> by \<open>wrap64\<close> where Go would
  wrap around.  A finite \<open>float64\<close> is the exact fraction it denotes; \<open>round53\<close> rounds a
  fraction to 53 significant bits, to nearest and ties to even, as the parsing and the
  multiplication of floats do (subnormal numbers, which all truncate to 0 here, are not rounded
  further).  Converting a float outside the range of \<open>int64\<close> gives the value amd64 gives.
\<close>

subsection \<open>Machine integers and floats\<close>

definition wrap64 :: "int \<Rightarrow> int" where
  "wrap64 i = (i + 2 ^ 63) mod 2 ^ 64 - 2 ^ 63"

lemma wrap64_id: "- (2 ^ 63) \<le> i \<Longrightarrow> i < 2 ^ 63 \<Longrightarrow> wrap64 i = i"
  by (simp add: wrap64_def)

fun ilog2 :: "nat \<Rightarrow> nat" where
  "ilog2 n = (if n < 2 then 0 else Suc (ilog2 (n div 2)))"

declare ilog2.simps [simp del]

definition scaled :: "nat \<times> nat \<Rightarrow> int \<Rightarrow> nat \<times> nat" where
  "scaled f k = (if k \<ge> 0 then (fst f * 2 ^ nat k, snd f) else (fst f, snd f * 2 ^ nat (- k)))"

definition round53 :: "nat \<times> nat \<Rightarrow> nat \<times> nat" where
  "round53 f =
     (if fst f = 0 then (0, 1)
      else
        let k0 = 52 - (int (ilog2 (fst f)) - int (ilog2 (snd f)));
            k = (if fst (scaled f k0) < 2 ^ 52 * snd (scaled f k0) then k0 + 1 else k0);
            (p, q) = scaled f k;
            m = p div q; r = p mod q;
            m' = (if 2 * r > q \<or> (2 * r = q \<and> odd m) then m + 1 else m)
        in scaled (m', 1) (- k))"

datatype gofloat = Finite bool "nat \<times> nat" | Infinite bool | NaN     \<comment> \<open>sign, magnitude\<close>

definition float_neg :: "gofloat \<Rightarrow> bool" where
  "float_neg x = (case x of Finite s f \<Rightarrow> s \<and> fst f \<noteq> 0 | Infinite s \<Rightarrow> s | NaN \<Rightarrow> False)"

definition float_to_int :: "gofloat \<Rightarrow> int" where
  "float_to_int x =
     (case x of
        Finite s f \<Rightarrow>
          (let t = (if s then - int (fst f div snd f) else int (fst f div snd f))
           in if - (2 ^ 63) \<le> t \<and> t < 2 ^ 63 then t else - (2 ^ 63))
      | _ \<Rightarrow> - (2 ^ 63))"

datatype goany = ANil | AInt int | AInt64 int | AFloat gofloat | AString string | AOther

lemma float_to_int_range: "- (2 ^ 63) \<le> float_to_int x \<and> float_to_int x < 2 ^ 63"
  by (auto simp: float_to_int_def Let_def split: gofloat.splits)

subsection \<open>Numbers with units\<close>

text \<open>
  \<open>strconv.ParseFloat\<close> on text of the form \<open>digits[.digits]\<close>, the only form the pattern lets
  through; \<^const>\<open>None\<close> when the value exceeds the range of \<open>float64\<close>.
\<close>

definition ParseFloat :: "string \<Rightarrow> (nat \<times> nat) option" where
  "ParseFloat s =
     (let a = takeWhile is_digit s; b = drop (Suc (length a)) s in
      case (parse_digits 10 0 a, parse_digits 10 0 b) of
        (Some i, Some f) \<Rightarrow>
          (let r = round53 (i * 10 ^ length b + f, 10 ^ length b)
           in if fst r \<ge> 2 ^ 1024 * snd r then None else Some r)
      | _ \<Rightarrow> None)"

definition number_pattern :: string where
  "number_pattern = ''^('' @ [backslash] @ ''d+(?:'' @ [backslash] @ ''.'' @ [backslash] @ ''d+)?)''
     @ [backslash] @ ''s*([a-zA-Z]*)$''"

text \<open>\<open>FindStringSubmatch\<close>: the matched pieces, a group that took no part being empty.\<close>

definition FindStringSubmatch :: "regexp \<Rightarrow> string \<Rightarrow> string list" where
  "FindStringSubmatch re s =
     (case FindStringSubmatchIndex re s of
        None \<Rightarrow> []
      | Some ms \<Rightarrow> map (\<lambda>m. case m of Some (a, b) \<Rightarrow> take (b - a) (drop a s) | None \<Rightarrow> []) ms)"

definition number_matches :: "string \<Rightarrow> string list" where
  "number_matches s =
     (case Compile number_pattern of Inr re \<Rightarrow> FindStringSubmatch re s | Inl _ \<Rightarrow> [])"

definition size_multiplier :: "string \<Rightarrow> nat option" where
  "size_multiplier unit =
     (if unit = [] \<or> unit = ''B'' then Some 1
      else if unit = ''KB'' \<or> unit = ''KIB'' then Some 1024
      else if unit = ''MB'' \<or> unit = ''MIB'' then Some (1024 * 1024)
      else if unit = ''GB'' \<or> unit = ''GIB'' then Some (1024 * 1024 * 1024)
      else None)"

definition parseBytes :: "goany \<Rightarrow> parse_error + int" where
  "parseBytes value =
     (case value of
        AInt v \<Rightarrow> Inr v
      | AInt64 v \<Rightarrow> Inr v
      | AFloat v \<Rightarrow> Inr (float_to_int v)
      | AString v \<Rightarrow>
          (if v = [] then Inl EmptyValue
           else case ParseInt v 10 of
             Some num \<Rightarrow> Inr num
           | None \<Rightarrow>
               (case number_matches (TrimSpace v) of
                  [_, numStr, u] \<Rightarrow>
                    (case ParseFloat numStr of
                       None \<Rightarrow> Inl BadNumber
                     | Some num \<Rightarrow>
                         (case size_multiplier (ToUpper u) of
                            None \<Rightarrow> Inl UnknownUnit
                          | Some m \<Rightarrow>
                              (let result = float_to_int (Finite False (round53 (fst num * m, snd num)))
                               in if result < 0 then Inl NegativeValue else Inr result)))
                | _ \<Rightarrow> Inl BadFormat))
      | _ \<Rightarrow> Inl BadType)"

definition count_multiplier :: "string \<Rightarrow> nat option" where
  "count_multiplier unit =
     (if unit = [] then Some 1 else if unit = ''k'' then Some 1000
      else if unit = ''m'' then Some 1000000 else None)"

definition parseCount :: "goany \<Rightarrow> parse_error + int" where
  "parseCount value =
     (case value of
        AInt v \<Rightarrow> (if v < 0 then Inl NegativeValue else Inr v)
      | AFloat v \<Rightarrow> (if float_neg v then Inl NegativeValue else Inr (float_to_int v))
      | AString v \<Rightarrow>
          (if v = [] then Inl EmptyValue
           else case ParseInt v 10 of
             Some num \<Rightarrow> (if num < 0 then Inl NegativeValue else Inr num)
           | None \<Rightarrow>
               (case number_matches (TrimSpace v) of
                  [_, numStr, u] \<Rightarrow>
                    (case ParseFloat numStr of
                       None \<Rightarrow> Inl BadNumber
                     | Some num \<Rightarrow>
                         (case count_multiplier (ToLower u) of
                            None \<Rightarrow> Inl UnknownUnit
                          | Some m \<Rightarrow>
                              (let result = float_to_int (Finite False (round53 (fst num * m, snd num)))
                               in if result < 0 then Inl NegativeValue else Inr result)))
                | _ \<Rightarrow> Inl BadFormat))
      | _ \<Rightarrow> Inl BadType)"

subsection \<open>Durations (Go's time.ParseDuration)\<close>

text \<open>A duration is a number of nanoseconds in the range of \<open>int64\<close>.\<close>

definition Second :: int where "Second = 1000000000"

fun leadingInt :: "nat \<Rightarrow> string \<Rightarrow> (nat \<times> string) option" where
  "leadingInt x [] = Some (x, [])"
| "leadingInt x (c # s) =
     (if \<not> is_digit c then Some (x, c # s)
      else if x > 2 ^ 63 div 10 then None
      else let x' = x * 10 + (of_char c - 48) in if x' > 2 ^ 63 then None else leadingInt x' s)"

text \<open>\<open>leadingFraction\<close>: digits past the precision of \<open>int64\<close> are dropped, never an error.\<close>

fun leadingFraction :: "nat \<Rightarrow> nat \<Rightarrow> bool \<Rightarrow> string \<Rightarrow> nat \<times> nat \<times> string" where
  "leadingFraction x scale overflow [] = (x, scale, [])"
| "leadingFraction x scale overflow (c # s) =
     (if \<not> is_digit c then (x, scale, c # s)
      else if overflow then leadingFraction x scale True s
      else if x > (2 ^ 63 - 1) div 10 then leadingFraction x scale True s
      else let y = x * 10 + (of_char c - 48) in
        if y > 2 ^ 63 then leadingFraction x scale True s
        else leadingFraction y (scale * 10) False s)"

definition unitMap :: "string \<Rightarrow> nat option" where
  "unitMap u =
     map_of [(''ns'', 1), (''us'', 1000), ([CHR 0xC2, CHR 0xB5, CHR ''s''], 1000),
       ([CHR 0xCE, CHR 0xBC, CHR ''s''], 1000), (''ms'', 1000000), (''s'', 1000000000),
       (''m'', 60000000000), (''h'', 3600000000000)] u"

definition unit_char :: "char \<Rightarrow> bool" where
  "unit_char c \<longleftrightarrow> c \<noteq> CHR ''.'' \<and> \<not> is_digit c"

text \<open>One \<open>number unit\<close> group: its nanoseconds and the text after it.\<close>

definition duration_group :: "string \<Rightarrow> (nat \<times> string) option" where
  "duration_group s =
     (if \<not> (hd s = CHR ''.'' \<or> is_digit (hd s)) then None
      else case leadingInt 0 s of
        None \<Rightarrow> None
      | Some (v, s1) \<Rightarrow>
          (let dot = (s1 \<noteq> [] \<and> hd s1 = CHR ''.'');
               (f, scale, s2) = (if dot then leadingFraction 0 1 False (tl s1) else (0, 1, s1));
               pre = (length s1 \<noteq> length s);
               post = (dot \<and> length s2 \<noteq> length s1 - 1);
               u = takeWhile unit_char s2; s3 = dropWhile unit_char s2 in
           if \<not> pre \<and> \<not> post then None
           else if u = [] then None
           else case unitMap u of
             None \<Rightarrow> None
           | Some unit \<Rightarrow>
               (if v > 2 ^ 63 div unit then None
                else
                  let frac = (if f = 0 then 0
                        else let ff = round53 (f, 1); su = round53 (unit, scale);
                                 p = round53 (fst ff * fst su, snd ff * snd su)
                             in fst p div snd p);
                      v' = v * unit + frac
                  in if v' > 2 ^ 63 then None else Some (v', s3))))"

lemma leadingInt_length: "leadingInt x s = Some (v, r) \<Longrightarrow> length r \<le> length s"
  by (induction x s rule: leadingInt.induct) (auto simp: Let_def split: if_splits)

lemma leadingFraction_length: "leadingFraction x k b s = (f, k', r) \<Longrightarrow> length r \<le> length s"
  by (induction s arbitrary: x k b) (auto simp: Let_def split: if_splits intro: le_SucI)

lemma duration_group_shorter:
  assumes "duration_group s = Some (v, r)"
  shows "length r < length s"
proof -
  from assms obtain x s1 where s1: "leadingInt 0 s = Some (x, s1)"
    by (auto simp: duration_group_def split: if_splits option.splits)
  define dot where "dot = (s1 \<noteq> [] \<and> hd s1 = CHR ''.'')"
  obtain f k s2 where s2: "(if dot then leadingFraction 0 1 False (tl s1) else (0, 1, s1)) = (f, k, s2)"
    by (metis prod.exhaust)
  have "length s1 \<le> length s" using s1 by (rule leadingInt_length)
  moreover have "length s2 \<le> length s1"
    using s2 leadingFraction_length [of 0 1 False "tl s1" f k s2] by (auto split: if_splits)
  moreover have "takeWhile unit_char s2 \<noteq> []" and "r = dropWhile unit_char s2"
    using assms s1 s2
    by (auto simp: duration_group_def Let_def dot_def split: if_splits option.splits prod.splits)
  moreover have "length (takeWhile unit_char s2) + length (dropWhile unit_char s2) = length s2"
    by (metis length_append takeWhile_dropWhile_id)
  ultimately show ?thesis by (cases "takeWhile unit_char s2") auto
qed

text \<open>The groups one after the other.\<close>

function duration_groups :: "nat \<Rightarrow> string \<Rightarrow> nat option" where
  "duration_groups d s =
     (if s = [] then Some d
      else case duration_group s of
        None \<Rightarrow> None
      | Some (v, s') \<Rightarrow> if d + v > 2 ^ 63 then None else duration_groups (d + v) s')"
  by pat_completeness auto
termination
  by (relation "measure (\<lambda>(d, s). length s)") (auto dest: duration_group_shorter)

declare duration_groups.simps [simp del]

definition ParseDuration :: "string \<Rightarrow> int option" where
  "ParseDuration s =
     (let neg = (s \<noteq> [] \<and> hd s = CHR ''-'');
          t = (if s \<noteq> [] \<and> (hd s = CHR ''-'' \<or> hd s = CHR ''+'') then tl s else s) in
      if t = ''0'' then Some 0
      else if t = [] then None
      else case duration_groups 0 t of
        None \<Rightarrow> None
      | Some d \<Rightarrow>
          (if neg then Some (- int d)
           else if d > 2 ^ 63 - 1 then None else Some (int d)))"

definition parseDuration :: "goany \<Rightarrow> parse_error + int" where
  "parseDuration value =
     (case value of
        AInt v \<Rightarrow> (if v < 0 then Inl NegativeValue else Inr (wrap64 (v * Second)))
      | AInt64 v \<Rightarrow> (if v < 0 then Inl NegativeValue else Inr (wrap64 (v * Second)))
      | AFloat v \<Rightarrow>
          (if float_neg v then Inl NegativeValue else Inr (wrap64 (float_to_int v * Second)))
      | AString v \<Rightarrow>
          (if v = [] then Inl EmptyValue
           else let t = TrimSpace v in
             (case ParseInt t 10 of
                Some num \<Rightarrow>
                  (if num < 0 then Inl NegativeValue else Inr (wrap64 (num * Second)))
              | None \<Rightarrow>
                  (case ParseDuration t of
                     None \<Rightarrow> Inl BadFormat
                   | Some dur \<Rightarrow> if dur < 0 then Inl NegativeValue else Inr dur)))
      | _ \<Rightarrow> Inl BadType)"

subsection \<open>Properties\<close>

lemma fmt_d_digits: "c \<in> set (fmt_d n) \<Longrightarrow> is_digit c"
  using set_digits_base [of 10 c n] digit_char_digit by (auto simp: fmt_d_def)

lemma fmt_d_nonempty [simp]: "fmt_d n \<noteq> []"
  by (simp add: fmt_d_def)

lemma fmt_d_hd: "is_digit (hd (fmt_d n))"
  by (rule fmt_d_digits [of _ n]) simp

lemma digit_value_digit: "is_digit c \<Longrightarrow> digit_value c = Some (of_char c - 48) \<and> of_char c - 48 < (10::nat)"
  by (auto simp: digit_value_def is_digit_def less_eq_char_def)

lemma parse_digits_ge: "parse_digits 10 x s = Some n \<Longrightarrow> x \<le> n"
proof (induction s arbitrary: x)
  case (Cons c s)
  then obtain d where "parse_digits 10 (10 * x + d) s = Some n"
    by (auto split: option.splits if_splits)
  then have "10 * x + d \<le> n" by (rule Cons.IH)
  then show ?case by simp
qed simp

text \<open>\<open>leadingInt\<close> reads what \<open>parse_digits\<close> reads as long as the value fits.\<close>

lemma leadingInt_digits:
  "parse_digits 10 x ds = Some n \<Longrightarrow> n \<le> 2 ^ 63 \<Longrightarrow> \<forall>c \<in> set ds. is_digit c \<Longrightarrow>
     r = [] \<or> \<not> is_digit (hd r) \<Longrightarrow> leadingInt x (ds @ r) = Some (n, r)"
proof (induction ds arbitrary: x)
  case Nil
  then show ?case by (cases r) auto
next
  case (Cons c ds)
  then have d: "digit_value c = Some (of_char c - 48)" "of_char c - 48 < (10::nat)" "is_digit c"
    using digit_value_digit by auto
  with Cons.prems have p: "parse_digits 10 (10 * x + (of_char c - 48)) ds = Some n" by simp
  then have "10 * x + (of_char c - 48) \<le> 2 ^ 63"
    using parse_digits_ge Cons.prems(2) le_trans by blast
  moreover from this have "x \<le> 2 ^ 63 div 10" by simp
  moreover have "leadingInt (10 * x + (of_char c - 48)) (ds @ r) = Some (n, r)"
    using Cons p by simp
  ultimately show ?case using d(3) by (simp add: Let_def mult.commute)
qed

lemma parse_digits_nondigit:
  "\<forall>d. digit_value c = Some d \<longrightarrow> 10 \<le> d \<Longrightarrow> parse_digits 10 x (ds @ c # r) = None"
  by (induction ds arbitrary: x) (auto split: option.splits)

lemma unit_text:
  assumes "unitMap u = Some k"
  shows "u \<noteq> []" "\<forall>c \<in> set u. unit_char c \<and> \<not> is_space c" "0 < k"
    "\<forall>d. digit_value (hd u) = Some d \<longrightarrow> 10 \<le> d"
  using assms
  by (auto simp: unitMap_def unit_char_def is_digit_def is_space_def digit_value_def
      less_eq_char_def split: if_splits)

lemma digit_not_space: "is_digit c \<Longrightarrow> \<not> is_space c"
  by (auto simp: is_digit_def is_space_def less_eq_char_def)

lemma ParseDuration_unit:
  assumes u: "unitMap u = Some k" and fits: "n * k < 2 ^ 63"
  shows "ParseDuration (fmt_d n @ u) = Some (int (n * k))"
proof -
  note d = fmt_d_hd [of n]
  have pn: "parse_digits 10 0 (fmt_d n) = Some n" by (simp add: fmt_d_def parse_digits_fmt)
  have n: "n \<le> 2 ^ 63 div k"
    using fits unit_text(3) [OF u] by (metis less_imp_le_nat div_le_mono nonzero_mult_div_cancel_right
        not_gr_zero)
  then have "n \<le> 2 ^ 63" using div_le_dividend le_trans by blast
  then have li: "leadingInt 0 (fmt_d n @ u) = Some (n, u)"
    using leadingInt_digits [OF pn] fmt_d_digits unit_text [OF u] by (auto simp: unit_char_def)
  have tw: "takeWhile unit_char u = u" "dropWhile unit_char u = []"
    using unit_text(2) [OF u] by auto
  have nd: "hd u \<noteq> CHR ''.''" using unit_text [OF u] by (auto simp: unit_char_def)
  have g: "duration_group (fmt_d n @ u) = Some (n * k, [])"
    using li d nd u n fits unit_text(1) [OF u] unfolding duration_group_def
    by (simp add: Let_def tw del: takeWhile_eq_all_conv)
  then have gs: "duration_groups 0 (fmt_d n @ u) = Some (n * k)"
    using fits by (subst duration_groups.simps) (simp, subst duration_groups.simps, simp)
  have "fmt_d n @ u \<noteq> ''0''"
    using unit_text [OF u] fmt_d_nonempty [of n] by (cases "fmt_d n"; cases u) (auto simp del: fmt_d_nonempty)
  moreover have "hd (fmt_d n) \<noteq> CHR ''-''" "hd (fmt_d n) \<noteq> CHR ''+''"
    using d by (auto simp: is_digit_def less_eq_char_def)
  ultimately show ?thesis using gs fits by (simp add: ParseDuration_def Let_def)
qed

lemma TrimSpace_number:
  "unitMap u = Some k \<Longrightarrow> TrimSpace (fmt_d n @ u) = fmt_d n @ u"
  using fmt_d_digits digit_not_space unit_text(2) by (intro TrimSpace_id) auto

text \<open>
  C37: durations written as a whole number with any of the units of Go, or as a bare number of
  seconds, are read back exactly as long as they fit in 63 bits of nanoseconds.
\<close>

theorem parse_duration_text:
  assumes "unitMap u = Some k" "n * k < 2 ^ 63" "int m * Second < 2 ^ 63"
  shows "parseDuration (AString (fmt_d n @ u)) = Inr (int (n * k)) \<and>
         parseDuration (AString (fmt_d m)) = Inr (int m * Second)"
proof
  have pd: "parse_digits 10 0 (fmt_d n @ u) = None"
    using parse_digits_nondigit [OF unit_text(4) [OF assms(1)], of 0 "fmt_d n" "tl u"]
      unit_text(1) [OF assms(1)] by simp
  have "hd (fmt_d n) \<noteq> CHR ''-''" "hd (fmt_d n) \<noteq> CHR ''+''"
    using fmt_d_hd [of n] by (auto simp: is_digit_def less_eq_char_def)
  with pd have "ParseInt (fmt_d n @ u) 10 = None" by (simp add: ParseInt_def)
  then show "parseDuration (AString (fmt_d n @ u)) = Inr (int (n * k))"
    using assms(1) ParseDuration_unit [OF assms(1,2)]
    by (simp add: parseDuration_def TrimSpace_number flip: of_nat_mult)
next
  have "TrimSpace (fmt_d m) = fmt_d m"
    using fmt_d_digits digit_not_space by (intro TrimSpace_id) blast
  moreover have "m < 2 ^ 63" using assms(3) by (simp add: Second_def)
  then have "ParseInt (fmt_d m) 10 = Some (int m)"
    using ParseInt_fmt [of 10 m] by (simp add: fmt_d_def)
  ultimately show "parseDuration (AString (fmt_d m)) = Inr (int m * Second)"
    using assms(3) wrap64_id [of "int m * Second"] by (simp add: parseDuration_def Second_def)
qed

theorem parse_duration_text_witness:
  "parseDuration (AString (fmt_d 90 @ ''m'')) = Inr (int (90 * 60000000000)) \<and>
   parseDuration (AString (fmt_d 900)) = Inr (int 900 * Second)"
  by (rule parse_duration_text) (simp_all add: unitMap_def Second_def)

text \<open>Every result stays in the range of the Go type, and counts are never negative.\<close>

lemma parseCount_string_range: "parseCount (AString s) = Inr n \<Longrightarrow> 0 \<le> n \<and> n < 2 ^ 63"
  using float_to_int_range
  by (auto simp: parseCount_def ParseInt_def Let_def split: if_splits option.splits list.splits)

end
