(* ===== verification/VirtualHost.thy ===== *)
theory VirtualHost
  imports ConfigError
begin

section \<open>Virtual hosts\<close>

text \<open>
  \<open>internal/config/virtual_host.go\<close>: host patterns of the configuration, their order of
  specificity, and the mapping of a request's host to a bucket.  The function value a Go \<open>Host\<close>
  carries is one of four functions, or nil when an entry was rejected; calling nil panics.
\<close>

subsection \<open>Hosts\<close>

datatype extractor = NilFunc | NeverMatch | SubdomainExtractor | WildcardExtractor | ExactExtractor

record host =
  Suffix :: string
  Port :: string
  BucketName :: string
  extractorFunc :: extractor

definition emptyHost :: host where
  "emptyHost = \<lparr>Suffix = [], Port = [], BucketName = [], extractorFunc = NilFunc\<rparr>"

definition isRFC1034Label :: "char \<Rightarrow> bool" where
  "isRFC1034Label r \<longleftrightarrow> is_lower r \<or> is_upper r \<or> is_digit r \<or> r = CHR ''-''"

text \<open>The loop of \<open>validateHostName\<close>; the flag says that the current label is still empty.\<close>

fun validate_from :: "bool \<Rightarrow> string \<Rightarrow> bool" where
  "validate_from fresh [] = True"
| "validate_from fresh (c # v) =
     (if c = CHR ''.'' then (if fresh then False else validate_from True v)
      else if \<not> isRFC1034Label c then False
      else validate_from False v)"

definition validateHostName :: "string \<Rightarrow> bool" where
  "validateHostName v = validate_from True v"

definition maybeSplitHostAndPort :: "string \<Rightarrow> string + string \<times> string" where
  "maybeSplitHostAndPort v =
     (case IndexByte v CHR '':'' of
        None \<Rightarrow> Inr (v, [])
      | Some i \<Rightarrow>
          (if i = 0 then Inl ''empty host name''
           else if length v \<le> i + 1 then Inl ''empty port''
           else Inr (take i v, drop (i + 1) v)))"

subsection \<open>Extractors\<close>

text \<open>The part of the host before the suffix, when the suffix matches and is not everything.\<close>

definition before_suffix :: "host \<Rightarrow> string \<Rightarrow> string option" where
  "before_suffix h name =
     (case maybeSplitHostAndPort name of
        Inl _ \<Rightarrow> None
      | Inr (host, port) \<Rightarrow>
          (if Port h \<noteq> [] \<and> Port h \<noteq> port then None
           else if length host < length (Suffix h) + 1 then None
           else if drop (length host - length (Suffix h)) host \<noteq> Suffix h then None
           else Some (take (length host - length (Suffix h)) host)))"

definition subdomainExtractor :: "host \<Rightarrow> string \<Rightarrow> string option" where
  "subdomainExtractor h name =
     (case before_suffix h name of
        None \<Rightarrow> None
      | Some bucket \<Rightarrow> if IndexByte bucket CHR ''.'' \<noteq> None then None else Some bucket)"

definition wildcardExtractor :: "host \<Rightarrow> string \<Rightarrow> string option" where
  "wildcardExtractor h name =
     (case before_suffix h name of
        None \<Rightarrow> None
      | Some bucket \<Rightarrow>
          (if BucketName h \<noteq> [] then Some (BucketName h)
           else if IndexByte bucket CHR ''.'' \<noteq> None then None else Some bucket))"

definition exactExtractor :: "host \<Rightarrow> string \<Rightarrow> string option" where
  "exactExtractor h name =
     (case maybeSplitHostAndPort name of
        Inl _ \<Rightarrow> None
      | Inr (host, port) \<Rightarrow>
          (if Port h \<noteq> [] \<and> Port h \<noteq> port then None
           else if Suffix h \<noteq> host then None
           else Some (BucketName h)))"

definition hostMapping :: "host \<Rightarrow> string \<Rightarrow> unit fault + string option" where
  "hostMapping h name =
     (case extractorFunc h of
        NilFunc \<Rightarrow> Inl Panicked
      | NeverMatch \<Rightarrow> Inr None
      | SubdomainExtractor \<Rightarrow> Inr (subdomainExtractor h name)
      | WildcardExtractor \<Rightarrow> Inr (wildcardExtractor h name)
      | ExactExtractor \<Rightarrow> Inr (exactExtractor h name))"

record virtual_host_config =
  Hosts :: "host list"

fun firstMapping :: "host list \<Rightarrow> string \<Rightarrow> unit fault + string option" where
  "firstMapping [] name = Inr None"
| "firstMapping (h # hs) name =
     rbind (hostMapping h name)
       (\<lambda>r. case r of Some b \<Rightarrow> Inr (Some b) | None \<Rightarrow> firstMapping hs name)"

definition GetBucketMapping :: "virtual_host_config \<Rightarrow> string \<Rightarrow> unit fault + string option" where
  "GetBucketMapping vh name = firstMapping (Hosts vh) name"

subsection \<open>Reading host entries\<close>

text \<open>
  An entry of the list is a string, or a map from a host to a bucket; YAML may give a map with
  string keys or with arbitrary keys, and values that are not strings.
\<close>

datatype any_string = Str string | NotStr

datatype host_entry =
    EntryString string
  | EntryMap "(string \<times> any_string) list"
  | EntryMapAny "(any_string \<times> any_string) list"
  | EntryOther

definition report :: "path \<Rightarrow> bool \<Rightarrow> string \<Rightarrow> string list \<Rightarrow> cfg_error list \<Rightarrow> cfg_error list" where
  "report loc bad fmt args errs = (if bad then AppendErr loc (Fmt fmt args) errs else errs)"

definition handleWild :: "path \<Rightarrow> host \<Rightarrow> string \<Rightarrow> cfg_error list \<Rightarrow> host \<times> cfg_error list" where
  "handleWild loc dst hostPort errs =
     (case maybeSplitHostAndPort hostPort of
        Inl e \<Rightarrow> (dst, AppendErr loc (Fmt e []) errs)
      | Inr (host0, port) \<Rightarrow>
          (let host = TrimSuffix host0 ''.'' in
           if host = [] then (dst, AppendErr loc (Fmt ''empty host not allowed'' []) errs)
           else if hd host = CHR ''.'' then
             (dst\<lparr>Suffix := host, Port := port, extractorFunc := SubdomainExtractor\<rparr>,
              report loc (\<not> validateHostName (tl host)) ''invalid host name: %s'' [host] errs)
           else if length host > 2 \<and> hd host = CHR ''*'' then
             (if hd (tl host) \<noteq> CHR ''.'' then
                (dst\<lparr>Port := port, extractorFunc := SubdomainExtractor\<rparr>,
                 AppendErr loc (Fmt ''invalid pattern: %s'' [host]) errs)
              else
                (dst\<lparr>Suffix := tl host, Port := port, extractorFunc := SubdomainExtractor\<rparr>,
                 report loc (\<not> validateHostName (drop 2 host)) ''invalid host name: %s'' [host] errs))
           else
             (dst\<lparr>Suffix := host, Port := port, extractorFunc := NeverMatch\<rparr>,
              report loc (\<not> validateHostName host) ''invalid host name: %s'' [host] errs)))"

definition handleExactMapping ::
  "path \<Rightarrow> host \<Rightarrow> string \<Rightarrow> any_string \<Rightarrow> cfg_error list \<Rightarrow> host \<times> cfg_error list" where
  "handleExactMapping loc dst hostPort maybeBucket errs =
     (let (host, port, errs1) =
            (case maybeSplitHostAndPort hostPort of
               Inl e \<Rightarrow> ([], [], AppendErr loc (Fmt ''invalid host name: %w'' [e]) errs)
             | Inr (h, p) \<Rightarrow> (h, p, errs));
          (bucket, errs2) =
            (case maybeBucket of
               Str b \<Rightarrow> (b, errs1)
             | NotStr \<Rightarrow> ([], AppendErr loc (Fmt ''bucket name must be a string, got %T'' []) errs1))
      in if length host > 2 \<and> hd host = CHR ''*'' \<and> hd (tl host) = CHR ''.'' then
           (dst\<lparr>Suffix := tl host, Port := port, BucketName := bucket, extractorFunc := WildcardExtractor\<rparr>,
            report loc (\<not> validateHostName (drop 2 host)) ''invalid host name: %s'' [host] errs2)
         else
           (dst\<lparr>Suffix := host, Port := port, BucketName := bucket, extractorFunc := ExactExtractor\<rparr>,
            report loc (\<not> validateHostName host) ''invalid host name: %s'' [host] errs2))"

text \<open>A map must have one entry; with more, the last one iterated over is used, with none the zero values.\<close>

definition populateHostEntryFromIR ::
  "path \<Rightarrow> host \<Rightarrow> host_entry \<Rightarrow> cfg_error list \<Rightarrow> host \<times> cfg_error list" where
  "populateHostEntryFromIR loc dst entry errs =
     (let count = ''host mapping must have exactly one key-value pair, got %d'' in
      case entry of
        EntryString v \<Rightarrow> handleWild loc dst v errs
      | EntryMap v \<Rightarrow>
          (let errs1 = report loc (length v \<noteq> 1) count [fmt_d (length v)] errs;
               (hostPort, val) = (if v = [] then ([], NotStr) else last v)
           in handleExactMapping loc dst hostPort val errs1)
      | EntryMapAny v \<Rightarrow>
          (let errs1 = report loc (length v \<noteq> 1) count [fmt_d (length v)] errs;
               (maybeHostPort, val) = (if v = [] then (NotStr, NotStr) else last v)
           in case maybeHostPort of
                NotStr \<Rightarrow> (dst, AppendErr loc (Fmt ''invalid type for the host name: %T'' []) errs1)
              | Str hostPort \<Rightarrow> handleExactMapping loc dst hostPort val errs1)
      | EntryOther \<Rightarrow>
          (dst, AppendErr loc (Fmt ''invalid host entry type: %T (expected string or map)'' []) errs))"

subsection \<open>Specificity\<close>

text \<open>
  The order of the sort: hosts with a port first, then longer suffixes first.  Equal hosts keep
  their order, the sort being stable.
\<close>

datatype specificity = Specificity (has_port: bool) (suffix_length: nat)

instantiation specificity :: linorder
begin

definition less_specificity :: "specificity \<Rightarrow> specificity \<Rightarrow> bool" where
  "less_specificity a b \<longleftrightarrow>
     (if has_port a \<noteq> has_port b then has_port a else suffix_length b < suffix_length a)"

definition less_eq_specificity :: "specificity \<Rightarrow> specificity \<Rightarrow> bool" where
  "less_eq_specificity a b \<longleftrightarrow> a < b \<or> a = (b :: specificity)"

instance
proof
  fix x y :: specificity
  show "x \<le> y \<or> y \<le> x"
    by (cases x; cases y) (auto simp: less_specificity_def less_eq_specificity_def)
qed (auto simp: less_specificity_def less_eq_specificity_def split: if_splits)

end

definition hostSpecificity :: "host \<Rightarrow> specificity" where
  "hostSpecificity h = Specificity (Port h \<noteq> []) (length (Suffix h))"

fun populateHosts ::
  "path \<Rightarrow> nat \<Rightarrow> host_entry list \<Rightarrow> cfg_error list \<Rightarrow> host list \<times> cfg_error list" where
  "populateHosts loc i [] errs = ([], errs)"
| "populateHosts loc i (e # es) errs =
     (let (h, errs1) = populateHostEntryFromIR (EnterIndex loc i) emptyHost e errs;
          (hs, errs2) = populateHosts loc (Suc i) es errs1
      in (h # hs, errs2))"

definition buildVirtualHostConfigFromIR ::
  "path \<Rightarrow> host_entry list \<Rightarrow> cfg_error list \<Rightarrow> virtual_host_config \<times> cfg_error list" where
  "buildVirtualHostConfigFromIR loc src errs =
     (let (hosts, errs') = populateHosts (Enter loc ''Hosts'') 0 src errs
      in (\<lparr>Hosts = sort_key hostSpecificity hosts\<rparr>, errs'))"

subsection \<open>Properties\<close>

lemma maybeSplit_host:
  "CHR '':'' \<notin> set h \<Longrightarrow> maybeSplitHostAndPort h = Inr (h, [])"
  by (simp add: maybeSplitHostAndPort_def IndexByte_None [THEN iffD2])

lemma maybeSplit_host_port:
  "CHR '':'' \<notin> set h \<Longrightarrow> h \<noteq> [] \<Longrightarrow> p \<noteq> [] \<Longrightarrow>
     maybeSplitHostAndPort (h @ CHR '':'' # p) = Inr (h, p)"
  by (simp add: maybeSplitHostAndPort_def IndexByte_append)

lemma maybeSplit_Inr:
  "maybeSplitHostAndPort v = Inr (h, p) \<Longrightarrow> CHR '':'' \<notin> set h \<and> (v = h \<and> p = [] \<or> v = h @ CHR '':'' # p)"
proof -
  assume m: "maybeSplitHostAndPort v = Inr (h, p)"
  show ?thesis
  proof (cases "IndexByte v CHR '':''")
    case None
    with m show ?thesis by (auto simp: maybeSplitHostAndPort_def IndexByte_None)
  next
    case (Some i)
    with m have "h = take i v" "p = drop (i + 1) v"
      by (auto simp: maybeSplitHostAndPort_def split: if_splits)
    with IndexByte_Some [OF Some] id_take_nth_drop [of i v] show ?thesis by simp
  qed
qed

lemma before_suffix_iff:
  assumes "maybeSplitHostAndPort name = Inr (h, p)"
  shows "before_suffix host name = Some b \<longleftrightarrow>
     (Port host = [] \<or> Port host = p) \<and> b \<noteq> [] \<and> h = b @ Suffix host"
  using assms by (auto simp: before_suffix_def) (metis append_take_drop_id)+

text \<open>No entry is left without an extractor unless an error was recorded.\<close>

lemma report_length: "length errs \<le> length (report loc b f a errs)"
  by (simp add: report_def AppendErr_def)

lemma handleExact_set:
  "handleExactMapping loc dst hp v errs = (h, errs') \<Longrightarrow>
     extractorFunc h \<noteq> NilFunc \<and> length errs \<le> length errs'"
  by (auto simp: handleExactMapping_def Let_def report_def AppendErr_def
      split: sum.splits any_string.splits if_splits)

lemma populateHostEntry_set:
  "populateHostEntryFromIR loc dst e errs = (h, errs') \<Longrightarrow>
     length errs \<le> length errs' \<and> (length errs' = length errs \<longrightarrow> extractorFunc h \<noteq> NilFunc)"
  by (cases e)
    (auto simp: populateHostEntryFromIR_def handleWild_def Let_def report_def AppendErr_def
      split: sum.splits if_splits any_string.splits prod.splits dest!: handleExact_set)

lemma populateHosts_set:
  "populateHosts loc i es errs = (hs, errs') \<Longrightarrow>
     length errs \<le> length errs' \<and>
     (length errs' = length errs \<longrightarrow> (\<forall>h \<in> set hs. extractorFunc h \<noteq> NilFunc))"
proof (induction es arbitrary: i errs hs errs')
  case (Cons e es)
  then obtain h errs1 hs' where
    1: "populateHostEntryFromIR (EnterIndex loc i) emptyHost e errs = (h, errs1)" and
    2: "populateHosts loc (Suc i) es errs1 = (hs', errs')" and hs: "hs = h # hs'"
    by (auto split: prod.splits)
  from populateHostEntry_set [OF 1] Cons.IH [OF 2] hs show ?case by auto
qed simp

lemma populateHosts_mono: "length errs \<le> length (snd (populateHosts loc i es errs))"
  using populateHosts_set [of loc i es errs] by (metis prod.collapse)

lemma firstMapping_Some:
  "firstMapping hs name = Inr (Some b) \<Longrightarrow>
     \<exists>pre h post. hs = pre @ h # post \<and> hostMapping h name = Inr (Some b) \<and>
       (\<forall>g \<in> set pre. hostMapping g name = Inr None)"
proof (induction hs)
  case (Cons h hs)
  then obtain r where r: "hostMapping h name = Inr r" by auto
  show ?case
  proof (cases r)
    case None
    with Cons r obtain pre g post where "hs = pre @ g # post" "hostMapping g name = Inr (Some b)"
      "\<forall>g \<in> set pre. hostMapping g name = Inr None" by auto
    with r None show ?thesis by (intro exI [of _ "h # pre"]) auto
  next
    case (Some c)
    with Cons.prems r show ?thesis by (intro exI [of _ "[]"]) auto
  qed
qed simp

lemma firstMapping_total:
  "(\<forall>h \<in> set hs. extractorFunc h \<noteq> NilFunc) \<Longrightarrow> \<exists>r. firstMapping hs name = Inr r"
proof (induction hs)
  case (Cons h hs)
  then obtain r where "hostMapping h name = Inr r"
    by (cases "extractorFunc h") (auto simp: hostMapping_def)
  with Cons show ?case by (cases r) auto
qed simp

text \<open>
  C15: a configuration read without errors maps every host without panicking, and when the
  mapping gives a bucket, it is the one of a matching entry such that no entry that is more
  specific (a port beats none, then the longer suffix) matches.
\<close>

theorem virtual_host_most_specific:
  assumes "buildVirtualHostConfigFromIR loc src [] = (cfg, [])"
  shows "\<exists>r. GetBucketMapping cfg name = Inr r \<and>
     (case r of
        Some b \<Rightarrow> \<exists>h \<in> set (Hosts cfg). hostMapping h name = Inr (Some b) \<and>
          (\<forall>g \<in> set (Hosts cfg). hostSpecificity g < hostSpecificity h \<longrightarrow> hostMapping g name = Inr None)
      | None \<Rightarrow> \<forall>h \<in> set (Hosts cfg). hostMapping h name = Inr None)"
proof -
  obtain hs where hs: "populateHosts (Enter loc ''Hosts'') 0 src [] = (hs, [])"
    and cfg: "Hosts cfg = sort_key hostSpecificity hs"
    using assms by (auto simp: buildVirtualHostConfigFromIR_def split: prod.splits)
  then have "\<forall>h \<in> set (Hosts cfg). extractorFunc h \<noteq> NilFunc"
    using populateHosts_set [OF hs] by auto
  then obtain r where r: "GetBucketMapping cfg name = Inr r"
    using firstMapping_total [of "Hosts cfg" name] by (auto simp: GetBucketMapping_def)
  show ?thesis
  proof (cases r)
    case None
    have "firstMapping xs name = Inr None \<Longrightarrow> \<forall>h \<in> set xs. hostMapping h name = Inr None" for xs
      by (induction xs) (auto split: option.splits)
    with r None show ?thesis by (auto simp: GetBucketMapping_def)
  next
    case (Some b)
    then obtain pre h post where sp: "Hosts cfg = pre @ h # post" "hostMapping h name = Inr (Some b)"
      "\<forall>g \<in> set pre. hostMapping g name = Inr None"
      using r firstMapping_Some by (metis GetBucketMapping_def)
    moreover have "sorted (map hostSpecificity (Hosts cfg))" by (simp add: cfg)
    then have "\<forall>g \<in> set post. \<not> hostSpecificity g < hostSpecificity h"
      using sp(1) by (auto simp: sorted_append not_less)
    ultimately show ?thesis using r Some by (intro exI [of _ r]) fastforce
  qed
qed

theorem virtual_host_most_specific_witness:
  "\<exists>r. GetBucketMapping (fst (buildVirtualHostConfigFromIR []
       [EntryString ''*.s3.local'', EntryMap [(''media.s3.local'', Str ''media'')]] [])) ''a.s3.local'' = Inr r \<and>
     (case r of
        Some b \<Rightarrow> \<exists>h \<in> set (Hosts (fst (buildVirtualHostConfigFromIR []
              [EntryString ''*.s3.local'', EntryMap [(''media.s3.local'', Str ''media'')]] []))).
            hostMapping h ''a.s3.local'' = Inr (Some b) \<and>
            (\<forall>g \<in> set (Hosts (fst (buildVirtualHostConfigFromIR []
              [EntryString ''*.s3.local'', EntryMap [(''media.s3.local'', Str ''media'')]] []))).
              hostSpecificity g < hostSpecificity h \<longrightarrow> hostMapping g ''a.s3.local'' = Inr None)
      | None \<Rightarrow> \<forall>h \<in> set (Hosts (fst (buildVirtualHostConfigFromIR []
              [EntryString ''*.s3.local'', EntryMap [(''media.s3.local'', Str ''media'')]] []))).
            hostMapping h ''a.s3.local'' = Inr None)"
  by (rule virtual_host_most_specific [of "[]" "[EntryString ''*.s3.local'',
      EntryMap [(''media.s3.local'', Str ''media'')]]"]) code_simp

lemma validate_no_colon: "validate_from e v \<Longrightarrow> CHR '':'' \<notin> set v"
proof (induction e v rule: validate_from.induct)
  case (2 e c v)
  have "\<not> isRFC1034Label CHR '':''" by code_simp
  with 2 show ?case by (auto split: if_splits)
qed simp

text \<open>The host a wildcard entry without a port becomes.\<close>

definition wild_host :: "string \<Rightarrow> host" where
  "wild_host s = emptyHost\<lparr>Suffix := ''.'' @ s, Port := [], extractorFunc := SubdomainExtractor\<rparr>"

lemma build_wild:
  assumes "validateHostName s" "s \<noteq> []" "\<not> HasSuffix s ''.''"
  shows "buildVirtualHostConfigFromIR loc [EntryString (''*.'' @ s)] [] = (\<lparr>Hosts = [wild_host s]\<rparr>, [])"
proof -
  have "CHR '':'' \<notin> set s" using assms(1) validate_no_colon by (auto simp: validateHostName_def)
  then have sp: "maybeSplitHostAndPort (''*.'' @ s) = Inr (''*.'' @ s, [])"
    by (intro maybeSplit_host) auto
  have "\<not> HasSuffix (''*.'' @ s) ''.''"
    using assms(2,3) by (cases s rule: rev_cases) (auto simp: HasSuffix_iff)
  then have tr: "TrimSuffix (''*.'' @ s) ''.'' = ''*.'' @ s" by (simp add: TrimSuffix_def)
  show ?thesis
    using sp tr assms(1,2)
    by (simp add: buildVirtualHostConfigFromIR_def populateHostEntryFromIR_def handleWild_def Let_def
        split_def wild_host_def report_def)
qed

text \<open>
  The entry \<open>*.suffix\<close> maps exactly the hosts \<open>b.suffix\<close>, for a non-empty label \<open>b\<close>
  without a dot, to the bucket \<open>b\<close>, whatever port the request names.
\<close>

theorem wildcard_host_mapping:
  assumes "validateHostName s" "s \<noteq> []" "\<not> HasSuffix s ''.''"
    "maybeSplitHostAndPort name = Inr (h, p)"
  shows "GetBucketMapping (fst (buildVirtualHostConfigFromIR loc [EntryString (''*.'' @ s)] [])) name = Inr (Some b)
     \<longleftrightarrow> b \<noteq> [] \<and> CHR ''.'' \<notin> set b \<and> h = b @ ''.'' @ s"
proof -
  have "GetBucketMapping \<lparr>Hosts = [wild_host s]\<rparr> name = Inr (Some b) \<longleftrightarrow>
     before_suffix (wild_host s) name = Some b \<and> IndexByte b CHR ''.'' = None"
    by (auto simp: wild_host_def GetBucketMapping_def hostMapping_def subdomainExtractor_def
        split: option.splits)
  moreover have "before_suffix (wild_host s) name = Some b \<longleftrightarrow> b \<noteq> [] \<and> h = b @ ''.'' @ s"
    using before_suffix_iff [OF assms(4)] by (simp add: wild_host_def)
  ultimately show ?thesis unfolding build_wild [OF assms(1-3)] fst_conv IndexByte_None by blast
qed

theorem wildcard_host_mapping_witness:
  "GetBucketMapping (fst (buildVirtualHostConfigFromIR [] [EntryString (''*.'' @ ''s3.local'')] []))
      ''media.s3.local:8080'' = Inr (Some ''media'')"
  by (rule wildcard_host_mapping [of "''s3.local''" _ "''media.s3.local''" "''8080''", THEN iffD2])
    code_simp+

end
