(* ===== verification/Auth.thy ===== *)
theory Auth
  imports Prelude
begin

section \<open>Credential stores\<close>

text \<open>
  \<open>internal/auth/credentials.go\<close>.  A store gives the secret of an access key.  The file store
  holds the parsed JSON file; reading and parsing the file is the argument \<open>read\<close> (a file name to
  the map it holds, or an error).  The locks make each operation atomic, so an operation is a
  function of the store's state.
\<close>

record credentials =
  SecretKey :: string
  Enabled :: bool
  CreatedAt :: string

datatype store_error =
    ReadFailed string
  | AccessKeyNotFound string
  | AccessKeyDisabled string

record file_store =
  fs_filePath :: string
  fs_credentials :: "(string \<times> credentials) list"

definition Reload ::
  "(string \<Rightarrow> string + (string \<times> credentials) list) \<Rightarrow> file_store \<Rightarrow> store_error option \<times> file_store" where
  "Reload read s =
     (case read (fs_filePath s) of
        Inl e \<Rightarrow> (Some (ReadFailed e), s)
      | Inr creds \<Rightarrow> (None, s\<lparr>fs_credentials := creds\<rparr>))"

definition NewFileCredentialsStore ::
  "(string \<Rightarrow> string + (string \<times> credentials) list) \<Rightarrow> string \<Rightarrow> store_error + file_store" where
  "NewFileCredentialsStore read filePath =
     (case Reload read \<lparr>fs_filePath = filePath, fs_credentials = []\<rparr> of
        (Some e, _) \<Rightarrow> Inl e
      | (None, s) \<Rightarrow> Inr s)"

definition fileGetSecret :: "file_store \<Rightarrow> string \<Rightarrow> store_error + string" where
  "fileGetSecret s accessKeyID =
     (case map_of (fs_credentials s) accessKeyID of
        None \<Rightarrow> Inl (AccessKeyNotFound accessKeyID)
      | Some cred \<Rightarrow>
          (if \<not> Enabled cred then Inl (AccessKeyDisabled accessKeyID) else Inr (SecretKey cred)))"

type_synonym memory_store = "(string \<times> string) list"

definition NewInMemoryCredentialsStore :: "(string \<times> string) list \<Rightarrow> memory_store" where
  "NewInMemoryCredentialsStore creds = fold (\<lambda>(k, v) m. AList.update k v m) creds []"

definition memGetSecret :: "memory_store \<Rightarrow> string \<Rightarrow> store_error + string" where
  "memGetSecret s accessKeyID =
     (case map_of s accessKeyID of
        None \<Rightarrow> Inl (AccessKeyNotFound accessKeyID)
      | Some secret \<Rightarrow> Inr secret)"

subsection \<open>The interface\<close>

text \<open>
  The interface \<open>CredentialsStore\<close>: \<open>get\<close> is \<open>GetSecret\<close>, and \<open>grants s\<close> is the relation the
  store stands for, from access keys to the one secret that authenticates them.  A request can only
  be authenticated with a granted secret, and an unknown key has none.
\<close>

locale credentials_store =
  fixes get :: "'s \<Rightarrow> string \<Rightarrow> store_error + string"
    and grants :: "'s \<Rightarrow> string \<Rightarrow> string \<Rightarrow> bool"
  assumes get_grants: "get s k = Inr x \<longleftrightarrow> grants s k x"
begin

lemma grants_unique: "grants s k x \<Longrightarrow> grants s k y \<Longrightarrow> x = y"
  using get_grants by (metis sum.inject(2))

lemma no_grant: "(\<forall>x. \<not> grants s k x) \<longleftrightarrow> (\<exists>e. get s k = Inl e)"
  by (cases "get s k") (auto simp: get_grants [symmetric])

end

definition file_grants :: "file_store \<Rightarrow> string \<Rightarrow> string \<Rightarrow> bool" where
  "file_grants s k x \<longleftrightarrow>
     (case map_of (fs_credentials s) k of Some c \<Rightarrow> Enabled c \<and> SecretKey c = x | None \<Rightarrow> False)"

definition mem_grants :: "memory_store \<Rightarrow> string \<Rightarrow> string \<Rightarrow> bool" where
  "mem_grants s k x \<longleftrightarrow> map_of s k = Some x"

interpretation fstore: credentials_store fileGetSecret file_grants
  by unfold_locales (auto simp: fileGetSecret_def file_grants_def split: option.splits)

interpretation mstore: credentials_store memGetSecret mem_grants
  by unfold_locales (auto simp: memGetSecret_def mem_grants_def split: option.splits)

lemma map_of_fold_update:
  "map_of (fold (\<lambda>(k, v). AList.update k v) kvs m) = map_of m ++ map_of (rev kvs)"
proof (induction kvs arbitrary: m)
  case (Cons kv kvs)
  obtain k v where "kv = (k, v)" by (cases kv)
  with Cons show ?case by (auto simp: map_add_def split: option.splits)
qed simp

text \<open>
  C34: the file store gives a secret exactly for the enabled keys of its file, and a failed reload
  leaves the answer for every key as it was.
\<close>

theorem file_store_secrets:
  assumes "Reload read s = (e, s')"
  shows "fileGetSecret s' k = Inr x \<longleftrightarrow>
     (\<exists>c. map_of (case read (fs_filePath s) of Inr cs \<Rightarrow> cs | Inl _ \<Rightarrow> fs_credentials s) k = Some c \<and>
       Enabled c \<and> SecretKey c = x)"
  using assms fstore.get_grants [of s' k x]
  by (auto simp: Reload_def file_grants_def split: option.splits sum.splits)

theorem file_store_secrets_witness:
  "fileGetSecret \<lparr>fs_filePath = ''f'', fs_credentials = [(''AK'', \<lparr>SecretKey = ''s'', Enabled = True, CreatedAt = []\<rparr>)]\<rparr> ''AK''
     = Inr ''s''"
  by (rule file_store_secrets [of "\<lambda>_. Inl ''no such file''", THEN iffD2])
    (auto simp: Reload_def)

end
