(* ===== verification/Config.thy ===== *)
theory Config
  imports ParseValue VirtualHost Auth
begin

section \<open>The router's configuration\<close>

text \<open>
  \<open>internal/config/{auth,backend,bucket,config,credentials,server}.go\<close>: the records the file is
  decoded into (package \<open>ir\<close>, prefix \<open>i\<close>), the validated configuration, and the population
  functions, which record every error they meet and carry on.  A pointer that may be nil is an
  option.  Go maps are association lists in the order of one iteration.
\<close>

subsection \<open>The decoded file (package ir)\<close>

record ir_assume_role =
  iRoleARN :: string
  iSessionName :: string
  iDuration :: string

record ir_credentials =
  iType :: string
  iCredPath :: string
  iSecretName :: string
  iCredRegion :: string
  iAssumeRole :: "ir_assume_role option"
  iAccessKeyID :: string
  iSecretAccessKey :: string
  iSessionToken :: string

record ir_backend =
  iEndpoint :: string
  iRegion :: string
  iBucket :: string
  iPrefix :: string
  iTimeout :: string
  iRetries :: int
  iUsePathStyle :: bool
  iUseFIPS :: bool
  iUseGlobalEndpoint :: bool
  iUseDualStack :: bool
  iAccelerate :: bool
  iCredentials :: "ir_credentials option"

record ir_rewrite =
  iPattern :: string
  iResult :: string

record ir_route =
  iPath :: string
  iBackend :: string
  iRewrites :: "ir_rewrite list"

record ir_bucket =
  iName :: string
  iRoutes :: "ir_route list"

record ir_server =
  iReadTimeout :: goany
  iWriteTimeout :: goany
  iIdleTimeout :: goany
  iMaxBodySize :: goany
  iRouteCacheSize :: goany

record ir_auth =
  iDefaultRegion :: string
  iClockSkewLeeway :: string

record ir_config =
  iBackends :: "(string \<times> ir_backend) list"
  iBuckets :: "(string \<times> ir_bucket) list"
  iFeatures :: "(string \<times> bool) list"
  iCredentialsStore :: string
  iServer :: "ir_server option"
  iAuth :: "ir_auth option"
  iVirtualHosts :: "host_entry list option"

subsection \<open>The validated configuration\<close>

record assume_role =
  RoleARN :: string
  SessionName :: string
  aDuration :: int

record credentials_config =
  cType :: string
  cPath :: string
  cSecretName :: string
  cRegion :: string
  cAssumeRole :: "assume_role option"
  cAccessKeyID :: string
  cSecretAccessKey :: string
  cSessionToken :: string

record backend_config =
  bID :: string
  bEndpoint :: string
  bRegion :: string
  bBucket :: string
  bPrefix :: string
  bTimeout :: int
  bRetries :: int
  bUsePathStyle :: bool
  bUseFIPS :: bool
  bUseGlobalEndpoint :: bool
  bUseDualStack :: bool
  bAccelerate :: bool
  bCredentials :: "credentials_config option"

record rewrite_rule =
  rwPattern :: "regexp option"
  rwResult :: "template option"

record route_config =
  rtPath :: "regexp option"
  rtBackend :: "backend_config option"
  rtRewrites :: "rewrite_rule list"

record bucket_config =
  bkName :: string
  bkRoutes :: "route_config list"

record server_config =
  sReadTimeout :: int
  sWriteTimeout :: int
  sIdleTimeout :: int
  sMaxBodySize :: int
  sRouteCacheSize :: int

record auth_config =
  aDefaultRegion :: string
  aClockSkewLeeway :: int

record config =
  cfgBackends :: "(string \<times> backend_config) list"
  cfgBuckets :: "(string \<times> bucket_config) list"
  cfgFeatures :: "(string \<times> bool) list"
  cfgCredentialsStore :: "file_store option"
  cfgServer :: "server_config option"
  cfgAuth :: "auth_config option"
  cfgVirtualHosts :: "virtual_host_config option"

subsection \<open>Errors accumulated along the way\<close>

type_synonym 'a populate = "cfg_error list \<Rightarrow> 'a \<times> cfg_error list"

text \<open>A fallible value: the error is recorded under a location and a default is used.\<close>

definition orRecord :: "path \<Rightarrow> ('e \<Rightarrow> cfg_msg) \<Rightarrow> 'a \<Rightarrow> 'e + 'a \<Rightarrow> 'a populate" where
  "orRecord loc msg d r errs =
     (case r of Inr x \<Rightarrow> (x, errs) | Inl e \<Rightarrow> (d, AppendErr loc (msg e) errs))"

fun populateOptional :: "('a \<Rightarrow> 'b populate) \<Rightarrow> 'a option \<Rightarrow> 'b option populate" where
  "populateOptional f None errs = (None, errs)"
| "populateOptional f (Some x) errs = (let (y, errs') = f x errs in (Some y, errs'))"

fun populateEach :: "(nat \<Rightarrow> 'a \<Rightarrow> 'b populate) \<Rightarrow> nat \<Rightarrow> 'a list \<Rightarrow> 'b list populate" where
  "populateEach f i [] errs = ([], errs)"
| "populateEach f i (x # xs) errs =
     (let (y, errs1) = f i x errs; (ys, errs2) = populateEach f (Suc i) xs errs1 in (y # ys, errs2))"

subsection \<open>Credentials and backends\<close>

definition buildCredentialsAssumeRoleFromIR :: "path \<Rightarrow> ir_assume_role \<Rightarrow> assume_role populate" where
  "buildCredentialsAssumeRoleFromIR loc src errs =
     (let errs1 = report (Enter loc ''RoleARN'') (iRoleARN src = [])
            ''credentials.assume_role.role_arn is required when assume_role is specified'' [] errs;
          (d, errs2) =
            (if iDuration src = [] then (Second * 3600, errs1)
             else orRecord (Enter loc ''Duration'') (ValueErr ''invalid value'') 0
                    (parseDuration (AString (iDuration src))) errs1)
      in (\<lparr>RoleARN = iRoleARN src, SessionName = iSessionName src, aDuration = d\<rparr>, errs2))"

definition emptyCredentials :: credentials_config where
  "emptyCredentials = \<lparr>cType = [], cPath = [], cSecretName = [], cRegion = [], cAssumeRole = None,
     cAccessKeyID = [], cSecretAccessKey = [], cSessionToken = []\<rparr>"

text \<open>
  The switch on the type.  \<open>ctx.Append("Type")\<close> records an error whose message is the word
  \<open>Type\<close> and returns the same context, so these branches record two errors.
\<close>

definition credentialsByType :: "path \<Rightarrow> ir_credentials \<Rightarrow> credentials_config populate" where
  "credentialsByType loc src errs =
     (let dst = emptyCredentials\<lparr>cType := iType src\<rparr> in
      if iType src = ''file'' then
        (dst\<lparr>cPath := iCredPath src\<rparr>,
         report (Enter loc ''Path'') (iCredPath src = [])
           ''credentials type 'file' requires 'path' field'' [] errs)
      else if iType src = ''aws-secrets-manager'' then
        (dst\<lparr>cSecretName := iSecretName src\<rparr>,
         report (Enter loc ''SecretName'') (iSecretName src = [])
           ''credentials type 'aws-secrets-manager' requires 'secret_name' field'' [] errs)
      else if iType src = ''inline'' then
        (dst\<lparr>cAccessKeyID := iAccessKeyID src, cSecretAccessKey := iSecretAccessKey src,
             cSessionToken := iSessionToken src\<rparr>,
         report (Enter loc ''SecretAccessKey'') (iSecretAccessKey src = [])
           ''credentials type 'inline' requires 'secret_access_key' field'' []
           (report (Enter loc ''AccessKeyID'') (iAccessKeyID src = [])
             ''credentials type 'inline' requires 'access_key_id' field'' [] errs))
      else if iType src = [] then
        (dst, AppendErr loc (Fmt ''required'' []) (AppendErr loc (Fmt ''Type'' []) errs))
      else
        (dst, AppendErr loc (Fmt ''unknown credentials type %s'' [iType src])
                (AppendErr loc (Fmt ''Type'' []) errs)))"

definition populateCredentialsConfigFromIR :: "path \<Rightarrow> ir_credentials \<Rightarrow> credentials_config populate" where
  "populateCredentialsConfigFromIR loc src errs =
     (let (dst, errs1) = credentialsByType loc src errs in
      case iAssumeRole src of
        None \<Rightarrow> (dst, errs1)
      | Some a \<Rightarrow>
          (let (role, errs2) = buildCredentialsAssumeRoleFromIR (Enter loc ''AssumeRole'') a errs1
           in (dst\<lparr>cAssumeRole := Some role\<rparr>, errs2)))"

definition populateBackendConfigFromIR :: "path \<Rightarrow> string \<Rightarrow> ir_backend \<Rightarrow> backend_config populate" where
  "populateBackendConfigFromIR loc backendID src errs =
     (let errs1 = report (Enter loc ''Bucket'') (iBucket src = []) ''bucket is required'' [] errs;
          (timeout, errs2) =
            (if iTimeout src = [] then (Second * 60, errs1)
             else orRecord (Enter loc ''Timeout'') (ValueErr ''failed to parse duration'') 0
                    (parseDuration (AString (iTimeout src))) errs1);
          (creds, errs3) =
            (case iCredentials src of
               None \<Rightarrow> (None, errs2)
             | Some c \<Rightarrow>
                 (let (cc, e) = populateCredentialsConfigFromIR (Enter loc ''Credentials'') c errs2
                  in (Some cc, e)))
      in (\<lparr>bID = backendID, bEndpoint = iEndpoint src, bRegion = iRegion src, bBucket = iBucket src,
           bPrefix = iPrefix src, bTimeout = timeout, bRetries = iRetries src,
           bUsePathStyle = iUsePathStyle src, bUseFIPS = iUseFIPS src,
           bUseGlobalEndpoint = iUseGlobalEndpoint src, bUseDualStack = iUseDualStack src,
           bAccelerate = iAccelerate src, bCredentials = creds\<rparr>, errs3))"

definition buildBackendConfigsFromIR ::
  "path \<Rightarrow> (string \<times> ir_backend) list \<Rightarrow> (string \<times> backend_config) list populate" where
  "buildBackendConfigsFromIR loc src errs =
     (if src = [] then ([], AppendErr loc (Fmt ''no backends defined'' []) errs)
      else populateEach (\<lambda>i (id, b) errs.
             let (c, errs') = populateBackendConfigFromIR (EnterKey loc id) id b errs in ((id, c), errs'))
             0 src errs)"

subsection \<open>Buckets, routes and rewrites\<close>

definition populateRewriteRuleFromIR :: "path \<Rightarrow> ir_rewrite \<Rightarrow> rewrite_rule populate" where
  "populateRewriteRuleFromIR loc src errs =
     (let (pattern, errs1) =
            (if iPattern src = [] then (None, errs)
             else orRecord (Enter loc ''Pattern'') (RegexErr ''invalid pattern regex'') None
                    (map_sum id Some (Compile (iPattern src))) errs);
          (tmpl, errs2) =
            orRecord (Enter loc ''Result'') (TemplateErr ''invalid template'') None
              (map_sum id Some (Parse (iResult src))) errs1
      in (\<lparr>rwPattern = pattern, rwResult = tmpl\<rparr>, errs2))"

definition populateRouteConfigFromIR ::
  "path \<Rightarrow> (string \<times> backend_config) list \<Rightarrow> ir_route \<Rightarrow> route_config populate" where
  "populateRouteConfigFromIR loc backends src errs =
     (let errs1 =
            (if iPath src = [] then AppendErr (Enter loc ''Path'') (Fmt ''path is required'' []) errs
             else snd (orRecord (Enter loc ''Path'') (RegexErr []) None
                         (map_sum id Some (Compile (iPath src))) errs));
          errs2 = report loc (iBackend src = []) ''backend is required'' [] errs1;
          backend = map_of backends (iBackend src);
          errs3 = report loc (backend = None) ''backend %s not found'' [iBackend src] errs2;
          (path, errs4) =
            orRecord loc (RegexErr ''invalid path regex'') None
              (map_sum id Some (Compile (iPath src))) errs3;
          (rewrites, errs5) =
            populateEach (\<lambda>j. populateRewriteRuleFromIR (EnterIndex loc j)) 0 (iRewrites src) errs4
      in (\<lparr>rtPath = path, rtBackend = backend, rtRewrites = rewrites\<rparr>, errs5))"

definition buildRouteConfigsFromIR ::
  "path \<Rightarrow> (string \<times> backend_config) list \<Rightarrow> ir_route list \<Rightarrow> route_config list populate" where
  "buildRouteConfigsFromIR loc backends src errs =
     populateEach (\<lambda>i. populateRouteConfigFromIR (EnterIndex loc i) backends) 0 src
       (report loc (src = []) ''no routes defined'' [] errs)"

definition populateBucketConfigFromIR ::
  "path \<Rightarrow> (string \<times> backend_config) list \<Rightarrow> ir_bucket \<Rightarrow> bucket_config populate" where
  "populateBucketConfigFromIR loc backends src errs =
     (let errs1 = report (Enter loc ''Name'') (iName src = []) ''bucket name is required'' [] errs;
          (routes, errs2) = buildRouteConfigsFromIR (Enter loc ''Routes'') backends (iRoutes src) errs1
      in (\<lparr>bkName = iName src, bkRoutes = routes\<rparr>, errs2))"

text \<open>The result is keyed by the name inside the bucket, not by the key it was found under.\<close>

definition buildBucketConfigsFromIR ::
  "path \<Rightarrow> (string \<times> backend_config) list \<Rightarrow> (string \<times> ir_bucket) list
     \<Rightarrow> (string \<times> bucket_config) list populate" where
  "buildBucketConfigsFromIR loc backends src errs =
     (if src = [] then ([], AppendErr loc (Fmt ''no buckets defined'' []) errs)
      else
        let (bs, errs') = populateEach (\<lambda>i (name, b). populateBucketConfigFromIR (EnterKey loc name) backends b)
              0 src errs
        in (fold (\<lambda>b m. AList.update (bkName b) b m) bs [], errs'))"

subsection \<open>Server and authentication settings\<close>

definition positiveOr :: "int \<Rightarrow> int \<Rightarrow> int" where
  "positiveOr d x = (if x \<le> 0 then d else x)"

lemma positiveOr_pos: "0 < d \<Longrightarrow> 0 < positiveOr d x"
  by (simp add: positiveOr_def)

definition buildServerConfigFromIR :: "path \<Rightarrow> ir_server \<Rightarrow> server_config populate" where
  "buildServerConfigFromIR loc src errs =
     (let inv = ValueErr ''invalid value'';
          (readTimeout, e1) = orRecord (Enter loc ''ReadTimeout'') inv 0 (parseDuration (iReadTimeout src)) errs;
          (writeTimeout, e2) = orRecord (Enter loc ''WriteTimeout'') inv 0 (parseDuration (iWriteTimeout src)) e1;
          (idleTimeout, e3) = orRecord (Enter loc ''IdleTimeout'') inv 0 (parseDuration (iIdleTimeout src)) e2;
          (maxBodySize, e4) = orRecord (Enter loc ''MaxBodySize'') inv 0 (parseBytes (iMaxBodySize src)) e3;
          (routeCacheSize, e5) = orRecord (Enter loc ''RouteCacheSize'') inv 0 (parseCount (iRouteCacheSize src)) e4
      in (\<lparr>sReadTimeout = positiveOr (15 * Second) readTimeout,
           sWriteTimeout = positiveOr (15 * Second) writeTimeout,
           sIdleTimeout = positiveOr (60 * Second) idleTimeout,
           sMaxBodySize = positiveOr (4 * 1024 * 1024 * 1024) maxBodySize,
           sRouteCacheSize = (if routeCacheSize = 0 then 1000 else routeCacheSize)\<rparr>, e5))"

definition buildAuthConfigFromIR :: "path \<Rightarrow> ir_auth \<Rightarrow> auth_config populate" where
  "buildAuthConfigFromIR loc src errs =
     (let (leeway, errs1) =
            (if iClockSkewLeeway src = [] then (Second * 600, errs)
             else orRecord (Enter loc ''ClockSkewLeeway'') (ValueErr []) 0
                    (parseDuration (AString (iClockSkewLeeway src))) errs)
      in (\<lparr>aDefaultRegion = iDefaultRegion src, aClockSkewLeeway = leeway\<rparr>, errs1))"

subsection \<open>The whole configuration\<close>

definition populateStore ::
  "(string \<Rightarrow> string + (string \<times> credentials) list) \<Rightarrow> path \<Rightarrow> string \<Rightarrow> file_store option populate" where
  "populateStore read loc file errs =
     (if file = [] then (None, errs)
      else orRecord loc (\<lambda>e. StoreErr (case e of ReadFailed m \<Rightarrow> m | _ \<Rightarrow> [])) None
             (map_sum id Some (NewFileCredentialsStore read file)) errs)"

definition populateConfigFromIR ::
  "(string \<Rightarrow> string + (string \<times> credentials) list) \<Rightarrow> ir_config \<Rightarrow> config populate" where
  "populateConfigFromIR read src errs =
     (let (backends, e1) = buildBackendConfigsFromIR (Enter [] ''Backends'') (iBackends src) errs;
          (buckets, e2) = buildBucketConfigsFromIR (Enter [] ''Buckets'') backends (iBuckets src) e1;
          (store, e3) = populateStore read (Enter [] ''CredentialsStore'') (iCredentialsStore src) e2;
          (server, e4) = populateOptional (buildServerConfigFromIR (Enter [] ''Server'')) (iServer src) e3;
          (auth, e5) = populateOptional (buildAuthConfigFromIR (Enter [] ''Auth'')) (iAuth src) e4;
          (vhosts, e6) =
            populateOptional (buildVirtualHostConfigFromIR (Enter [] ''VirtualHosts'')) (iVirtualHosts src) e5
      in (\<lparr>cfgBackends = backends, cfgBuckets = buckets, cfgFeatures = iFeatures src,
           cfgCredentialsStore = store, cfgServer = server, cfgAuth = auth, cfgVirtualHosts = vhosts\<rparr>, e6))"

definition PopulateFromIR ::
  "(string \<Rightarrow> string + (string \<times> credentials) list) \<Rightarrow> ir_config \<Rightarrow> cfg_error list + config" where
  "PopulateFromIR read src =
     (let (cfg, errs) = populateConfigFromIR read src [] in if errs = [] then Inr cfg else Inl errs)"

subsection \<open>Runs without errors\<close>

text \<open>
  \<open>ok_run f P\<close>: the population step \<open>f\<close> only adds errors, and if it adds none its result
  satisfies \<open>P\<close>.
\<close>

definition ok_run :: "'a populate \<Rightarrow> ('a \<Rightarrow> bool) \<Rightarrow> bool" where
  "ok_run f P \<longleftrightarrow> (\<forall>errs x errs'. f errs = (x, errs') \<longrightarrow>
     length errs \<le> length errs' \<and> (length errs' = length errs \<longrightarrow> P x))"

named_theorems ok_rules \<open>population steps that add no error\<close>

lemma ok_runI:
  "(\<And>errs x errs'. f errs = (x, errs') \<Longrightarrow>
      length errs \<le> length errs' \<and> (length errs' = length errs \<longrightarrow> P x)) \<Longrightarrow> ok_run f P"
  by (auto simp: ok_run_def)

lemma ok_runD:
  "ok_run f P \<Longrightarrow> f errs = (x, errs') \<Longrightarrow>
     length errs \<le> length errs' \<and> (length errs' = length errs \<longrightarrow> P x)"
  by (auto simp: ok_run_def)

lemma ok_mono: "ok_run f P \<Longrightarrow> (\<And>x. P x \<Longrightarrow> Q x) \<Longrightarrow> ok_run f Q"
  by (auto simp: ok_run_def)

lemma ok_return [ok_rules]: "P x \<Longrightarrow> ok_run (Pair x) P"
  by (auto simp: ok_run_def)

lemma ok_bind:
  "ok_run f P \<Longrightarrow> (\<And>x. ok_run (g x) (\<lambda>y. P x \<longrightarrow> Q y)) \<Longrightarrow>
     ok_run (\<lambda>errs. case f errs of (x, errs') \<Rightarrow> g x errs') Q"
  unfolding ok_run_def by (fastforce split: prod.splits)

lemma ok_orRecord [ok_rules]: "ok_run (orRecord loc m d r) (\<lambda>x. r = Inr x)"
  by (auto simp: ok_run_def orRecord_def AppendErr_def split: sum.splits)

lemma orRecord_le [simp]: "length errs \<le> length (snd (orRecord loc m d r errs))"
  by (auto simp: orRecord_def AppendErr_def split: sum.splits)

lemma ok_report [ok_rules]: "ok_run (\<lambda>errs. (x, report loc b fmt args errs)) (\<lambda>y. y = x \<and> \<not> b)"
  by (auto simp: ok_run_def report_def AppendErr_def)

lemma report_length_iff [simp]: "length (report loc b m a errs) = length errs \<longleftrightarrow> \<not> b"
  by (simp add: report_def AppendErr_def)

lemma report_le [simp]: "length errs \<le> length (report loc b m a errs)"
  by (simp add: report_def AppendErr_def)

lemma AppendErr_length [simp]: "length (AppendErr loc m errs) = Suc (length errs)"
  by (simp add: AppendErr_def)

lemma ok_each:
  "(\<And>i x. x \<in> set xs \<Longrightarrow> ok_run (f i x) (P x)) \<Longrightarrow> ok_run (populateEach f i xs) (list_all2 P xs)"
proof (induction xs arbitrary: i)
  case (Cons x xs)
  show ?case
  proof (rule ok_runI)
    fix errs ys errs'
    assume "populateEach f i (x # xs) errs = (ys, errs')"
    then obtain y errs1 ys' where 1: "f i x errs = (y, errs1)"
      and 2: "populateEach f (Suc i) xs errs1 = (ys', errs')" and ys: "ys = y # ys'"
      by (auto split: prod.splits)
    have "ok_run (f i x) (P x)" using Cons.prems by simp
    moreover have "ok_run (populateEach f (Suc i) xs) (list_all2 P xs)"
      using Cons.prems by (intro Cons.IH) auto
    ultimately show "length errs \<le> length errs' \<and> (length errs' = length errs \<longrightarrow> list_all2 P (x # xs) ys)"
      using ok_runD [of "f i x" "P x", OF _ 1]
        ok_runD [of "populateEach f (Suc i) xs" "list_all2 P xs", OF _ 2] ys by fastforce
  qed
qed (auto simp: ok_run_def)

text \<open>What a valid rewrite, route, backend and bucket are.\<close>

definition rewrite_ok :: "ir_rewrite \<Rightarrow> rewrite_rule \<Rightarrow> bool" where
  "rewrite_ok src rw \<longleftrightarrow>
     (case rwPattern rw of
        None \<Rightarrow> iPattern src = []
      | Some re \<Rightarrow> iPattern src \<noteq> [] \<and> Compile (iPattern src) = Inr re) \<and>
     (\<exists>t. rwResult rw = Some t \<and> Parse (iResult src) = Inr t)"

definition route_ok :: "(string \<times> backend_config) list \<Rightarrow> ir_route \<Rightarrow> route_config \<Rightarrow> bool" where
  "route_ok backends src rt \<longleftrightarrow>
     iPath src \<noteq> [] \<and> (\<exists>re. rtPath rt = Some re \<and> Compile (iPath src) = Inr re) \<and>
     (\<exists>b. rtBackend rt = Some b \<and> map_of backends (iBackend src) = Some b) \<and>
     list_all2 rewrite_ok (iRewrites src) (rtRewrites rt)"

definition bucket_ok :: "(string \<times> backend_config) list \<Rightarrow> ir_bucket \<Rightarrow> bucket_config \<Rightarrow> bool" where
  "bucket_ok backends src bk \<longleftrightarrow>
     bkName bk = iName src \<and> iName src \<noteq> [] \<and> iRoutes src \<noteq> [] \<and>
     list_all2 (route_ok backends) (iRoutes src) (bkRoutes bk)"

lemma ok_rewrite: "ok_run (populateRewriteRuleFromIR loc src) (rewrite_ok src)"
proof (rule ok_runI)
  fix errs rw errs'
  assume run: "populateRewriteRuleFromIR loc src errs = (rw, errs')"
  obtain p errs1 where p:
    "(if iPattern src = [] then (None, errs)
      else orRecord (Enter loc ''Pattern'') (RegexErr ''invalid pattern regex'') None
             (map_sum id Some (Compile (iPattern src))) errs) = (p, errs1)" by fastforce
  obtain t where t:
    "orRecord (Enter loc ''Result'') (TemplateErr ''invalid template'') None
       (map_sum id Some (Parse (iResult src))) errs1 = (t, errs')" and rw: "rw = \<lparr>rwPattern = p, rwResult = t\<rparr>"
    using run p by (auto simp: populateRewriteRuleFromIR_def Let_def split: prod.splits)
  from p ok_runD [OF ok_orRecord t]
  show "length errs \<le> length errs' \<and> (length errs' = length errs \<longrightarrow> rewrite_ok src rw)"
    by (auto simp: rw rewrite_ok_def split: if_splits option.splits dest!: ok_runD [OF ok_orRecord])
      (auto simp: map_sum_def split: sum.splits)
qed

lemma ok_route: "ok_run (populateRouteConfigFromIR loc backends src) (route_ok backends src)"
proof (rule ok_runI)
  fix errs rt errs'
  assume run: "populateRouteConfigFromIR loc backends src errs = (rt, errs')"
  define errs1 where "errs1 = (if iPath src = [] then AppendErr (Enter loc ''Path'') (Fmt ''path is required'' []) errs
             else snd (orRecord (Enter loc ''Path'') (RegexErr []) None
                         (map_sum id Some (Compile (iPath src))) errs))"
  define errs2 where "errs2 = report loc (iBackend src = []) ''backend is required'' [] errs1"
  define errs3 where
    "errs3 = report loc (map_of backends (iBackend src) = None) ''backend %s not found'' [iBackend src] errs2"
  obtain p errs4 where p: "orRecord loc (RegexErr ''invalid path regex'') None
      (map_sum id Some (Compile (iPath src))) errs3 = (p, errs4)" by fastforce
  obtain rws where rws: "populateEach (\<lambda>j. populateRewriteRuleFromIR (EnterIndex loc j)) 0 (iRewrites src) errs4
      = (rws, errs')" and rt: "rt = \<lparr>rtPath = p, rtBackend = map_of backends (iBackend src), rtRewrites = rws\<rparr>"
    using run p
    by (auto simp: populateRouteConfigFromIR_def Let_def errs1_def errs2_def errs3_def split: prod.splits)
  have 1: "length errs \<le> length errs1 \<and> (length errs1 = length errs \<longrightarrow> iPath src \<noteq> [])"
    by (auto simp: errs1_def)
  have 2: "length errs1 \<le> length errs2" by (simp add: errs2_def)
  have 3: "length errs2 \<le> length errs3"
    "length errs3 = length errs2 \<longleftrightarrow> map_of backends (iBackend src) \<noteq> None"
    by (simp_all add: errs3_def)
  have 4: "length errs4 \<le> length errs' \<and>
      (length errs' = length errs4 \<longrightarrow> list_all2 rewrite_ok (iRewrites src) rws)"
    using ok_runD [OF ok_each rws] ok_rewrite by blast
  from 1 2 3 4 ok_runD [OF ok_orRecord p]
  show "length errs \<le> length errs' \<and> (length errs' = length errs \<longrightarrow> route_ok backends src rt)"
    by (auto simp: rt route_ok_def map_sum_def split: sum.splits)
qed

lemma ok_bucket: "ok_run (populateBucketConfigFromIR loc backends src) (bucket_ok backends src)"
proof (rule ok_runI)
  fix errs bk errs'
  assume "populateBucketConfigFromIR loc backends src errs = (bk, errs')"
  then obtain rts where r: "populateEach (\<lambda>i. populateRouteConfigFromIR (EnterIndex (Enter loc ''Routes'') i) backends) 0
      (iRoutes src) (report (Enter loc ''Routes'') (iRoutes src = []) ''no routes defined'' []
        (report (Enter loc ''Name'') (iName src = []) ''bucket name is required'' [] errs)) = (rts, errs')"
    and bk: "bk = \<lparr>bkName = iName src, bkRoutes = rts\<rparr>"
    by (auto simp: populateBucketConfigFromIR_def buildRouteConfigsFromIR_def Let_def split: prod.splits)
  define e1 where "e1 = report (Enter loc ''Name'') (iName src = []) ''bucket name is required'' [] errs"
  define e2 where "e2 = report (Enter loc ''Routes'') (iRoutes src = []) ''no routes defined'' [] e1"
  have "length e2 \<le> length errs' \<and>
      (length errs' = length e2 \<longrightarrow> list_all2 (route_ok backends) (iRoutes src) rts)"
    using ok_runD [OF ok_each r] ok_route unfolding e1_def e2_def by blast
  moreover have "length errs \<le> length e1" "length e1 = length errs \<longleftrightarrow> iName src \<noteq> []"
    "length e1 \<le> length e2" "length e2 = length e1 \<longleftrightarrow> iRoutes src \<noteq> []"
    by (simp_all add: e1_def e2_def)
  ultimately show "length errs \<le> length errs' \<and> (length errs' = length errs \<longrightarrow> bucket_ok backends src bk)"
    by (auto simp: bk bucket_ok_def)
qed

subsection \<open>Properties\<close>

text \<open>
  What the rest of the router relies on: every bucket has a name and a route, every route has a
  compiled pattern, a backend of the configuration and rewrites with parsed templates.
\<close>

definition valid_bucket :: "(string \<times> backend_config) list \<Rightarrow> bucket_config \<Rightarrow> bool" where
  "valid_bucket backends bk \<longleftrightarrow> bkName bk \<noteq> [] \<and> bkRoutes bk \<noteq> [] \<and>
     (\<forall>rt \<in> set (bkRoutes bk). rtPath rt \<noteq> None \<and>
        (\<exists>k b. rtBackend rt = Some b \<and> map_of backends k = Some b) \<and>
        (\<forall>rw \<in> set (rtRewrites rt). rwResult rw \<noteq> None))"

definition valid_credentials :: "credentials_config \<Rightarrow> bool" where
  "valid_credentials c \<longleftrightarrow>
     cType c = ''file'' \<and> cPath c \<noteq> [] \<or>
     cType c = ''aws-secrets-manager'' \<and> cSecretName c \<noteq> [] \<or>
     cType c = ''inline'' \<and> cAccessKeyID c \<noteq> [] \<and> cSecretAccessKey c \<noteq> []"

definition valid_backend :: "string \<Rightarrow> backend_config \<Rightarrow> bool" where
  "valid_backend k b \<longleftrightarrow> bID b = k \<and> bBucket b \<noteq> [] \<and> (\<forall>c. bCredentials b = Some c \<longrightarrow> valid_credentials c)"

definition valid_config :: "config \<Rightarrow> bool" where
  "valid_config cfg \<longleftrightarrow> cfgBackends cfg \<noteq> [] \<and> cfgBuckets cfg \<noteq> [] \<and>
     (\<forall>(k, b) \<in> set (cfgBackends cfg). valid_backend k b) \<and>
     (\<forall>(n, bk) \<in> set (cfgBuckets cfg). bkName bk = n \<and> valid_bucket (cfgBackends cfg) bk)"

lemma list_all2_right: "list_all2 P xs ys \<Longrightarrow> y \<in> set ys \<Longrightarrow> \<exists>x \<in> set xs. P x y"
  by (induction rule: list_all2_induct) auto

lemma route_ok_valid:
  assumes "route_ok backends src rt"
  shows "rtPath rt \<noteq> None \<and> (\<exists>k b. rtBackend rt = Some b \<and> map_of backends k = Some b) \<and>
    (\<forall>rw \<in> set (rtRewrites rt). rwResult rw \<noteq> None)"
proof -
  have "rwResult rw \<noteq> None" if "rw \<in> set (rtRewrites rt)" for rw
    using assms that list_all2_right [of rewrite_ok] by (fastforce simp: route_ok_def rewrite_ok_def)
  with assms show ?thesis unfolding route_ok_def by blast
qed

lemma bucket_ok_valid:
  assumes "bucket_ok backends src bk"
  shows "valid_bucket backends bk"
proof -
  have "\<exists>src. route_ok backends src rt" if "rt \<in> set (bkRoutes bk)" for rt
    using assms that list_all2_right [of "route_ok backends"] unfolding bucket_ok_def by blast
  moreover have "bkRoutes bk \<noteq> []" "bkName bk \<noteq> []"
    using assms by (auto simp: bucket_ok_def)
  ultimately show ?thesis unfolding valid_bucket_def using route_ok_valid by meson
qed

lemma fold_update_set:
  "(n, b) \<in> set (fold (\<lambda>b m. AList.update (key b) b m) bs m) \<Longrightarrow> (n, b) \<in> set m \<or> (b \<in> set bs \<and> key b = n)"
proof (induction bs arbitrary: m)
  case (Cons c bs)
  have "(n, b) \<in> set (AList.update k v al) \<Longrightarrow> (n, b) \<in> set al \<or> (n = k \<and> b = v)" for k v al
    by (induction al) (auto split: if_splits)
  with Cons show ?case by fastforce
qed simp

lemma update_nonempty: "AList.update k v m \<noteq> []"
  by (cases m) auto

lemma fold_update_nonempty:
  "bs \<noteq> [] \<or> m \<noteq> [] \<Longrightarrow> fold (\<lambda>b m. AList.update (key b) b m) bs m \<noteq> []"
  by (induction bs arbitrary: m) (auto simp: update_nonempty)

lemma assume_role_le [simp]:
  "length errs \<le> length (snd (buildCredentialsAssumeRoleFromIR loc a errs))"
  by (auto simp: buildCredentialsAssumeRoleFromIR_def split_def Let_def
      intro: order_trans [OF report_le orRecord_le])

lemma byType_le: "length errs \<le> length (snd (credentialsByType loc src errs))"
  by (auto simp: credentialsByType_def Let_def intro: order_trans [OF report_le report_le])

lemma credentials_le:
  "length (snd (credentialsByType loc src errs)) \<le> length (snd (populateCredentialsConfigFromIR loc src errs))"
  by (auto simp: populateCredentialsConfigFromIR_def split_def Let_def split: option.splits)

lemma byType_ok_iff:
  "snd (credentialsByType loc src errs) = errs \<longleftrightarrow>
     (iType src = ''file'' \<and> iCredPath src \<noteq> []) \<or>
     (iType src = ''aws-secrets-manager'' \<and> iSecretName src \<noteq> []) \<or>
     (iType src = ''inline'' \<and> iAccessKeyID src \<noteq> [] \<and> iSecretAccessKey src \<noteq> [])"
  by (auto simp: credentialsByType_def Let_def report_def AppendErr_def)

lemma byType_valid:
  "length (snd (credentialsByType loc src errs)) = length errs \<Longrightarrow>
     valid_credentials (fst (credentialsByType loc src errs))"
  by (auto simp: credentialsByType_def Let_def valid_credentials_def report_def AppendErr_def split: if_splits)

lemma ok_credentials: "ok_run (populateCredentialsConfigFromIR loc src) valid_credentials"
proof (rule ok_runI)
  fix errs c errs'
  assume run: "populateCredentialsConfigFromIR loc src errs = (c, errs')"
  have le: "length errs \<le> length (snd (credentialsByType loc src errs))"
    "length (snd (credentialsByType loc src errs)) \<le> length errs'"
    using byType_le credentials_le [of loc src errs] run by auto
  moreover have "valid_credentials c = valid_credentials (fst (credentialsByType loc src errs))"
    using run by (auto simp: populateCredentialsConfigFromIR_def valid_credentials_def split_def Let_def
        split: option.splits)
  ultimately show "length errs \<le> length errs' \<and> (length errs' = length errs \<longrightarrow> valid_credentials c)"
    using byType_valid [of loc src errs] by simp
qed

lemma ok_backend: "ok_run (populateBackendConfigFromIR loc k src) (valid_backend k)"
proof (rule ok_runI)
  fix errs b errs'
  assume run: "populateBackendConfigFromIR loc k src errs = (b, errs')"
  define e1 where "e1 = report (Enter loc ''Bucket'') (iBucket src = []) ''bucket is required'' [] errs"
  define t where "t = (if iTimeout src = [] then (Second * 60, e1)
     else orRecord (Enter loc ''Timeout'') (ValueErr ''failed to parse duration'') 0
            (parseDuration (AString (iTimeout src))) e1)"
  have "length errs \<le> length e1" "length e1 = length errs \<longleftrightarrow> iBucket src \<noteq> []"
    by (simp_all add: e1_def)
  moreover have "length e1 \<le> length (snd t)" by (simp add: t_def)
  moreover have "length (snd t) \<le> length errs' \<and> bID b = k \<and> bBucket b = iBucket src \<and>
      (length errs' = length (snd t) \<longrightarrow> (\<forall>c. bCredentials b = Some c \<longrightarrow> valid_credentials c))"
  proof (cases "iCredentials src")
    case None
    with run show ?thesis
      unfolding populateBackendConfigFromIR_def Let_def split_def e1_def [symmetric] t_def [symmetric] by auto
  next
    case (Some cs)
    with run show ?thesis
      using ok_runD [OF ok_credentials, of "Enter loc ''Credentials''" cs "snd t", OF prod.collapse [symmetric]]
      unfolding populateBackendConfigFromIR_def Let_def split_def e1_def [symmetric] t_def [symmetric] by auto
  qed
  ultimately show "length errs \<le> length errs' \<and> (length errs' = length errs \<longrightarrow> valid_backend k b)"
    unfolding valid_backend_def by auto
qed

lemma ok_backends:
  "ok_run (buildBackendConfigsFromIR loc src) (\<lambda>bs. bs \<noteq> [] \<and> (\<forall>(k, b) \<in> set bs. valid_backend k b))"
proof (cases "src = []")
  case True
  then show ?thesis by (auto simp: ok_run_def buildBackendConfigsFromIR_def AppendErr_def)
next
  case False
  have "ok_run (\<lambda>errs. let (c, errs') = populateBackendConfigFromIR (EnterKey loc k) k b errs in ((k, c), errs'))
      (\<lambda>(k', c). valid_backend k' c)" for k b
    using ok_backend by (fastforce simp: ok_run_def split: prod.splits)
  then have "ok_run (populateEach (\<lambda>i (k, b) errs. let (c, errs') = populateBackendConfigFromIR (EnterKey loc k) k b errs
      in ((k, c), errs')) 0 src) (list_all2 (\<lambda>_ (k, c). valid_backend k c) src)"
    by (intro ok_each) (auto split: prod.splits)
  then have "ok_run (buildBackendConfigsFromIR loc src) (list_all2 (\<lambda>_ (k, c). valid_backend k c) src)"
    using False by (simp add: buildBackendConfigsFromIR_def ok_run_def)
  then show ?thesis
  proof (rule ok_mono)
    fix bs assume l: "list_all2 (\<lambda>_ (k, c). valid_backend k c) src bs"
    show "bs \<noteq> [] \<and> (\<forall>(k, b) \<in> set bs. valid_backend k b)"
      using False l list_all2_right [OF l] by auto
  qed
qed

lemma ok_buckets:
  "ok_run (buildBucketConfigsFromIR loc backends src)
     (\<lambda>bks. bks \<noteq> [] \<and> (\<forall>(n, bk) \<in> set bks. bkName bk = n \<and> valid_bucket backends bk))"
proof (rule ok_runI)
  fix errs bks errs'
  assume run: "buildBucketConfigsFromIR loc backends src errs = (bks, errs')"
  show "length errs \<le> length errs' \<and> (length errs' = length errs \<longrightarrow>
      bks \<noteq> [] \<and> (\<forall>(n, bk) \<in> set bks. bkName bk = n \<and> valid_bucket backends bk))"
  proof (cases "src = []")
    case True
    with run show ?thesis by (auto simp: buildBucketConfigsFromIR_def AppendErr_def)
  next
    case False
    with run obtain bs where
      e: "populateEach (\<lambda>i (name, b). populateBucketConfigFromIR (EnterKey loc name) backends b) 0 src errs = (bs, errs')"
      and bks: "bks = fold (\<lambda>b m. AList.update (bkName b) b m) bs []"
      by (auto simp: buildBucketConfigsFromIR_def split: prod.splits)
    have "ok_run (populateEach (\<lambda>i (name, b). populateBucketConfigFromIR (EnterKey loc name) backends b) 0 src)
        (list_all2 (\<lambda>(n, b). bucket_ok backends b) src)"
      by (intro ok_each) (auto intro: ok_bucket split: prod.splits)
    from ok_runD [OF this e] have "length errs \<le> length errs'"
      and "length errs' = length errs \<Longrightarrow> list_all2 (\<lambda>(n, b). bucket_ok backends b) src bs" by auto
    moreover have "bks \<noteq> [] \<and> (\<forall>(n, bk) \<in> set bks. bkName bk = n \<and> valid_bucket backends bk)"
      if l: "list_all2 (\<lambda>(n, b). bucket_ok backends b) src bs"
    proof
      have "bs \<noteq> []" using l False by auto
      then show "bks \<noteq> []" by (simp add: bks fold_update_nonempty)
      have "valid_bucket backends b" if "b \<in> set bs" for b
        using list_all2_right [OF l that] bucket_ok_valid by auto
      then show "\<forall>(n, bk) \<in> set bks. bkName bk = n \<and> valid_bucket backends bk"
        using fold_update_set [of _ _ bkName bs "[]"] by (auto simp: bks)
    qed
    ultimately show ?thesis by blast
  qed
qed

lemma optional_le:
  "(\<And>x errs. length errs \<le> length (snd (f x errs))) \<Longrightarrow> populateOptional f x errs = (y, errs') \<Longrightarrow>
     length errs \<le> length errs'"
  by (cases x) (auto split: prod.splits, metis snd_conv)

lemma server_le: "length errs \<le> length (snd (buildServerConfigFromIR loc src errs))"
  by (auto simp: buildServerConfigFromIR_def Let_def split_def intro!: order_trans [OF _ orRecord_le])

lemma auth_le: "length errs \<le> length (snd (buildAuthConfigFromIR loc src errs))"
  by (auto simp: buildAuthConfigFromIR_def Let_def split_def)

lemma vhosts_le: "length errs \<le> length (snd (buildVirtualHostConfigFromIR loc src errs))"
  using populateHosts_mono by (auto simp: buildVirtualHostConfigFromIR_def Let_def split_def)

lemma populate_valid:
  assumes "PopulateFromIR read src = Inr cfg"
  shows "valid_config cfg"
proof -
  from assms have run: "populateConfigFromIR read src [] = (cfg, [])"
    by (auto simp: PopulateFromIR_def split: prod.splits if_splits)
  obtain bs e1 where 1: "buildBackendConfigsFromIR (Enter [] ''Backends'') (iBackends src) [] = (bs, e1)" by fastforce
  obtain bks e2 where 2: "buildBucketConfigsFromIR (Enter [] ''Buckets'') bs (iBuckets src) e1 = (bks, e2)" by fastforce
  obtain st e3 where 3: "populateStore read (Enter [] ''CredentialsStore'') (iCredentialsStore src) e2 = (st, e3)"
    by fastforce
  obtain sv e4 where 4: "populateOptional (buildServerConfigFromIR (Enter [] ''Server'')) (iServer src) e3 = (sv, e4)"
    by fastforce
  obtain au e5 where 5: "populateOptional (buildAuthConfigFromIR (Enter [] ''Auth'')) (iAuth src) e4 = (au, e5)"
    by fastforce
  obtain vh e6 where
    6: "populateOptional (buildVirtualHostConfigFromIR (Enter [] ''VirtualHosts'')) (iVirtualHosts src) e5 = (vh, e6)"
    by fastforce
  have "populateConfigFromIR read src [] =
      (\<lparr>cfgBackends = bs, cfgBuckets = bks, cfgFeatures = iFeatures src, cfgCredentialsStore = st,
        cfgServer = sv, cfgAuth = au, cfgVirtualHosts = vh\<rparr>, e6)"
    unfolding populateConfigFromIR_def 1 Let_def prod.case 2 3 4 5 6 by (rule refl)
  with run have cfg: "cfgBackends cfg = bs" "cfgBuckets cfg = bks" "e6 = []" by auto
  have "length e2 \<le> length e3"
    using orRecord_le 3 unfolding populateStore_def by (metis le_refl prod.inject snd_conv)
  with optional_le [OF server_le 4] optional_le [OF auth_le 5] optional_le [OF vhosts_le 6] cfg(3)
  have "e2 = []" by simp
  moreover from this have "e1 = []" using ok_runD [OF ok_buckets 2] by simp
  ultimately show ?thesis
    using ok_runD [OF ok_buckets 2] ok_runD [OF ok_backends 1]
    unfolding valid_config_def cfg(1,2) by simp
qed

text \<open>
  C16: a configuration that is accepted is valid: backends and buckets exist and are keyed by
  their own names, every backend has a bucket and, if it names credentials, the fields their type
  requires, and every route of every bucket has a compiled pattern, a backend that is in the
  configuration, and rewrites whose templates parsed.
\<close>

theorem accepted_config_valid:
  "PopulateFromIR read src = Inr cfg \<Longrightarrow> valid_config cfg"
  by (rule populate_valid)

definition sample_ir :: ir_config where
  "sample_ir = \<lparr>iBackends = [(''b1'', \<lparr>iEndpoint = [], iRegion = ''us-east-1'', iBucket = ''phys'', iPrefix = ''p/'',
      iTimeout = ''30s'', iRetries = 0, iUsePathStyle = True, iUseFIPS = False, iUseGlobalEndpoint = False,
      iUseDualStack = False, iAccelerate = False, iCredentials = None\<rparr>)],
    iBuckets = [(''media'', \<lparr>iName = ''media'', iRoutes = [\<lparr>iPath = ''^img/'', iBackend = ''b1'',
      iRewrites = [\<lparr>iPattern = [], iResult = ''new/$0''\<rparr>]\<rparr>]\<rparr>)],
    iFeatures = [], iCredentialsStore = [], iServer = None, iAuth = None, iVirtualHosts = None\<rparr>"

theorem accepted_config_valid_witness:
  "\<exists>cfg. PopulateFromIR (\<lambda>_. Inl []) sample_ir = Inr cfg \<and> valid_config cfg"
proof -
  have "case PopulateFromIR (\<lambda>_. Inl []) sample_ir of Inr _ \<Rightarrow> True | Inl _ \<Rightarrow> False" by code_simp
  then obtain cfg where "PopulateFromIR (\<lambda>_. Inl []) sample_ir = Inr cfg" by (auto split: sum.splits)
  with accepted_config_valid show ?thesis by blast
qed

text \<open>What is made of a setting: a positive value stays, everything else becomes the default.\<close>

definition positiveSetting :: "int \<Rightarrow> 'e + int \<Rightarrow> int" where
  "positiveSetting d r = (case r of Inr x \<Rightarrow> if 0 < x then x else d | Inl _ \<Rightarrow> d)"

lemma positiveOr_setting: "positiveOr d (fst (orRecord loc m 0 r errs)) = positiveSetting d r"
  by (auto simp: positiveOr_def orRecord_def positiveSetting_def split: sum.split)

lemma positiveSetting_pos: "0 < d \<Longrightarrow> 0 < positiveSetting d r"
  by (simp add: positiveSetting_def split: sum.split)

definition errorCount :: "'e + 'a \<Rightarrow> nat" where
  "errorCount r = (case r of Inl _ \<Rightarrow> 1 | Inr _ \<Rightarrow> 0)"

lemma orRecord_length: "length (snd (orRecord loc m d r errs)) = length errs + errorCount r"
  by (simp add: orRecord_def errorCount_def AppendErr_def split: sum.split)

lemma missing_setting:
  "errorCount (parseDuration ANil) = 1 \<and> errorCount (parseBytes ANil) = 1 \<and> errorCount (parseCount ANil) = 1"
  by (simp add: errorCount_def parseDuration_def parseBytes_def parseCount_def)

text \<open>
  C38: the server settings that are built from a configuration, whatever it holds: a timeout or body limit
  that can be read and is positive stays as it is, and 15 s for reading, 15 s for writing, 60 s for idle
  connections and 4 GiB for bodies replace every other; a cache size stays unless it cannot be read or is
  0, and is 1000 then, so that a size of 0 does not turn the cache off.  The timeouts and the limit are
  therefore positive and the cache size is not 0.  Every one of the five that cannot be read is recorded
  as one error, and a setting that is missing is one that cannot be read.
\<close>

theorem server_settings_positive:
  assumes "buildServerConfigFromIR loc src errs = (s, errs')"
  shows "sReadTimeout s = positiveSetting (15 * Second) (parseDuration (iReadTimeout src)) \<and>
    sWriteTimeout s = positiveSetting (15 * Second) (parseDuration (iWriteTimeout src)) \<and>
    sIdleTimeout s = positiveSetting (60 * Second) (parseDuration (iIdleTimeout src)) \<and>
    sMaxBodySize s = positiveSetting (4 * 1024 * 1024 * 1024) (parseBytes (iMaxBodySize src)) \<and>
    sRouteCacheSize s = (case parseCount (iRouteCacheSize src) of Inr n \<Rightarrow> if n = 0 then 1000 else n | Inl _ \<Rightarrow> 1000) \<and>
    0 < sReadTimeout s \<and> 0 < sWriteTimeout s \<and> 0 < sIdleTimeout s \<and> 0 < sMaxBodySize s \<and> sRouteCacheSize s \<noteq> 0 \<and>
    length errs' = length errs + errorCount (parseDuration (iReadTimeout src)) + errorCount (parseDuration (iWriteTimeout src)) +
      errorCount (parseDuration (iIdleTimeout src)) + errorCount (parseBytes (iMaxBodySize src)) +
      errorCount (parseCount (iRouteCacheSize src)) \<and>
    (ANil \<in> {iReadTimeout src, iWriteTimeout src, iIdleTimeout src, iMaxBodySize src, iRouteCacheSize src} \<longrightarrow>
      length errs < length errs')"
proof -
  have s: "s = fst (buildServerConfigFromIR loc src errs)" and e: "errs' = snd (buildServerConfigFromIR loc src errs)"
    using assms by simp_all
  have len: "length errs' = length errs + errorCount (parseDuration (iReadTimeout src)) +
      errorCount (parseDuration (iWriteTimeout src)) + errorCount (parseDuration (iIdleTimeout src)) +
      errorCount (parseBytes (iMaxBodySize src)) + errorCount (parseCount (iRouteCacheSize src))"
    unfolding e by (simp add: buildServerConfigFromIR_def Let_def split_def orRecord_length)
  have cache: "sRouteCacheSize s = (case parseCount (iRouteCacheSize src) of Inr n \<Rightarrow> if n = 0 then 1000 else n | Inl _ \<Rightarrow> 1000)"
    unfolding s by (simp add: buildServerConfigFromIR_def Let_def split_def orRecord_def split: sum.split)
  have rest: "sReadTimeout s = positiveSetting (15 * Second) (parseDuration (iReadTimeout src))"
    "sWriteTimeout s = positiveSetting (15 * Second) (parseDuration (iWriteTimeout src))"
    "sIdleTimeout s = positiveSetting (60 * Second) (parseDuration (iIdleTimeout src))"
    "sMaxBodySize s = positiveSetting (4 * 1024 * 1024 * 1024) (parseBytes (iMaxBodySize src))"
    unfolding s by (simp_all add: buildServerConfigFromIR_def Let_def split_def positiveOr_setting)
  have "ANil \<in> {iReadTimeout src, iWriteTimeout src, iIdleTimeout src, iMaxBodySize src, iRouteCacheSize src} \<longrightarrow>
      length errs < length errs'"
    unfolding len using missing_setting by auto
  with len cache rest show ?thesis
    by (simp add: positiveSetting_pos Second_def split: sum.split)
qed

theorem server_settings_positive_witness:
  "let (s, errs) = buildServerConfigFromIR [] \<lparr>iReadTimeout = ANil, iWriteTimeout = AInt 0, iIdleTimeout = AString ''1m'',
       iMaxBodySize = AInt64 5, iRouteCacheSize = AInt 0\<rparr> []
   in sReadTimeout s = 15 * Second \<and> sWriteTimeout s = 15 * Second \<and> 0 < sIdleTimeout s \<and> sRouteCacheSize s \<noteq> 0 \<and> 0 < length errs"
  using server_settings_positive [of "[]" "\<lparr>iReadTimeout = ANil, iWriteTimeout = AInt 0, iIdleTimeout = AString ''1m'',
       iMaxBodySize = AInt64 5, iRouteCacheSize = AInt 0\<rparr>" "[]"]
  by (cases "buildServerConfigFromIR [] \<lparr>iReadTimeout = ANil, iWriteTimeout = AInt 0, iIdleTimeout = AString ''1m'',
       iMaxBodySize = AInt64 5, iRouteCacheSize = AInt 0\<rparr> []")
    (simp add: positiveSetting_def parseDuration_def wrap64_id)

lemma byType_region: "cRegion (fst (credentialsByType loc src errs)) = []"
  by (simp add: credentialsByType_def Let_def emptyCredentials_def)

text \<open>
  A credentials section is accepted exactly when its type is \<open>file\<close>, \<open>aws-secrets-manager\<close>
  or \<open>inline\<close> with the fields the type requires; in particular the type \<open>default\<close> is rejected.
  The region of the section never reaches the result.
\<close>

theorem credentials_accepted_iff:
  assumes "populateCredentialsConfigFromIR loc src errs = (c, errs')" "iAssumeRole src = None"
  shows "(errs' = errs \<longleftrightarrow>
       (iType src = ''file'' \<and> iCredPath src \<noteq> []) \<or>
       (iType src = ''aws-secrets-manager'' \<and> iSecretName src \<noteq> []) \<or>
       (iType src = ''inline'' \<and> iAccessKeyID src \<noteq> [] \<and> iSecretAccessKey src \<noteq> [])) \<and>
    cRegion c = []"
proof -
  have "(c, errs') = credentialsByType loc src errs"
    using assms by (simp add: populateCredentialsConfigFromIR_def Let_def split_def)
  with byType_ok_iff [of loc src errs] byType_region [of loc src errs] show ?thesis
    by (metis fst_conv snd_conv)
qed

theorem credentials_accepted_iff_witness:
  "snd (populateCredentialsConfigFromIR [] \<lparr>iType = ''default'', iCredPath = [], iSecretName = [], iCredRegion = ''eu'',
      iAssumeRole = None, iAccessKeyID = [], iSecretAccessKey = [], iSessionToken = []\<rparr> []) \<noteq> []"
  using credentials_accepted_iff [OF prod.collapse [symmetric],
      of "\<lparr>iType = ''default'', iCredPath = [], iSecretName = [], iCredRegion = ''eu'',
        iAssumeRole = None, iAccessKeyID = [], iSecretAccessKey = [], iSessionToken = []\<rparr>" "[]" "[]"]
  by simp

end
