(* ===== verification/Routing.thy ===== *)
theory Routing
  imports Config
begin

section \<open>Routing a request\<close>

text \<open>
  \<open>internal/routing/matcher.go\<close>: the first route of the bucket whose pattern matches the key gives
  the backend and, through its rewrites, the key at the backend.  Decisions are cached in a
  third-party LRU cache, which is a record of operations here; what the matcher relies on is stated
  as \<open>cache_laws\<close>.  Operations that use the cache return it updated (a look-up moves its entry to
  the front).
\<close>

subsection \<open>Decisions and the cache\<close>

record decision =
  dBackend :: "backend_config option"
  dRewrittenKey :: string
  dOriginalKey :: string
  dRouteIndex :: nat

record 'c cache_ops =
  cacheGet :: "'c \<Rightarrow> string \<Rightarrow> decision option \<times> 'c"
  cacheAdd :: "'c \<Rightarrow> string \<Rightarrow> decision \<Rightarrow> 'c"
  cachePurge :: "'c \<Rightarrow> 'c"
  cacheNew :: "int \<Rightarrow> string + 'c"

text \<open>
  The documented behaviour of the cache, with \<open>contents\<close> what it holds: a look-up returns what is
  held and adds nothing, adding adds at most that entry, and any operation may evict others.
\<close>

definition cache_laws :: "'c cache_ops \<Rightarrow> ('c \<Rightarrow> string \<rightharpoonup> decision) \<Rightarrow> bool" where
  "cache_laws ops contents \<longleftrightarrow>
     (\<forall>c k. fst (cacheGet ops c k) = contents c k \<and> contents (snd (cacheGet ops c k)) \<subseteq>\<^sub>m contents c) \<and>
     (\<forall>c k d. contents (cacheAdd ops c k d) \<subseteq>\<^sub>m (contents c)(k \<mapsto> d)) \<and>
     (\<forall>c. contents (cachePurge ops c) = Map.empty) \<and>
     (\<forall>n c. cacheNew ops n = Inr c \<longrightarrow> contents c = Map.empty)"

record 'c matcher =
  mBuckets :: "(string \<times> bucket_config) list"
  mCache :: "'c option"

definition NewMatcher :: "'c cache_ops \<Rightarrow> config \<Rightarrow> int \<Rightarrow> string + 'c matcher" where
  "NewMatcher ops cfg cacheSize =
     (if cacheSize > 0 then
        (case cacheNew ops cacheSize of
           Inl e \<Rightarrow> Inl (''failed to create LRU cache: '' @ e)
         | Inr c \<Rightarrow> Inr \<lparr>mBuckets = cfgBuckets cfg, mCache = Some c\<rparr>)
      else Inr \<lparr>mBuckets = cfgBuckets cfg, mCache = None\<rparr>)"

subsection \<open>Captures and substitution\<close>

definition piece :: "string \<Rightarrow> nat \<times> nat \<Rightarrow> string" where
  "piece s m = take (snd m - fst m) (drop (fst m) s)"

text \<open>The named groups of a match, added to the captures so far.\<close>

definition addCaptures ::
  "string list \<Rightarrow> (nat \<times> nat) option list \<Rightarrow> string \<Rightarrow> (string \<rightharpoonup> string) \<Rightarrow> (string \<rightharpoonup> string)" where
  "addCaptures names ms key captures =
     fold (\<lambda>i caps.
        if 0 < i \<and> i < length ms \<and> names ! i \<noteq> [] then
          (case ms ! i of Some m \<Rightarrow> caps(names ! i \<mapsto> piece key m) | None \<Rightarrow> caps)
        else caps) [0..<length names] captures"

text \<open>
  The numbered captures: one per group and a spare empty one.  A group that took no part has the
  index \<open>-1\<close>, and slicing there panics.
\<close>

fun indexedPieces :: "string \<Rightarrow> (nat \<times> nat) option list \<Rightarrow> string list option" where
  "indexedPieces key [] = Some [[]]"
| "indexedPieces key (None # ms) = None"
| "indexedPieces key (Some m # ms) = map_option (Cons (piece key m)) (indexedPieces key ms)"

definition substituteCaptures ::
  "template option \<Rightarrow> (string \<rightharpoonup> string) \<Rightarrow> (nat \<times> nat) option list \<Rightarrow> string \<Rightarrow> string option" where
  "substituteCaptures t captures ms originalKey =
     (case (if ms = [] then Some [] else indexedPieces originalKey ms) of
        None \<Rightarrow> None
      | Some pieces \<Rightarrow>
          (case t of
             None \<Rightarrow> None
           | Some tmpl \<Rightarrow>
               Some (Execute tmpl (SetIndexedAllBorrow pieces (SetNamedMapBorrow captures NewPlaceholders)))))"

text \<open>The rewrites one after the other, on the key and the captures so far; \<^const>\<open>None\<close> is a panic.\<close>

fun applyRewrites ::
  "string \<Rightarrow> (nat \<times> nat) option list \<Rightarrow> rewrite_rule list \<Rightarrow> string \<Rightarrow> (string \<rightharpoonup> string) \<Rightarrow> string option" where
  "applyRewrites objectKey ms [] key captures = Some key"
| "applyRewrites objectKey ms (rw # rws) key captures =
     (case rwPattern rw of
        Some re \<Rightarrow>
          (case FindStringSubmatchIndex re key of
             None \<Rightarrow> applyRewrites objectKey ms rws key captures
           | Some sub \<Rightarrow>
               (let captures' = addCaptures (re_names re) sub key captures in
                case substituteCaptures (rwResult rw) captures' sub key of
                  None \<Rightarrow> None
                | Some key' \<Rightarrow> applyRewrites objectKey ms rws key' captures'))
      | None \<Rightarrow>
          (case substituteCaptures (rwResult rw) captures ms objectKey of
             None \<Rightarrow> None
           | Some key' \<Rightarrow> applyRewrites objectKey ms rws key' captures))"

definition rewrite ::
  "string \<Rightarrow> regexp \<Rightarrow> (nat \<times> nat) option list \<Rightarrow> rewrite_rule list \<Rightarrow> string option" where
  "rewrite objectKey pathRegex ms rewrites =
     applyRewrites objectKey ms rewrites objectKey
       (addCaptures (re_names pathRegex) ms objectKey Map.empty)"

subsection \<open>Match\<close>

datatype match_error = BucketNotFound string | NoMatchingRoute string string

definition cacheKey :: "string \<Rightarrow> string \<Rightarrow> string \<Rightarrow> string" where
  "cacheKey bucket key method = bucket @ '':'' @ key @ '':'' @ method"

text \<open>The loop over the routes, from index \<open>i\<close>; a nil pattern panics.\<close>

fun matchRoutes :: "nat \<Rightarrow> route_config list \<Rightarrow> string \<Rightarrow> unit fault + decision option" where
  "matchRoutes i [] key = Inr None"
| "matchRoutes i (rt # rts) key =
     (case rtPath rt of
        None \<Rightarrow> Inl Panicked
      | Some re \<Rightarrow>
          (case FindStringSubmatchIndex re key of
             None \<Rightarrow> matchRoutes (Suc i) rts key
           | Some ms \<Rightarrow>
               (case rewrite key re ms (rtRewrites rt) of
                  None \<Rightarrow> Inl Panicked
                | Some rewritten \<Rightarrow>
                    Inr (Some \<lparr>dBackend = rtBackend rt, dRewrittenKey = rewritten, dOriginalKey = key,
                              dRouteIndex = i\<rparr>))))"

definition Match ::
  "'c cache_ops \<Rightarrow> 'c matcher \<Rightarrow> string \<Rightarrow> string \<Rightarrow> string
     \<Rightarrow> (match_error fault + decision) \<times> 'c matcher" where
  "Match ops m bucket objectKey method =
     (case map_of (mBuckets m) bucket of
        None \<Rightarrow> (Inl (Failed (BucketNotFound bucket)), m)
      | Some br \<Rightarrow>
          (let ck = cacheKey bucket objectKey method;
               (hit, m1) =
                 (case mCache m of
                    None \<Rightarrow> (None, m)
                  | Some c \<Rightarrow> (let (d, c') = cacheGet ops c ck in (d, m\<lparr>mCache := Some c'\<rparr>)))
           in case hit of
                Some d \<Rightarrow> (Inr d, m1)
              | None \<Rightarrow>
                  (case matchRoutes 0 (bkRoutes br) objectKey of
                     Inl _ \<Rightarrow> (Inl Panicked, m1)
                   | Inr None \<Rightarrow> (Inl (Failed (NoMatchingRoute bucket objectKey)), m1)
                   | Inr (Some d) \<Rightarrow>
                       (Inr d, (case mCache m1 of
                                  None \<Rightarrow> m1
                                | Some c \<Rightarrow> m1\<lparr>mCache := Some (cacheAdd ops c ck d)\<rparr>)))))"

definition InvalidateCache :: "'c cache_ops \<Rightarrow> 'c matcher \<Rightarrow> 'c matcher" where
  "InvalidateCache ops m =
     (case mCache m of None \<Rightarrow> m | Some c \<Rightarrow> m\<lparr>mCache := Some (cachePurge ops c)\<rparr>)"

text \<open>A sequence of look-ups, each a bucket, a key and a method.\<close>

fun matchAll ::
  "'c cache_ops \<Rightarrow> (string \<times> string \<times> string) list \<Rightarrow> 'c matcher \<Rightarrow> (match_error fault + decision) list" where
  "matchAll ops [] m = []"
| "matchAll ops ((b, k, meth) # rs) m =
     (let (r, m') = Match ops m b k meth in r # matchAll ops rs m')"

subsection \<open>The first matching route\<close>

definition pathMatches :: "route_config \<Rightarrow> string \<Rightarrow> bool" where
  "pathMatches rt key \<longleftrightarrow> (\<exists>re. rtPath rt = Some re \<and> MatchString re key)"

lemma matchRoutes_Some:
  "matchRoutes i rts key = Inr (Some d) \<Longrightarrow>
     i \<le> dRouteIndex d \<and> dRouteIndex d - i < length rts \<and> dOriginalKey d = key \<and>
     (let rt = rts ! (dRouteIndex d - i) in
        pathMatches rt key \<and> dBackend d = rtBackend rt \<and> (rtRewrites rt = [] \<longrightarrow> dRewrittenKey d = key)) \<and>
     (\<forall>j < dRouteIndex d - i. \<not> pathMatches (rts ! j) key)"
proof (induction i rts key rule: matchRoutes.induct)
  case (2 i rt rts key)
  then obtain re where re: "rtPath rt = Some re" by (auto split: option.splits)
  show ?case
  proof (cases "FindStringSubmatchIndex re key")
    case None
    with 2 re have IH: "Suc i \<le> dRouteIndex d \<and> dRouteIndex d - Suc i < length rts \<and> dOriginalKey d = key \<and>
     (let rt = rts ! (dRouteIndex d - Suc i) in
        pathMatches rt key \<and> dBackend d = rtBackend rt \<and> (rtRewrites rt = [] \<longrightarrow> dRewrittenKey d = key)) \<and>
     (\<forall>j < dRouteIndex d - Suc i. \<not> pathMatches (rts ! j) key)" by auto
    then obtain n where n: "dRouteIndex d = Suc i + n" by (metis le_Suc_ex)
    have "\<not> pathMatches rt key" using re None by (simp add: pathMatches_def MatchString_def)
    then have "\<not> pathMatches ((rt # rts) ! j) key" if "j < Suc n" for j
      using IH that n by (cases j) auto
    with IH n show ?thesis by auto
  next
    case (Some ms)
    with 2 re show ?thesis
      by (auto simp: pathMatches_def MatchString_def rewrite_def split: option.splits)
  qed
qed simp

lemma matchRoutes_None:
  "matchRoutes i rts key = Inr None \<Longrightarrow> rt \<in> set rts \<Longrightarrow> \<not> pathMatches rt key"
  by (induction i rts key rule: matchRoutes.induct)
    (auto simp: pathMatches_def MatchString_def split: option.splits)

lemma Match_uncached:
  "mCache m = None \<Longrightarrow> fst (Match ops m b k meth) =
     (case map_of (mBuckets m) b of
        None \<Rightarrow> Inl (Failed (BucketNotFound b))
      | Some br \<Rightarrow>
          (case matchRoutes 0 (bkRoutes br) k of
             Inl _ \<Rightarrow> Inl Panicked
           | Inr None \<Rightarrow> Inl (Failed (NoMatchingRoute b k))
           | Inr (Some d) \<Rightarrow> Inr d))"
  by (auto simp: Match_def Let_def split: option.splits sum.splits)

text \<open>
  C26: without a cache, a decision comes from the first route of the bucket whose pattern matches
  the key, with that route's backend, and a route without rewrites keeps the key; and the error
  "no matching route" is returned only if no pattern matches.
\<close>

theorem match_first_route:
  assumes "mCache m = None" "map_of (mBuckets m) b = Some br"
  shows "case fst (Match ops m b k meth) of
      Inr d \<Rightarrow> dRouteIndex d < length (bkRoutes br) \<and> dOriginalKey d = k \<and>
        (let rt = bkRoutes br ! dRouteIndex d in
           pathMatches rt k \<and> dBackend d = rtBackend rt \<and> (rtRewrites rt = [] \<longrightarrow> dRewrittenKey d = k)) \<and>
        (\<forall>j < dRouteIndex d. \<not> pathMatches (bkRoutes br ! j) k)
    | Inl (Failed e) \<Rightarrow> e = NoMatchingRoute b k \<and> (\<forall>rt \<in> set (bkRoutes br). \<not> pathMatches rt k)
    | Inl Panicked \<Rightarrow> True"
  using assms matchRoutes_Some [of 0 "bkRoutes br" k] matchRoutes_None [of 0 "bkRoutes br" k]
  by (auto simp: Match_uncached split: sum.splits option.splits)

definition sample_route :: "string \<Rightarrow> route_config" where
  "sample_route p = \<lparr>rtPath = (case Compile p of Inr re \<Rightarrow> Some re | Inl _ \<Rightarrow> None), rtBackend = None, rtRewrites = []\<rparr>"

definition sample_matcher :: "'c option \<Rightarrow> 'c matcher" where
  "sample_matcher c = \<lparr>mBuckets = [(''media'', \<lparr>bkName = ''media'',
     bkRoutes = [sample_route ''^img/'', sample_route ''.*'']\<rparr>)], mCache = c\<rparr>"

text \<open>A cache that holds one entry.\<close>

definition one_entry_cache :: "(string \<times> decision) list cache_ops" where
  "one_entry_cache = \<lparr>cacheGet = (\<lambda>c k. (map_of c k, c)), cacheAdd = (\<lambda>c k d. [(k, d)]),
     cachePurge = (\<lambda>c. []), cacheNew = (\<lambda>n. Inr [])\<rparr>"

lemma one_entry_cache_laws: "cache_laws one_entry_cache map_of"
  by (auto simp: cache_laws_def one_entry_cache_def map_le_def)

theorem match_first_route_witness:
  "let br = snd (hd (mBuckets (sample_matcher None :: (string \<times> decision) list matcher))) in
   case fst (Match one_entry_cache (sample_matcher None) ''media'' ''doc/a'' ''GET'') of
      Inr d \<Rightarrow> dRouteIndex d < length (bkRoutes br) \<and> dOriginalKey d = ''doc/a'' \<and>
        (let rt = bkRoutes br ! dRouteIndex d in
           pathMatches rt ''doc/a'' \<and> dBackend d = rtBackend rt \<and> (rtRewrites rt = [] \<longrightarrow> dRewrittenKey d = ''doc/a'')) \<and>
        (\<forall>j < dRouteIndex d. \<not> pathMatches (bkRoutes br ! j) ''doc/a'')
    | Inl (Failed e) \<Rightarrow> e = NoMatchingRoute ''media'' ''doc/a'' \<and> (\<forall>rt \<in> set (bkRoutes br). \<not> pathMatches rt ''doc/a'')
    | Inl Panicked \<Rightarrow> True"
  unfolding Let_def
  by (rule match_first_route [unfolded Let_def]) (simp_all add: sample_matcher_def)

subsection \<open>The cache does not change decisions\<close>

lemma append_byte_eq:
  "c \<notin> set a \<Longrightarrow> c \<notin> set b \<Longrightarrow> a @ c # x = b @ c # y \<longleftrightarrow> a = b \<and> x = y"
  by (induction a arbitrary: b) (case_tac b; auto)+

lemma append_byte_eq_last:
  "c \<notin> set x \<Longrightarrow> c \<notin> set y \<Longrightarrow> a @ c # x = b @ c # y \<longleftrightarrow> a = b \<and> x = y"
  using append_byte_eq [of c "rev x" "rev y" "rev a" "rev b"]
  by (metis append.assoc append_Cons append_Nil rev.simps(2) rev_append rev_rev_ident set_rev)

lemma cacheKey_inj:
  assumes "CHR '':'' \<notin> set b" "CHR '':'' \<notin> set b'" "CHR '':'' \<notin> set m" "CHR '':'' \<notin> set m'"
  shows "cacheKey b k m = cacheKey b' k' m' \<longleftrightarrow> b = b' \<and> k = k' \<and> m = m'"
  using append_byte_eq [OF assms(1,2)] append_byte_eq_last [OF assms(3,4)]
  by (simp add: cacheKey_def)

definition coherent :: "(string \<times> bucket_config) list \<Rightarrow> (string \<rightharpoonup> decision) \<Rightarrow> bool" where
  "coherent buckets cont \<longleftrightarrow>
     (\<forall>b k meth d. CHR '':'' \<notin> set b \<longrightarrow> CHR '':'' \<notin> set meth \<longrightarrow> cont (cacheKey b k meth) = Some d \<longrightarrow>
        (\<exists>br. map_of buckets b = Some br \<and> matchRoutes 0 (bkRoutes br) k = Inr (Some d)))"

lemma coherent_le: "coherent bs c \<Longrightarrow> c' \<subseteq>\<^sub>m c \<Longrightarrow> coherent bs c'"
  unfolding coherent_def map_le_def by (metis domI)

lemma coherent_add:
  assumes "coherent bs c" "map_of bs b = Some br" "matchRoutes 0 (bkRoutes br) k = Inr (Some d)"
    "CHR '':'' \<notin> set b" "CHR '':'' \<notin> set meth"
  shows "coherent bs (c(cacheKey b k meth \<mapsto> d))"
  using assms cacheKey_inj [of _ b _ meth] unfolding coherent_def by (auto split: if_splits)

lemma Match_cached:
  assumes laws: "cache_laws ops contents" and names: "CHR '':'' \<notin> set b" and meth: "CHR '':'' \<notin> set meth"
    and coh: "\<And>c. mCache m = Some c \<Longrightarrow> coherent (mBuckets m) (contents c)"
    and run: "Match ops m b k meth = (r, m')"
  shows "r = fst (Match ops (m\<lparr>mCache := None\<rparr>) b k meth) \<and> mBuckets m' = mBuckets m \<and>
    (\<forall>c. mCache m' = Some c \<longrightarrow> coherent (mBuckets m) (contents c))"
proof (cases "map_of (mBuckets m) b")
  case None
  with run coh show ?thesis by (auto simp: Match_def)
next
  case (Some br)
  show ?thesis
  proof (cases "mCache m")
    case None
    with run Some show ?thesis
      by (auto simp: Match_def Let_def split: sum.splits option.splits)
  next
    case c: (Some c)
    obtain h c' where get: "cacheGet ops c (cacheKey b k meth) = (h, c')" by fastforce
    have h: "h = contents c (cacheKey b k meth)" and c': "coherent (mBuckets m) (contents c')"
      using laws get coherent_le [OF coh [OF c]] unfolding cache_laws_def
      by (metis fst_conv, metis snd_conv)
    show ?thesis
    proof (cases h)
      case None
      have add: "coherent (mBuckets m) (contents (cacheAdd ops c' (cacheKey b k meth) d))"
        if "matchRoutes 0 (bkRoutes br) k = Inr (Some d)" for d
        using coherent_add [OF c' Some that names meth] laws coherent_le
        unfolding cache_laws_def by blast
      from run Some c get None c' add show ?thesis
        by (auto simp: Match_def Let_def split: sum.splits option.splits)
    next
      case hit: (Some d)
      with h coh [OF c] names meth obtain br' where
        "map_of (mBuckets m) b = Some br'" "matchRoutes 0 (bkRoutes br') k = Inr (Some d)"
        unfolding coherent_def by metis
      with run Some c get hit c' show ?thesis
        by (auto simp: Match_def Let_def)
    qed
  qed
qed

lemma matchAll_cached:
  assumes "cache_laws ops contents" "\<And>c. mCache m = Some c \<Longrightarrow> coherent (mBuckets m) (contents c)"
    "\<forall>(b, k, meth) \<in> set reqs. CHR '':'' \<notin> set b \<and> CHR '':'' \<notin> set meth"
  shows "matchAll ops reqs m = map (\<lambda>(b, k, meth). fst (Match ops (m\<lparr>mCache := None\<rparr>) b k meth)) reqs"
  using assms(2,3)
proof (induction reqs arbitrary: m)
  case (Cons q reqs)
  obtain b k meth where q: "q = (b, k, meth)" by (cases q)
  obtain r m' where run: "Match ops m b k meth = (r, m')" by fastforce
  note st = Match_cached [OF assms(1) _ _ Cons.prems(1) run]
  with Cons.prems q have 1: "r = fst (Match ops (m\<lparr>mCache := None\<rparr>) b k meth)"
    and 2: "mBuckets m' = mBuckets m" and 3: "\<And>c. mCache m' = Some c \<Longrightarrow> coherent (mBuckets m') (contents c)"
    by auto
  have "m'\<lparr>mCache := None\<rparr> = m\<lparr>mCache := None\<rparr>" using 2 by (cases m; cases m') simp
  with Cons.IH [OF 3] Cons.prems(2) q run 1 show ?case by simp
qed simp

text \<open>
  C8: caching is transparent: as long as no bucket name and no method holds a colon, a
  matcher that starts with an empty cache answers every sequence of look-ups as a matcher without
  one does, whatever the cache evicts.
\<close>

theorem match_cache_transparent:
  assumes "cache_laws ops contents" "NewMatcher ops cfg n = Inr m"
    "\<forall>(b, k, meth) \<in> set reqs. CHR '':'' \<notin> set b \<and> CHR '':'' \<notin> set meth"
  shows "matchAll ops reqs m =
     map (\<lambda>(b, k, meth). fst (Match ops \<lparr>mBuckets = cfgBuckets cfg, mCache = None\<rparr> b k meth)) reqs"
proof -
  have "m\<lparr>mCache := None\<rparr> = \<lparr>mBuckets = cfgBuckets cfg, mCache = None\<rparr>"
    using assms(2) by (auto simp: NewMatcher_def split: if_splits sum.splits)
  moreover have "coherent (mBuckets m) (contents c)" if "mCache m = Some c" for c
    using that assms(1,2)
    by (auto simp: NewMatcher_def cache_laws_def coherent_def split: if_splits sum.splits)
  ultimately show ?thesis using matchAll_cached [OF assms(1) _ assms(3)] by metis
qed

definition sample_config :: config where
  "sample_config = \<lparr>cfgBackends = [], cfgBuckets = mBuckets (sample_matcher (None :: unit option)), cfgFeatures = [],
     cfgCredentialsStore = None, cfgServer = None, cfgAuth = None, cfgVirtualHosts = None\<rparr>"

theorem match_cache_transparent_witness:
  "matchAll one_entry_cache [(''media'', ''a'', ''GET''), (''media'', ''a'', ''GET'')]
      \<lparr>mBuckets = cfgBuckets sample_config, mCache = Some []\<rparr> =
   map (\<lambda>(b, k, meth). fst (Match one_entry_cache \<lparr>mBuckets = cfgBuckets sample_config, mCache = None\<rparr> b k meth))
      [(''media'', ''a'', ''GET''), (''media'', ''a'', ''GET'')]"
  by (rule match_cache_transparent [OF one_entry_cache_laws, of _ 5])
    (simp_all add: NewMatcher_def one_entry_cache_def)

text \<open>
  With a colon in a bucket name the cache is not transparent: the look-up of one bucket can
  return the decision cached for another.
\<close>

definition colon_matcher :: "(string \<times> decision) list matcher" where
  "colon_matcher = \<lparr>mBuckets = [(''a'', \<lparr>bkName = ''a'', bkRoutes = [sample_route ''.*'']\<rparr>),
     (''a:b'', \<lparr>bkName = ''a:b'', bkRoutes = [sample_route ''zzz'']\<rparr>)], mCache = Some []\<rparr>"

theorem match_cache_collision:
  "(case matchAll one_entry_cache [(''a'', ''b:k'', ''GET''), (''a:b'', ''k'', ''GET'')] colon_matcher of
      [Inr d, Inr d'] \<Rightarrow> d' = d
    | _ \<Rightarrow> False) \<and>
   fst (Match one_entry_cache (colon_matcher\<lparr>mCache := None\<rparr>) ''a:b'' ''k'' ''GET'')
     = Inl (Failed (NoMatchingRoute ''a:b'' ''k''))"
  by code_simp

subsection \<open>Totality\<close>

definition total_groups :: "regexp \<Rightarrow> bool" where
  "total_groups re \<longleftrightarrow> (\<forall>s ms. FindStringSubmatchIndex re s = Some ms \<longrightarrow> None \<notin> set ms)"

lemma indexedPieces_total: "None \<notin> set ms \<Longrightarrow> \<exists>p. indexedPieces key ms = Some p"
  by (induction key ms rule: indexedPieces.induct) auto

lemma substitute_total:
  "None \<notin> set ms \<Longrightarrow> t \<noteq> None \<Longrightarrow> \<exists>k'. substituteCaptures t caps ms key = Some k'"
  using indexedPieces_total [of ms key] by (auto simp: substituteCaptures_def split: option.splits)

lemma applyRewrites_total:
  "None \<notin> set ms \<Longrightarrow>
     \<forall>rw \<in> set rws. rwResult rw \<noteq> None \<and> (\<forall>re. rwPattern rw = Some re \<longrightarrow> total_groups re) \<Longrightarrow>
     \<exists>k'. applyRewrites key0 ms rws key caps = Some k'"
proof (induction rws arbitrary: key caps)
  case (Cons rw rws)
  then have r: "rwResult rw \<noteq> None" by simp
  show ?case
  proof (cases "rwPattern rw")
    case None
    obtain k' where "substituteCaptures (rwResult rw) caps ms key0 = Some k'"
      using substitute_total [OF Cons.prems(1) r] by blast
    with None Cons show ?thesis by simp
  next
    case (Some re)
    show ?thesis
    proof (cases "FindStringSubmatchIndex re key")
      case None
      with Some Cons show ?thesis by simp
    next
      case sub: (Some sub)
      then have "None \<notin> set sub" using Some Cons.prems(2) by (auto simp: total_groups_def)
      then obtain k' where
        "substituteCaptures (rwResult rw) (addCaptures (re_names re) sub key caps) sub key = Some k'"
        using substitute_total r by blast
      with Some sub Cons show ?thesis by (simp add: Let_def)
    qed
  qed
qed simp

lemma matchRoutes_total:
  "\<forall>rt \<in> set rts. (\<exists>re. rtPath rt = Some re \<and> total_groups re) \<and>
     (\<forall>rw \<in> set (rtRewrites rt). rwResult rw \<noteq> None \<and> (\<forall>re. rwPattern rw = Some re \<longrightarrow> total_groups re)) \<Longrightarrow>
   \<exists>r. matchRoutes i rts key = Inr r"
proof (induction rts arbitrary: i)
  case (Cons rt rts)
  then obtain re where re: "rtPath rt = Some re" "total_groups re" by auto
  show ?case
  proof (cases "FindStringSubmatchIndex re key")
    case None
    with Cons re show ?thesis by simp
  next
    case (Some ms)
    then have "None \<notin> set ms" using re(2) by (auto simp: total_groups_def)
    then obtain k' where "rewrite key re ms (rtRewrites rt) = Some k'"
      using applyRewrites_total [of ms "rtRewrites rt"] Cons.prems by (force simp: rewrite_def)
    with re Some show ?thesis by simp
  qed
qed simp

text \<open>A configuration none of whose patterns has a group that can be left out of a match.\<close>

definition total_patterns :: "config \<Rightarrow> bool" where
  "total_patterns cfg \<longleftrightarrow>
     (\<forall>bk \<in> snd ` set (cfgBuckets cfg). \<forall>rt \<in> set (bkRoutes bk).
        (\<forall>re. rtPath rt = Some re \<longrightarrow> total_groups re) \<and>
        (\<forall>rw \<in> set (rtRewrites rt). \<forall>re. rwPattern rw = Some re \<longrightarrow> total_groups re))"

text \<open>A decision whose backend is one of the configuration, and a cache that holds only such.\<close>

definition routed :: "config \<Rightarrow> decision \<Rightarrow> bool" where
  "routed cfg d \<longleftrightarrow> (\<exists>n bc. dBackend d = Some bc \<and> map_of (cfgBackends cfg) n = Some bc)"

definition stocked :: "config \<Rightarrow> (string \<rightharpoonup> decision) \<Rightarrow> bool" where
  "stocked cfg cont \<longleftrightarrow> (\<forall>k d. cont k = Some d \<longrightarrow> routed cfg d)"

lemma stocked_le: "stocked cfg c \<Longrightarrow> c' \<subseteq>\<^sub>m c \<Longrightarrow> stocked cfg c'"
  unfolding stocked_def map_le_def by (metis domI)

lemma stocked_add: "stocked cfg c \<Longrightarrow> routed cfg d \<Longrightarrow> stocked cfg (c(k \<mapsto> d))"
  by (simp add: stocked_def)

lemma matchRoutes_routed:
  assumes "PopulateFromIR read src = Inr cfg" "total_patterns cfg" "map_of (cfgBuckets cfg) b = Some bk"
  shows "\<exists>r. matchRoutes 0 (bkRoutes bk) k = Inr r \<and> (\<forall>d. r = Some d \<longrightarrow> routed cfg d)"
proof -
  have "valid_bucket (cfgBackends cfg) bk"
    using populate_valid [OF assms(1)] map_of_SomeD [OF assms(3)] by (auto simp: valid_config_def)
  then have v: "\<forall>rt \<in> set (bkRoutes bk). rtPath rt \<noteq> None \<and>
        (\<exists>k b. rtBackend rt = Some b \<and> map_of (cfgBackends cfg) k = Some b) \<and>
        (\<forall>rw \<in> set (rtRewrites rt). rwResult rw \<noteq> None)" by (auto simp: valid_bucket_def)
  obtain r where r: "matchRoutes 0 (bkRoutes bk) k = Inr r"
    using matchRoutes_total [of "bkRoutes bk" 0 k] v assms(2) map_of_SomeD [OF assms(3)]
    by (force simp: total_patterns_def)
  have "routed cfg d" if "r = Some d" for d
    using matchRoutes_Some [of 0 "bkRoutes bk" k d] r v that unfolding routed_def by (metis diff_zero nth_mem)
  with r show ?thesis by blast
qed

lemma Match_routed:
  assumes "PopulateFromIR read src = Inr cfg" "total_patterns cfg" "cache_laws ops contents"
    "mBuckets m = cfgBuckets cfg" "\<forall>c. mCache m = Some c \<longrightarrow> stocked cfg (contents c)" "Match ops m b k meth = (r, m')"
  shows "r \<noteq> Inl Panicked \<and> (\<forall>d. r = Inr d \<longrightarrow> routed cfg d) \<and> mBuckets m' = cfgBuckets cfg \<and>
    (\<forall>c. mCache m' = Some c \<longrightarrow> stocked cfg (contents c))"
proof (cases "map_of (cfgBuckets cfg) b")
  case None
  with assms(4-6) show ?thesis by (auto simp: Match_def)
next
  case (Some bk)
  obtain x where x: "matchRoutes 0 (bkRoutes bk) k = Inr x" "\<forall>d. x = Some d \<longrightarrow> routed cfg d"
    using matchRoutes_routed [OF assms(1,2) Some] by blast
  show ?thesis
  proof (cases "mCache m")
    case None
    with assms(4,6) Some x show ?thesis by (auto simp: Match_def Let_def split: option.splits)
  next
    case c: (Some c)
    obtain h c' where get: "cacheGet ops c (cacheKey b k meth) = (h, c')" by fastforce
    have h: "h = contents c (cacheKey b k meth)" and "contents c' \<subseteq>\<^sub>m contents c"
      using assms(3) get unfolding cache_laws_def by (metis fst_conv, metis snd_conv)
    then have c': "stocked cfg (contents c')" using assms(5) c stocked_le by blast
    have hit: "routed cfg d" if "h = Some d" for d using that h assms(5) c by (simp add: stocked_def)
    have add: "stocked cfg (contents (cacheAdd ops c' (cacheKey b k meth) d))" if "routed cfg d" for d
      using stocked_add [OF c' that] assms(3) stocked_le unfolding cache_laws_def by blast
    from assms(4,6) Some c get x c' hit add show ?thesis
      by (auto simp: Match_def Let_def split: option.splits)
  qed
qed

lemma matchAll_routed:
  assumes "PopulateFromIR read src = Inr cfg" "total_patterns cfg" "cache_laws ops contents"
  shows "mBuckets m = cfgBuckets cfg \<Longrightarrow> \<forall>c. mCache m = Some c \<longrightarrow> stocked cfg (contents c) \<Longrightarrow>
    r \<in> set (matchAll ops reqs m) \<Longrightarrow> r \<noteq> Inl Panicked \<and> (\<forall>d. r = Inr d \<longrightarrow> routed cfg d)"
proof (induction reqs arbitrary: m)
  case (Cons q reqs)
  obtain b k meth where q: "q = (b, k, meth)" by (cases q)
  obtain r1 m1 where run: "Match ops m b k meth = (r1, m1)" by fastforce
  note one = Match_routed [OF assms Cons.prems(1,2) run]
  from Cons.prems(3) q run consider "r = r1" | "r \<in> set (matchAll ops reqs m1)" by auto
  then show ?case
  proof cases
    case 2
    with Cons.IH [of m1] one show ?thesis by blast
  qed (use one in simp)
qed simp

text \<open>
  C18: with an accepted configuration, routing never panics unless a pattern of a route or a rewrite has
  a group that can be left out of a match: the matcher made for the configuration, with a cache of any
  size or without one, answers every sequence of look-ups, whatever the cache evicts, without meeting a
  nil pattern, template or backend, and every decision, cached or not, is for a backend of the
  configuration.
\<close>

theorem match_never_panics:
  assumes "PopulateFromIR read src = Inr cfg" "NewMatcher ops cfg n = Inr m" "cache_laws ops contents"
    "total_patterns cfg" "r \<in> set (matchAll ops reqs m)"
  shows "r \<noteq> Inl Panicked \<and> (\<forall>d. r = Inr d \<longrightarrow> (\<exists>n bc. dBackend d = Some bc \<and> map_of (cfgBackends cfg) n = Some bc))"
proof -
  have "mBuckets m = cfgBuckets cfg"
    using assms(2) by (auto simp: NewMatcher_def split: if_splits sum.splits)
  moreover have "stocked cfg (contents c)" if "mCache m = Some c" for c
    using that assms(2,3) by (auto simp: NewMatcher_def cache_laws_def stocked_def split: if_splits sum.splits)
  ultimately show ?thesis
    using matchAll_routed [OF assms(1,4,3) _ _ assms(5)] unfolding routed_def by blast
qed

lemma total_groups_none: "length (re_names re) \<le> 1 \<Longrightarrow> total_groups re"
  by (auto simp: total_groups_def FindStringSubmatchIndex_def split: option.splits prod.splits)

definition sample_cfg :: config where
  "sample_cfg = (case PopulateFromIR (\<lambda>_. Inl []) sample_ir of Inr c \<Rightarrow> c | Inl _ \<Rightarrow> undefined)"

lemma sample_cfg_accepted: "PopulateFromIR (\<lambda>_. Inl []) sample_ir = Inr sample_cfg"
proof -
  have "case PopulateFromIR (\<lambda>_. Inl []) sample_ir of Inr _ \<Rightarrow> True | Inl _ \<Rightarrow> False" by code_simp
  then show ?thesis by (auto simp: sample_cfg_def split: sum.splits)
qed

definition groupless :: "regexp option \<Rightarrow> bool" where
  "groupless re = (case re of Some r \<Rightarrow> length (re_names r) \<le> 1 | None \<Rightarrow> True)"

definition groupless_routes :: "config \<Rightarrow> bool" where
  "groupless_routes cfg \<longleftrightarrow> list_all (\<lambda>(n, bk). list_all (\<lambda>rt. groupless (rtPath rt) \<and>
     list_all (\<lambda>rw. groupless (rwPattern rw)) (rtRewrites rt)) (bkRoutes bk)) (cfgBuckets cfg)"

lemma sample_cfg_groups: "total_patterns sample_cfg"
proof -
  have "groupless_routes sample_cfg" unfolding sample_cfg_def by code_simp
  then show ?thesis unfolding total_patterns_def
    by (force simp: groupless_routes_def groupless_def list_all_iff split: option.splits intro: total_groups_none)
qed

lemma sample_lookups:
  "list_all (\<lambda>r. case r of Inr d \<Rightarrow> dRewrittenKey d = ''new/img/'' | Inl _ \<Rightarrow> False)
     (matchAll one_entry_cache [(''media'', ''img/a'', ''GET''), (''media'', ''img/a'', ''GET'')]
       \<lparr>mBuckets = cfgBuckets sample_cfg, mCache = Some []\<rparr>)"
  unfolding sample_cfg_def by code_simp

theorem match_never_panics_witness:
  "\<exists>d. (Inr d :: match_error fault + decision) \<in> set (matchAll one_entry_cache [(''media'', ''img/a'', ''GET''), (''media'', ''img/a'', ''GET'')]
       \<lparr>mBuckets = cfgBuckets sample_cfg, mCache = Some []\<rparr>) \<and>
     (\<exists>n bc. dBackend d = Some bc \<and> map_of (cfgBackends sample_cfg) n = Some bc)"
proof -
  let ?m = "\<lparr>mBuckets = cfgBuckets sample_cfg, mCache = Some []\<rparr>"
  let ?l = "matchAll one_entry_cache [(''media'', ''img/a'', ''GET''), (''media'', ''img/a'', ''GET'')] ?m"
  have m: "NewMatcher one_entry_cache sample_cfg 5 = Inr ?m" by (simp add: NewMatcher_def one_entry_cache_def)
  have in_l: "hd ?l \<in> set ?l" by (simp add: split_def Let_def)
  note looked = sample_lookups [unfolded list_all_iff, THEN bspec, OF in_l]
  obtain d where d: "hd ?l = Inr d"
  proof (cases "hd ?l")
    case (Inl e)
    with looked show ?thesis by (simp only: sum.case)
  qed
  have "Inr d \<in> set ?l" using in_l by (simp only: d)
  with match_never_panics [OF sample_cfg_accepted m one_entry_cache_laws sample_cfg_groups this] show ?thesis by blast
qed

text \<open>
  A group that takes no part in the match makes a rewrite panic: the pattern is accepted, the
  key matches, and slicing the key at the index \<open>-1\<close> of the group fails.
\<close>

definition optional_group_matcher :: "(string \<times> decision) list matcher" where
  "optional_group_matcher = \<lparr>mBuckets = [(''m'', \<lparr>bkName = ''m'', bkRoutes =
     [(sample_route ''^(v[0-9]+/)?doc'')\<lparr>rtRewrites := [\<lparr>rwPattern = None,
        rwResult = (case Parse ''new'' of Inr t \<Rightarrow> Some t | Inl _ \<Rightarrow> None)\<rparr>]\<rparr>]\<rparr>)], mCache = None\<rparr>"

theorem match_optional_group_panics:
  "fst (Match one_entry_cache optional_group_matcher ''m'' ''v1/doc'' ''GET'') \<noteq> Inl Panicked \<and>
   fst (Match one_entry_cache optional_group_matcher ''m'' ''doc'' ''GET'') = Inl Panicked"
  by code_simp

end
