(* ===== verification/PrefixOptimizer.thy ===== *)
theory PrefixOptimizer
  imports Routing
begin

section \<open>Static prefixes of route patterns\<close>

text \<open>
  \<open>internal/bucket/prefix_optimizer.go\<close>: a textual analysis of a route's pattern that finds a
  static prefix of the keys it matches, so that a listing can skip routes and narrow the prefix it
  asks a backend for.  The analysis never runs the pattern.
\<close>

subsection \<open>Segments\<close>

datatype segment_type = SegmentLiteral | SegmentSingleLevel | SegmentMultiLevel | SegmentComplex

record path_segment =
  sgType :: segment_type
  sgValue :: string
  sgLiteral :: string
  sgOptional :: bool
  sgOptional2 :: bool

record pattern_structure =
  psSegments :: "path_segment list"
  psStartsWithAnchor :: bool
  psEndsWithAnchor :: bool
  psHasStaticPrefix :: bool
  psStaticPrefixLen :: nat

record prefix_analysis =
  paStaticPrefix :: string
  paCanOptimize :: bool
  paRequiresFullScan :: bool
  paRequiresNonEmptyRemainder :: bool
  paHasTrivialRewrite :: bool
  paRewriteResultPrefix :: string

definition metachars :: "char set" where
  "metachars = set ''.*+?[](){}|^$'' \<union> {backslash}"

definition hasRegexMetachars :: "string \<Rightarrow> bool" where
  "hasRegexMetachars s \<longleftrightarrow> list_ex (\<lambda>c. c \<in> metachars) s"

definition extractLiteralPrefix :: "string \<Rightarrow> string" where
  "extractLiteralPrefix s = takeWhile (\<lambda>c. c \<notin> metachars) s"

text \<open>The scan of \<open>tokenizePattern\<close>: the segment so far, the depth of parentheses, the rest.\<close>

fun tokenize_from :: "string \<Rightarrow> int \<Rightarrow> string \<Rightarrow> string list" where
  "tokenize_from current inGroup [] = (if current \<noteq> [] then [current] else [])"
| "tokenize_from current inGroup (ch # p) =
     (if ch = CHR ''('' then tokenize_from (current @ [ch]) (inGroup + 1) p
      else if ch = CHR '')'' then tokenize_from (current @ [ch]) (inGroup - 1) p
      else if ch = CHR ''/'' \<and> inGroup = 0 then
        (if current \<noteq> [] then [current] else []) @ tokenize_from [] inGroup p
      else tokenize_from (current @ [ch]) inGroup p)"

definition tokenizePattern :: "string \<Rightarrow> string list" where
  "tokenizePattern pattern = tokenize_from [] 0 (TrimSuffix (TrimPrefix pattern ''^'') ''$'')"

definition plainSegment :: "string \<Rightarrow> path_segment" where
  "plainSegment v = \<lparr>sgType = SegmentLiteral, sgValue = v, sgLiteral = [], sgOptional = False, sgOptional2 = False\<rparr>"

definition classifySegment :: "string \<Rightarrow> path_segment" where
  "classifySegment segment =
     (let ps = plainSegment segment in
      if segment = ''.*'' then ps\<lparr>sgType := SegmentMultiLevel, sgOptional2 := True\<rparr>
      else if segment = ''.+'' then ps\<lparr>sgType := SegmentMultiLevel, sgOptional2 := False\<rparr>
      else if segment = ''(.*)'' \<or> segment = ''(?P<rest>.*)'' then
        ps\<lparr>sgType := SegmentMultiLevel, sgOptional2 := True\<rparr>
      else if HasSuffix segment ''.*)'' then ps\<lparr>sgType := SegmentMultiLevel, sgOptional2 := True\<rparr>
      else if segment = ''(.+)'' \<or> HasSuffix segment ''.+)'' then
        ps\<lparr>sgType := SegmentMultiLevel, sgOptional2 := False\<rparr>
      else if segment = ''[^/]*'' then ps\<lparr>sgType := SegmentSingleLevel, sgOptional := True\<rparr>
      else if segment = ''[^/]+'' then ps\<lparr>sgType := SegmentSingleLevel, sgOptional := False\<rparr>
      else if segment = ''([^/]*)'' then ps\<lparr>sgType := SegmentSingleLevel, sgOptional := True\<rparr>
      else if segment = ''([^/]+)'' then ps\<lparr>sgType := SegmentSingleLevel, sgOptional := False\<rparr>
      else if HasPrefix segment ''(?P<'' \<and> HasSuffix segment ''[^/]*)'' then
        ps\<lparr>sgType := SegmentSingleLevel, sgOptional := True\<rparr>
      else if HasPrefix segment ''(?P<'' \<and> HasSuffix segment ''[^/]+)'' then
        ps\<lparr>sgType := SegmentSingleLevel, sgOptional := False\<rparr>
      else if \<not> hasRegexMetachars segment then ps\<lparr>sgType := SegmentLiteral, sgLiteral := segment\<rparr>
      else ps\<lparr>sgType := SegmentComplex, sgLiteral := extractLiteralPrefix segment\<rparr>)"

definition analyzePatternStructure :: "string \<Rightarrow> pattern_structure" where
  "analyzePatternStructure pattern =
     (let segs = map classifySegment (tokenizePattern pattern);
          n = length (takeWhile (\<lambda>s. sgType s = SegmentLiteral) segs)
      in \<lparr>psSegments = segs, psStartsWithAnchor = HasPrefix pattern ''^'',
          psEndsWithAnchor = HasSuffix pattern ''$'', psHasStaticPrefix = n > 0, psStaticPrefixLen = n\<rparr>)"

definition GetStaticPrefixFromStructure :: "pattern_structure \<Rightarrow> string" where
  "GetStaticPrefixFromStructure st =
     (if psSegments st = [] then []
      else if psHasStaticPrefix st then
        Join (map sgLiteral (take (psStaticPrefixLen st) (psSegments st))) ''/'' @ ''/''
      else
        (let firstSeg = hd (psSegments st) in
         if sgType firstSeg = SegmentComplex \<and> sgLiteral firstSeg \<noteq> [] then sgLiteral firstSeg else []))"

subsection \<open>Whether a prefix query is safe\<close>

definition requiresFullScan :: "string \<Rightarrow> bool" where
  "requiresFullScan pattern \<longleftrightarrow> (pattern = [] \<or> hd pattern \<in> set ''.*+?[(|'')"

definition isSimpleWildcard :: "string \<Rightarrow> bool" where
  "isSimpleWildcard s \<longleftrightarrow>
     list_ex (\<lambda>pat. s = pat \<or> HasSuffix s pat) [''.*'', ''.+'', ''(.*)'', ''(.+)'']"

definition segmentRequiresNonEmpty :: "path_segment \<Rightarrow> bool" where
  "segmentRequiresNonEmpty seg =
     (case sgType seg of
        SegmentMultiLevel \<Rightarrow> \<not> sgOptional2 seg
      | SegmentSingleLevel \<Rightarrow> \<not> sgOptional seg
      | SegmentComplex \<Rightarrow> Contains (sgValue seg) ''.+'' \<or> Contains (sgValue seg) ''[^/]+''
      | SegmentLiteral \<Rightarrow> False)"

definition structureRequiresNonEmpty :: "pattern_structure \<Rightarrow> nat \<Rightarrow> bool" where
  "structureRequiresNonEmpty st n \<longleftrightarrow> list_ex segmentRequiresNonEmpty (drop n (psSegments st))"

definition areSegmentsSafeForOptimization :: "path_segment list \<Rightarrow> bool \<times> bool" where
  "areSegmentsSafeForOptimization segments =
     (if segments = [] then (True, False)
      else
        (let lastSeg = last segments in
         case sgType lastSeg of
           SegmentMultiLevel \<Rightarrow> (True, \<not> sgOptional2 lastSeg)
         | SegmentSingleLevel \<Rightarrow> (True, \<not> sgOptional lastSeg)
         | SegmentComplex \<Rightarrow>
             (if isSimpleWildcard (sgValue lastSeg) \<or> HasSuffix (sgValue lastSeg) ''.*'' \<or>
                 HasSuffix (sgValue lastSeg) ''.+''
              then (True, Contains (sgValue lastSeg) ''.+'') else (False, False))
         | SegmentLiteral \<Rightarrow> (False, False)))"

text \<open>
  The result is whether to optimise and whether a key needs something after the prefix.  The
  branches are those of the code, in its order: exact patterns, a complex first segment with a
  literal start, end-anchored patterns, and the rest.
\<close>

definition canSafelyOptimizeWithPrefix :: "pattern_structure \<Rightarrow> nat \<Rightarrow> bool \<times> bool" where
  "canSafelyOptimizeWithPrefix st n =
     (let segs = psSegments st;
          complexFirst = (n = 0 \<and> segs \<noteq> [] \<and> sgType (hd segs) = SegmentComplex \<and> sgLiteral (hd segs) \<noteq> []);
          remainder = drop (length (sgLiteral (hd segs))) (sgValue (hd segs))
      in if length segs = n \<and> psEndsWithAnchor st \<and> n > 0 then (False, False)
         else if complexFirst \<and> psEndsWithAnchor st then (True, Contains (sgValue (hd segs)) ''.+'')
         else if complexFirst \<and> isSimpleWildcard remainder then (True, HasPrefix remainder ''.+'')
         else if psEndsWithAnchor st \<and> n > 0 then (True, structureRequiresNonEmpty st n)
         else if n = 0 \<and> \<not> complexFirst then (False, False)
         else if length segs \<le> n then (True, False)
         else areSegmentsSafeForOptimization (drop n segs))"

subsection \<open>Rewrites\<close>

definition analyzeRewrites :: "rewrite_rule list \<Rightarrow> prefix_analysis \<Rightarrow> prefix_analysis" where
  "analyzeRewrites rewrites a =
     (case rewrites of
        [] \<Rightarrow> a\<lparr>paHasTrivialRewrite := True, paRewriteResultPrefix := []\<rparr>
      | [rw] \<Rightarrow>
          (if rwPattern rw \<noteq> None then a\<lparr>paHasTrivialRewrite := False\<rparr>
           else case rwResult rw of
             None \<Rightarrow> a\<lparr>paHasTrivialRewrite := False\<rparr>
           | Some result \<Rightarrow>
               (let t = tmpl_analysis result in
                if ta_ContainsConditionals t then a\<lparr>paHasTrivialRewrite := False\<rparr>
                else if ta_Prefix t = [] \<and> length (ta_Rest t) = 1 \<and> snd (hd (ta_Rest t)) = [] then
                  a\<lparr>paHasTrivialRewrite := True, paRewriteResultPrefix := []\<rparr>
                else if ta_Prefix t \<noteq> [] then
                  a\<lparr>paHasTrivialRewrite := True, paRewriteResultPrefix := ta_Prefix t\<rparr>
                else a\<lparr>paHasTrivialRewrite := False\<rparr>))
      | _ \<Rightarrow> a\<lparr>paHasTrivialRewrite := False\<rparr>)"

subsection \<open>The analysis and its cache\<close>

definition emptyAnalysis :: prefix_analysis where
  "emptyAnalysis = \<lparr>paStaticPrefix = [], paCanOptimize = False, paRequiresFullScan = False,
     paRequiresNonEmptyRemainder = False, paHasTrivialRewrite = False, paRewriteResultPrefix = []\<rparr>"

definition analyzePattern :: "string \<Rightarrow> rewrite_rule list \<Rightarrow> prefix_analysis" where
  "analyzePattern pattern rewrites =
     (let st = analyzePatternStructure pattern in
      if \<not> HasPrefix pattern ''^'' then
        analyzeRewrites rewrites (emptyAnalysis\<lparr>paRequiresFullScan := True\<rparr>)
      else
        (let cleanPattern = TrimSuffix (drop 1 pattern) ''$'';
             staticPrefix = GetStaticPrefixFromStructure st;
             (canSafely, nonEmpty) = canSafelyOptimizeWithPrefix st (psStaticPrefixLen st)
         in analyzeRewrites rewrites
              (if staticPrefix \<noteq> [] \<and> canSafely then
                 emptyAnalysis\<lparr>paCanOptimize := True, paRequiresFullScan := False,
                   paStaticPrefix := staticPrefix, paRequiresNonEmptyRemainder := nonEmpty\<rparr>
               else emptyAnalysis\<lparr>paCanOptimize := False,
                      paRequiresFullScan := requiresFullScan cleanPattern\<rparr>)))"

definition NUL :: char where "NUL = CHR 0x00"

definition buildCacheKey :: "string \<Rightarrow> rewrite_rule list \<Rightarrow> string" where
  "buildCacheKey pattern rewrites =
     pattern @ concat (map (\<lambda>r.
        [NUL] @ (case rwPattern r of Some re \<Rightarrow> re_text re | None \<Rightarrow> []) @
        [NUL] @ (case rwResult r of Some t \<Rightarrow> tmpl_input t | None \<Rightarrow> [])) rewrites)"

type_synonym optimizer = "(string \<times> prefix_analysis) list"

definition NewPrefixOptimizer :: optimizer where
  "NewPrefixOptimizer = []"

text \<open>A route without a compiled pattern panics (\<open>None\<close>).\<close>

definition AnalyzeRoute :: "optimizer \<Rightarrow> route_config \<Rightarrow> (prefix_analysis \<times> optimizer) option" where
  "AnalyzeRoute opt route =
     (case rtPath route of
        None \<Rightarrow> None
      | Some re \<Rightarrow>
          (let ck = buildCacheKey (re_text re) (rtRewrites route) in
           case map_of opt ck of
             Some a \<Rightarrow> Some (a, opt)
           | None \<Rightarrow> (let a = analyzePattern (re_text re) (rtRewrites route) in Some (a, AList.update ck a opt))))"

subsection \<open>Using the analysis\<close>

definition overlaps :: "string \<Rightarrow> string \<Rightarrow> bool" where
  "overlaps p q \<longleftrightarrow> HasPrefix p q \<or> HasPrefix q p"

definition ComputePhysicalPrefix :: "string \<Rightarrow> prefix_analysis \<Rightarrow> string \<times> bool" where
  "ComputePhysicalPrefix virtualPrefix a =
     (if virtualPrefix = [] then
        (if paHasTrivialRewrite a \<and> paRewriteResultPrefix a \<noteq> [] then (paRewriteResultPrefix a, True)
         else ([], True))
      else if paStaticPrefix a \<noteq> [] \<and> \<not> HasPrefix virtualPrefix (paStaticPrefix a) \<and>
              \<not> HasPrefix (paStaticPrefix a) virtualPrefix then ([], False)
      else if paHasTrivialRewrite a then
        (if paStaticPrefix a = [] then (paRewriteResultPrefix a @ virtualPrefix, True)
         else if HasPrefix virtualPrefix (paStaticPrefix a) then
           (paRewriteResultPrefix a @ TrimPrefix virtualPrefix (paStaticPrefix a), True)
         else ([], True))
      else ([], True))"

definition TransformVirtualPrefix :: "string \<Rightarrow> prefix_analysis \<Rightarrow> string" where
  "TransformVirtualPrefix virtualPrefix a =
     (if virtualPrefix = [] then paStaticPrefix a
      else if paStaticPrefix a \<noteq> [] \<and> HasPrefix virtualPrefix (paStaticPrefix a) then virtualPrefix
      else if paCanOptimize a then paStaticPrefix a @ virtualPrefix
      else paStaticPrefix a)"

definition CanSkipRoute :: "string \<Rightarrow> prefix_analysis \<Rightarrow> bool" where
  "CanSkipRoute virtualPrefix a \<longleftrightarrow>
     (if paRequiresFullScan a then False
      else if \<not> paCanOptimize a then False
      else if paStaticPrefix a = [] then False
      else virtualPrefix \<noteq> [] \<and> \<not> HasPrefix virtualPrefix (paStaticPrefix a) \<and>
           \<not> HasPrefix (paStaticPrefix a) virtualPrefix)"

definition GetOptimizedBackendPrefix :: "string \<Rightarrow> string \<Rightarrow> prefix_analysis \<Rightarrow> string" where
  "GetOptimizedBackendPrefix virtualPrefix backendPrefix a =
     (let physicalPrefix =
            (if virtualPrefix \<noteq> [] then
               (if paCanOptimize a \<and> HasPrefix virtualPrefix (paStaticPrefix a) then virtualPrefix
                else if paStaticPrefix a \<noteq> [] then paStaticPrefix a
                else virtualPrefix)
             else paStaticPrefix a)
      in if backendPrefix \<noteq> [] then backendPrefix @ physicalPrefix else physicalPrefix)"

subsection \<open>Anchored literal patterns\<close>

text \<open>What a pattern of the form \<open>^literal...\<close> compiles to, and the keys it can match.\<close>

definition plain :: "char \<Rightarrow> bool" where
  "plain c \<longleftrightarrow> c \<notin> metachars \<and> byte c < 128"

lemma plain_neq:
  assumes "plain c"
  shows "c \<noteq> CHR ''('' \<and> c \<noteq> CHR '')'' \<and> c \<noteq> CHR ''|'' \<and> c \<noteq> CHR ''*'' \<and> c \<noteq> CHR ''+'' \<and>
    c \<noteq> CHR ''?'' \<and> c \<noteq> CHR ''.'' \<and> c \<noteq> CHR ''^'' \<and> c \<noteq> CHR ''$'' \<and> c \<noteq> CHR ''['' \<and> c \<noteq> CHR 0x5C \<and>
    c \<noteq> CHR ''{''"
  using assms by (auto simp: plain_def metachars_def backslash_def)

lemma rparse_plain:
  "plain c \<Longrightarrow> rparse (c # s) rep fs names = rparse s False (push_atom (RRune (byte c)) fs) names"
  using plain_neq [of c]
  by (subst rparse.simps) (simp add: plain_def rune_width_def)

lemma rparse_plains:
  "\<forall>c \<in> set u. plain c \<Longrightarrow>
     rparse (u @ s) False (f # fs) names
       = rparse s False (f\<lparr>f_cur := rev (map (\<lambda>c. RRune (byte c)) u) @ f_cur f\<rparr> # fs) names"
  by (induction u arbitrary: f) (simp_all add: rparse_plain push_atom_def)

lemma DecodeRune_wide: "\<not> byte a < 128 \<Longrightarrow> 128 \<le> fst (DecodeRune (a # s))"
proof -
  have 2: "194 \<le> x \<Longrightarrow> 128 \<le> (x - 192) * 64 + y" for x y :: nat by simp
  have 3: "224 \<le> x \<Longrightarrow> (x = 224 \<longrightarrow> 160 \<le> y) \<Longrightarrow> 128 \<le> (x - 224) * 4096 + (y - 128) * 64 + z"
    for x y z :: nat by (cases "x = 224") simp_all
  have 4: "240 \<le> x \<Longrightarrow> (x = 240 \<longrightarrow> 144 \<le> y) \<Longrightarrow>
      128 \<le> (x - 240) * 262144 + (y - 128) * 4096 + (z - 128) * 64 + v" for x y z v :: nat
    by (cases "x = 240") simp_all
  assume "\<not> byte a < 128"
  then show ?thesis
    unfolding DecodeRune_def
    by (simp split: list.split add: 2) (intro conjI impI allI, (rule 3 4; simp)+)
qed

lemma DecodeRune_ascii_inv:
  assumes "s \<noteq> []" "fst (DecodeRune s) < 128"
  shows "fst (DecodeRune s) = byte (hd s) \<and> snd (DecodeRune s) = 1"
proof (cases s)
  case (Cons a r)
  with assms DecodeRune_wide [of a r] have "byte a < 128" by fastforce
  with Cons show ?thesis by simp
qed (use assms in simp)

lemma byte_inj: "byte c = byte d \<longleftrightarrow> c = d"
  by (simp add: byte_def)

lemma step_rune_plain:
  assumes "byte c < 128" "m \<in> set (rmatch (RRune (byte c)) st)"
  shows "mrest st = c # mrest m"
proof -
  obtain r w where d: "DecodeRune (mrest st) = (r, w)" by fastforce
  with assms(2) have n: "mrest st \<noteq> []" and r: "r = byte c" and m: "mrest m = drop w (mrest st)"
    by (auto simp: step_rune_def split: if_splits)
  from DecodeRune_ascii_inv [OF n] d r assms(1) have "byte c = byte (hd (mrest st))" "w = 1" by auto
  with n m show ?thesis by (cases "mrest st") (auto simp: byte_inj)
qed

lemma rmatch_anchored:
  "\<forall>c \<in> set u. byte c < 128 \<Longrightarrow> m \<in> set (rmatch (foldl RCat RBol (map (\<lambda>c. RRune (byte c)) u)) st) \<Longrightarrow>
     mpos st = 0 \<and> mrest st = u @ mrest m"
proof (induction u arbitrary: m rule: rev_induct)
  case (snoc c u)
  from snoc.prems(2) obtain k where k: "k \<in> set (rmatch (foldl RCat RBol (map (\<lambda>c. RRune (byte c)) u)) st)"
    and m: "m \<in> set (rmatch (RRune (byte c)) k)" by auto
  with snoc.IH [OF _ k] snoc.prems(1) have "mpos st = 0 \<and> mrest st = u @ mrest k" by simp
  moreover have "mrest k = c # mrest m" using snoc.prems(1) m by (intro step_rune_plain) auto
  ultimately show ?case by simp
qed (auto split: if_splits)

lemma rmatch_foldl_prefix:
  "m \<in> set (rmatch (foldl RCat a (bs @ cs)) st) \<Longrightarrow> \<exists>k. k \<in> set (rmatch (foldl RCat a bs) st)"
  by (induction cs arbitrary: m rule: rev_induct) auto

lemma search_sound:
  "search e p s = Some (q, m) \<Longrightarrow>
     p \<le> q \<and> (\<exists>s'. m \<in> set (rmatch e \<lparr>mpos = q, mrest = s', mcaps = []\<rparr>) \<and> (q = p \<longrightarrow> s' = s))"
proof (induction e p s rule: search.induct)
  case (1 e p s)
  show ?case
  proof (cases "rmatch e \<lparr>mpos = p, mrest = s, mcaps = []\<rparr>")
    case Nil
    with "1.prems" have "s \<noteq> []" and r: "search e (p + rune_width s) (drop (rune_width s) s) = Some (q, m)"
      by (auto simp: search.simps [of e p s] split: if_splits)
    with "1.IH" [OF Nil] rune_width_pos [of s] show ?thesis by fastforce
  next
    case (Cons x xs)
    with "1.prems" show ?thesis by (auto simp: search.simps [of e p s])
  qed
qed

lemma anchored_match:
  assumes "re_prog re = foldl RCat RBol (map (\<lambda>c. RRune (byte c)) u @ atoms)" "\<forall>c \<in> set u. byte c < 128"
    "MatchString re key"
  shows "HasPrefix key u"
proof -
  from assms(3) obtain q m where "search (re_prog re) 0 key = Some (q, m)"
    by (auto simp: MatchString_def FindStringSubmatchIndex_def split: option.splits)
  then obtain s' where m: "m \<in> set (rmatch (re_prog re) \<lparr>mpos = q, mrest = s', mcaps = []\<rparr>)"
    and s': "q = 0 \<longrightarrow> s' = key" by (auto dest: search_sound)
  then obtain k where "k \<in> set (rmatch (foldl RCat RBol (map (\<lambda>c. RRune (byte c)) u)) \<lparr>mpos = q, mrest = s', mcaps = []\<rparr>)"
    unfolding assms(1) by (metis rmatch_foldl_prefix)
  from rmatch_anchored [OF assms(2) this] s' show ?thesis by auto
qed

text \<open>The tails of a pattern the soundness lemma covers, each with the segment it is read as.\<close>

definition safe_tails :: "string list" where
  "safe_tails = [''.*'', ''.+'', ''(.*)'', ''(.+)'', ''(?P<rest>.*)'', ''(?P<rest>.+)'', ''([^/]+)'',
     ''.*$'', ''.+$'', ''(.*)$'', ''(.+)$'', ''(?P<rest>.*)$'', ''([^/]+)$'']"

lemma atoms_one: "\<exists>as. \<forall>f. frame_re (f\<lparr>f_cur := x # f_cur f\<rparr>) = frame_re (f\<lparr>f_cur := as @ f_cur f\<rparr>)"
  by (rule exI [of _ "[x]"]) simp

lemma atoms_two: "\<exists>as. \<forall>f. frame_re (f\<lparr>f_cur := x # y # f_cur f\<rparr>) = frame_re (f\<lparr>f_cur := as @ f_cur f\<rparr>)"
  by (rule exI [of _ "[x, y]"]) simp

lemma rparse_tail:
  assumes "w \<in> set safe_tails"
  shows "\<exists>as ns. \<forall>f. rparse w False [f] [[]] = Inr (frame_re (f\<lparr>f_cur := as @ f_cur f\<rparr>), ns)"
proof -
  have cls: "class_atom (''^/]'' @ r) = Inr (RClass True [(47, 47)], r)" for r
    by (simp add: class_atom_def class_items.simps class_item_def rune_width_def byte_def)
  have names: "name_char c" if "c \<in> set ''rest''" for c
    using that by (auto simp: name_char_def is_lower_def less_eq_char_def)
  have head: "group_head (''?P<rest>'' @ r) = Inr (Some ''rest'', True, r)" for r
    by (simp add: group_head_def names) (simp add: name_char_def is_digit_def is_lower_def is_upper_def less_eq_char_def)
  have plain_head: "c \<noteq> CHR ''?'' \<Longrightarrow> group_head (c # r) = Inr (None, True, c # r)" for c r
    by (simp add: group_head_def)
  show ?thesis
    using assms unfolding safe_tails_def
    apply (simp del: One_nat_def)
    apply (elim disjE)
    apply (simp_all add: rparse.simps push_atom_def plain_head head [simplified] cls [simplified] atoms_one atoms_two)
    done
qed

lemma Compile_anchored:
  assumes "\<forall>c \<in> set u. plain c" "w \<in> set safe_tails" "Compile (''^'' @ u @ w) = Inr re"
  shows "\<exists>atoms. re_prog re = foldl RCat RBol (map (\<lambda>c. RRune (byte c)) u @ atoms)"
proof -
  obtain as ns where t: "\<And>f. rparse w False [f] [[]] = Inr (frame_re (f\<lparr>f_cur := as @ f_cur f\<rparr>), ns)"
    using rparse_tail [OF assms(2)] by blast
  have "rparse (''^'' @ u @ w) False [\<lparr>f_group = None, f_alts = [], f_cur = []\<rparr>] [[]]
      = rparse (u @ w) False [\<lparr>f_group = None, f_alts = [], f_cur = [RBol]\<rparr>] [[]]"
    by (subst rparse.simps) (simp add: push_atom_def)
  also have "\<dots> = Inr (frame_re \<lparr>f_group = None, f_alts = [],
      f_cur = as @ rev (map (\<lambda>c. RRune (byte c)) u) @ [RBol]\<rparr>, ns)"
    by (simp add: rparse_plains [OF assms(1)] t comp_def)
  finally have "re_prog re = foldl RCat RBol (map (\<lambda>c. RRune (byte c)) u @ rev as)"
    using assms(3) by (auto simp: Compile_def frame_re_def cat_of_def)
  then show ?thesis by blast
qed

text \<open>A literal directory path, as the segments between its slashes.\<close>

definition dir_segment :: "string \<Rightarrow> bool" where
  "dir_segment s \<longleftrightarrow> s \<noteq> [] \<and> (\<forall>c \<in> set s. plain c \<and> c \<noteq> CHR ''/'')"

definition dir_prefix :: "string list \<Rightarrow> string" where
  "dir_prefix segs = Join segs ''/'' @ ''/''"

lemma dir_prefix_simps:
  "dir_prefix [s] = s @ ''/''" "segs \<noteq> [] \<Longrightarrow> dir_prefix (s # segs) = s @ ''/'' @ dir_prefix segs"
  by (simp_all add: dir_prefix_def Join_Cons)

lemma plain_dir_prefix: "\<forall>s \<in> set segs. dir_segment s \<Longrightarrow> \<forall>c \<in> set (dir_prefix segs). plain c"
proof (induction segs)
  case (Cons s segs)
  have slash: "plain CHR ''/''" by (simp add: plain_def metachars_def backslash_def byte_def)
  show ?case
  proof (cases "segs = []")
    case True
    with Cons slash show ?thesis by (auto simp: dir_prefix_simps dir_segment_def)
  next
    case False
    with Cons slash show ?thesis by (auto simp: dir_prefix_simps dir_segment_def)
  qed
qed (simp add: dir_prefix_def plain_def metachars_def backslash_def byte_def)

lemma tokenize_segment:
  "\<forall>c \<in> set u. plain c \<and> c \<noteq> CHR ''/'' \<Longrightarrow>
     tokenize_from cur 0 (u @ p) = tokenize_from (cur @ u) 0 p"
  using plain_neq by (induction u arbitrary: cur) auto

lemma tokenize_dir:
  "segs \<noteq> [] \<Longrightarrow> \<forall>s \<in> set segs. dir_segment s \<Longrightarrow>
     tokenize_from [] 0 (dir_prefix segs @ p) = segs @ tokenize_from [] 0 p"
proof (induction segs)
  case (Cons s segs)
  then have "\<forall>c \<in> set s. plain c \<and> c \<noteq> CHR ''/''" "s \<noteq> []" by (auto simp: dir_segment_def)
  from this(2) tokenize_segment [OF this(1)] Cons show ?case
    by (cases "segs = []") (simp_all add: dir_prefix_simps)
qed simp

lemma HasSuffix_tail: "w \<noteq> [] \<Longrightarrow> HasSuffix (p @ w) [c] = HasSuffix w [c]"
  by (cases w rule: rev_cases) (auto simp: HasSuffix_def)

lemma TrimSuffix_tail: "w \<noteq> [] \<Longrightarrow> TrimSuffix (p @ w) [c] = p @ TrimSuffix w [c]"
  by (cases w rule: rev_cases) (auto simp: TrimSuffix_def HasSuffix_def)

definition tail_ok :: "string \<Rightarrow> bool" where
  "tail_ok w \<longleftrightarrow> w \<noteq> [] \<and>
     (case tokenize_from [] 0 (TrimSuffix w ''$'') of
        [seg] \<Rightarrow> sgType (classifySegment seg) = SegmentSingleLevel \<or> sgType (classifySegment seg) = SegmentMultiLevel
      | _ \<Rightarrow> False)"

lemma safe_tails_ok: "w \<in> set safe_tails \<Longrightarrow> tail_ok w"
proof -
  have "list_all tail_ok safe_tails" by code_simp
  then show "w \<in> set safe_tails \<Longrightarrow> tail_ok w" by (simp add: list_all_iff)
qed

lemma HasSuffix_set: "HasSuffix s t \<Longrightarrow> set t \<subseteq> set s"
  by (auto simp: HasSuffix_iff)

lemma classify_dir:
  assumes "dir_segment s"
  shows "sgType (classifySegment s) = SegmentLiteral \<and> sgLiteral (classifySegment s) = s"
proof -
  have m: "\<not> hasRegexMetachars s"
    using assms by (auto simp: dir_segment_def hasRegexMetachars_def list_ex_iff plain_def)
  have star: "CHR ''*'' \<notin> set s" "CHR ''+'' \<notin> set s"
    using assms plain_neq by (auto simp: dir_segment_def)
  then have ne: "s \<noteq> t" if "CHR ''*'' \<in> set t \<or> CHR ''+'' \<in> set t" for t
    using that by blast
  have sf: "\<not> HasSuffix s t" if "CHR ''*'' \<in> set t \<or> CHR ''+'' \<in> set t" for t
    using that star HasSuffix_set [of s t] by blast
  show ?thesis
    unfolding classifySegment_def Let_def plainSegment_def using m by (simp add: ne sf)
qed

lemma analyze_anchored:
  assumes "segs \<noteq> []" "\<forall>s \<in> set segs. dir_segment s" "w \<in> set safe_tails"
  shows "paStaticPrefix (analyzePattern (''^'' @ dir_prefix segs @ w) rws) = dir_prefix segs"
proof -
  obtain seg where seg: "tokenize_from [] 0 (TrimSuffix w ''$'') = [seg]"
    and ty: "sgType (classifySegment seg) = SegmentSingleLevel \<or> sgType (classifySegment seg) = SegmentMultiLevel"
    and w: "w \<noteq> []"
    using safe_tails_ok [OF assms(3)] by (auto simp: tail_ok_def split: list.splits)
  have "tokenizePattern (''^'' @ dir_prefix segs @ w) = segs @ [seg]"
    using tokenize_dir [OF assms(1,2)] w seg by (simp add: tokenizePattern_def TrimPrefix_def TrimSuffix_tail)
  then have st: "psSegments (analyzePatternStructure (''^'' @ dir_prefix segs @ w)) = map classifySegment segs @ [classifySegment seg]"
    by (simp add: analyzePatternStructure_def Let_def)
  have tw: "takeWhile (\<lambda>s. sgType s = SegmentLiteral) (map classifySegment segs @ [classifySegment seg]) = map classifySegment segs"
    using assms(2) classify_dir ty by (subst takeWhile_append2) auto
  have n: "psStaticPrefixLen (analyzePatternStructure (''^'' @ dir_prefix segs @ w)) = length segs"
    "psHasStaticPrefix (analyzePatternStructure (''^'' @ dir_prefix segs @ w))"
    using st tw assms(1) by (simp_all add: analyzePatternStructure_def Let_def)
  have "map (sgLiteral \<circ> classifySegment) segs = segs"
    using assms(2) classify_dir by (simp add: map_idI)
  then have pre: "GetStaticPrefixFromStructure (analyzePatternStructure (''^'' @ dir_prefix segs @ w)) = dir_prefix segs"
    using n st assms(1) by (simp add: GetStaticPrefixFromStructure_def dir_prefix_def)
  have "fst (canSafelyOptimizeWithPrefix (analyzePatternStructure (''^'' @ dir_prefix segs @ w)) (length segs))"
    using st assms(1) ty by (auto simp: canSafelyOptimizeWithPrefix_def Let_def areSegmentsSafeForOptimization_def)
  moreover have "dir_prefix segs \<noteq> []" by (simp add: dir_prefix_def)
  moreover have "paStaticPrefix (analyzeRewrites rws a) = paStaticPrefix a" for a
    by (auto simp: analyzeRewrites_def Let_def split: list.splits option.splits)
  ultimately show ?thesis
    using pre n by (simp add: analyzePattern_def Let_def split_def)
qed

text \<open>
  C17: skipping a route is sound for a pattern made of literal directories followed by a
  wildcard tail: if the optimizer skips the route for a listing prefix, no key with that prefix
  matches the pattern.
\<close>

theorem skip_route_sound:
  assumes "segs \<noteq> []" "\<forall>s \<in> set segs. dir_segment s" "w \<in> set safe_tails"
    "Compile (''^'' @ dir_prefix segs @ w) = Inr re"
    "CanSkipRoute vp (analyzePattern (''^'' @ dir_prefix segs @ w) rws)" "HasPrefix key vp"
  shows "\<not> MatchString re key"
proof
  assume m: "MatchString re key"
  have pl: "\<forall>c \<in> set (dir_prefix segs). plain c" by (rule plain_dir_prefix [OF assms(2)])
  obtain atoms where "re_prog re = foldl RCat RBol (map (\<lambda>c. RRune (byte c)) (dir_prefix segs) @ atoms)"
    using Compile_anchored [OF pl assms(3,4)] by blast
  then have "HasPrefix key (dir_prefix segs)" using anchored_match pl m by (auto simp: plain_def)
  note linear = HasPrefix_linear [OF assms(6) this]
  from linear assms(5) show False
    unfolding CanSkipRoute_def analyze_anchored [OF assms(1-3)] by (auto split: if_splits)
qed

theorem skip_route_sound_witness:
  "\<not> MatchString (case Compile ''^users/pub/(.*)$'' of Inr re \<Rightarrow> re) ''logs/a''"
proof -
  have c: "Compile (''^'' @ dir_prefix [''users'', ''pub''] @ ''(.*)$'')
      = Inr (case Compile ''^users/pub/(.*)$'' of Inr re \<Rightarrow> re)" by code_simp
  have s: "CanSkipRoute ''logs/'' (analyzePattern (''^'' @ dir_prefix [''users'', ''pub''] @ ''(.*)$'') [])" by code_simp
  show ?thesis
    by (rule skip_route_sound [OF _ _ _ c s])
      (auto simp: dir_segment_def plain_def metachars_def backslash_def byte_def safe_tails_def)
qed

text \<open>
  Skipping is not sound in general: a pattern that ends in a literal is given the static
  prefix \<open>foo/\<close>, although it also matches keys like \<open>foobar\<close>, which a listing of \<open>foob\<close> then
  leaves out; and an alternation is read as if its first branch were the whole pattern.
\<close>

definition sample_match :: "string \<Rightarrow> string \<Rightarrow> bool" where
  "sample_match p key = (case Compile p of Inr re \<Rightarrow> MatchString re key | Inl _ \<Rightarrow> False)"

theorem skip_route_unsound:
  "CanSkipRoute ''foob'' (analyzePattern ''^foo'' []) \<and> sample_match ''^foo'' ''foobar'' \<and>
   CanSkipRoute ''b/'' (analyzePattern ''^foo/a|.*'' []) \<and> sample_match ''^foo/a|.*'' ''b/x'' \<and>
   CanSkipRoute ''ac'' (analyzePattern ''^ab*.*'' []) \<and> sample_match ''^ab*.*'' ''ac''"
  by code_simp

end
