(* ===== verification/BucketOps.thy ===== *)
theory BucketOps
  imports Http Config
begin

section \<open>Bucket operations\<close>

text \<open>
  \<open>internal/bucket/operations.go\<close>: which S3 operation a request is, the parameters of listings,
  the answers to bucket-level operations, and the split of a path into bucket and key.  An XML body
  is the Go value it is marshalled from.
\<close>

subsection \<open>Response documents\<close>

record s3_error =
  eCode :: string
  eMessage :: string

record s3_list_buckets =
  lbOwnerID :: string
  lbDisplayName :: string
  lbBuckets :: "(string \<times> string) list"      \<comment> \<open>name and creation date\<close>

record s3_object =
  oKey :: string
  oLastModified :: string
  oETag :: string
  oSize :: int
  oStorageClass :: string

record list_v2_response =
  lrName :: string
  lrPrefix :: string
  lrDelimiter :: string
  lrMaxKeys :: nat
  lrIsTruncated :: bool
  lrKeyCount :: nat
  lrContinuationToken :: string
  lrNextContinuationToken :: string
  lrStartAfter :: string
  lrContents :: "s3_object list"
  lrCommonPrefixes :: "string list"

record list_v1_response =
  l1XMLNS :: string
  l1Name :: string
  l1Prefix :: string
  l1Marker :: string
  l1NextMarker :: string
  l1Delimiter :: string
  l1MaxKeys :: nat
  l1IsTruncated :: bool
  l1Contents :: "s3_object list"
  l1CommonPrefixes :: "string list"

datatype document =
    ErrorDoc s3_error
  | ListBucketsDoc s3_list_buckets
  | ListV2Doc list_v2_response
  | ListV1Doc list_v1_response

definition xmlResponse :: "nat \<Rightarrow> document \<Rightarrow> document response" where
  "xmlResponse status doc =
     \<lparr>rsStatus = status, rsHeader = hSet ''Content-Type'' ''application/xml'' [], rsBody = doc\<rparr>"

subsection \<open>Detecting operations\<close>

datatype operation =
    NoOperation
  | CreateBucket | DeleteBucket | ListBuckets | ListObjects | ListObjectsV2
  | CreateMultipartUpload | UploadPart | CompleteMultipartUpload | AbortMultipartUpload | ListParts
  | DeleteObjects | GetObjectAcl | PutObjectAcl

definition listBucketsValidParams :: "string list" where
  "listBucketsValidParams = [''bucket-region'', ''continuation-token'', ''max-buckets'', ''prefix'']"

definition isListBucketsQuery :: "url_values \<Rightarrow> bool" where
  "isListBucketsQuery query \<longleftrightarrow> list_all (\<lambda>(k, _). k \<in> set listBucketsValidParams) query"

definition DetectBucketOperation :: "request \<Rightarrow> string \<Rightarrow> string \<Rightarrow> operation" where
  "DetectBucketOperation r bucket objectKey =
     (if qMethod r = ''GET'' \<and> uPath (qURL r) = ''/'' \<and> isListBucketsQuery (qQuery r) then ListBuckets
      else if objectKey = [] \<and> qMethod r = ''PUT'' then CreateBucket
      else if objectKey = [] \<and> qMethod r = ''DELETE'' then DeleteBucket
      else NoOperation)"

definition DetectListObjectsV2 :: "request \<Rightarrow> bool" where
  "DetectListObjectsV2 r \<longleftrightarrow>
     (if qMethod r \<noteq> ''GET'' then False else vGet (qQuery r) ''list-type'' = ''2'')"

definition DetectListObjects :: "request \<Rightarrow> string \<Rightarrow> bool" where
  "DetectListObjects r objectKey \<longleftrightarrow>
     (if qMethod r \<noteq> ''GET'' then False
      else if objectKey \<noteq> [] then False
      else vGet (qQuery r) ''list-type'' \<noteq> ''2'')"

definition DetectMultipartOperation :: "string \<Rightarrow> url_values \<Rightarrow> operation" where
  "DetectMultipartOperation method q =
     (let uploadID = vGet q ''uploadId'' in
      if method = ''POST'' then
        (if vHas q ''delete'' then DeleteObjects
         else if uploadID = [] \<and> vHas q ''uploads'' then CreateMultipartUpload
         else if uploadID \<noteq> [] then CompleteMultipartUpload
         else NoOperation)
      else if method = ''PUT'' then
        (if vHas q ''acl'' then PutObjectAcl
         else if uploadID \<noteq> [] \<and> vGet q ''partNumber'' \<noteq> [] then UploadPart
         else NoOperation)
      else if method = ''DELETE'' then
        (if uploadID \<noteq> [] then AbortMultipartUpload else NoOperation)
      else if method = ''GET'' then
        (if vHas q ''acl'' then GetObjectAcl
         else if uploadID \<noteq> [] \<and> vGet q ''list-type'' = [] then ListParts
         else NoOperation)
      else NoOperation)"

subsection \<open>Parameters of listings\<close>

record list_v2_params =
  pPrefix :: string
  pDelimiter :: string
  pMaxKeys :: nat
  pStartAfter :: string
  pContinuationToken :: string

record list_v1_params =
  p1Prefix :: string
  p1Delimiter :: string
  p1MaxKeys :: nat
  p1Marker :: string

text \<open>The loop of \<open>parseMaxKeys\<close>: an invalid digit gives the default, and so does exceeding 1000.\<close>

fun max_keys_from :: "nat \<Rightarrow> string \<Rightarrow> nat" where
  "max_keys_from parsed [] = parsed"
| "max_keys_from parsed (r # s) =
     (if \<not> is_digit r then 1000
      else let p = parsed * 10 + (of_char r - 48) in if p > 1000 then 1000 else max_keys_from p s)"

definition parseMaxKeys :: "string \<Rightarrow> nat" where
  "parseMaxKeys s = (if s = [] then 1000 else max_keys_from 0 s)"

definition ParseListObjectsV2Params :: "url_values \<Rightarrow> list_v2_params" where
  "ParseListObjectsV2Params q =
     \<lparr>pPrefix = vGet q ''prefix'', pDelimiter = vGet q ''delimiter'',
      pMaxKeys = (if vGet q ''max-keys'' \<noteq> [] then parseMaxKeys (vGet q ''max-keys'') else 1000),
      pStartAfter = vGet q ''start-after'', pContinuationToken = vGet q ''continuation-token''\<rparr>"

definition ParseListObjectsParams :: "url_values \<Rightarrow> list_v1_params" where
  "ParseListObjectsParams q =
     \<lparr>p1Prefix = vGet q ''prefix'', p1Delimiter = vGet q ''delimiter'',
      p1MaxKeys = (if vGet q ''max-keys'' \<noteq> [] then parseMaxKeys (vGet q ''max-keys'') else 1000),
      p1Marker = vGet q ''marker''\<rparr>"

definition ToV2Params :: "list_v1_params \<Rightarrow> list_v2_params" where
  "ToV2Params p =
     \<lparr>pPrefix = p1Prefix p, pDelimiter = p1Delimiter p, pMaxKeys = p1MaxKeys p,
      pStartAfter = p1Marker p, pContinuationToken = []\<rparr>"

subsection \<open>Bucket-level handlers\<close>

definition HandleListBuckets :: "config \<Rightarrow> document response" where
  "HandleListBuckets cfg =
     xmlResponse 200 (ListBucketsDoc
       \<lparr>lbOwnerID = ''router'', lbDisplayName = ''S3 Router'',
        lbBuckets = map (\<lambda>(_, b). (bkName b, ''2024-01-01T00:00:00Z'')) (cfgBuckets cfg)\<rparr>)"

definition HandleCreateBucket :: "document response" where
  "HandleCreateBucket =
     xmlResponse 409 (ErrorDoc \<lparr>eCode = ''BucketAlreadyExists'',
       eMessage = ''The requested bucket name is not available. Bucket lifecycle is managed declaratively.''\<rparr>)"

definition HandleDeleteBucket :: "document response" where
  "HandleDeleteBucket =
     xmlResponse 403 (ErrorDoc \<lparr>eCode = ''BucketNotEmpty'',
       eMessage = ''The bucket you tried to delete is managed declaratively and cannot be deleted through the S3 API.''\<rparr>)"

subsection \<open>Paths\<close>

definition ParseS3PathForBucketOp :: "string \<Rightarrow> string \<Rightarrow> string \<times> string" where
  "ParseS3PathForBucketOp host path =
     (if Contains host ''.s3'' then
        (hd (Split host ''.''), if path \<noteq> ''/'' \<and> length path > 1 then tl path else [])
      else
        (let p = TrimPrefix path ''/'' in
         if p = [] then ([], [])
         else case SplitN2 p ''/'' of
           [b] \<Rightarrow> (b, [])
         | b # k # _ \<Rightarrow> (b, k)
         | [] \<Rightarrow> ([], [])))"

definition IsEmptyPath :: "string \<Rightarrow> bool" where
  "IsEmptyPath objectKey \<longleftrightarrow> objectKey = [] \<or> objectKey = ''/''"

subsection \<open>Properties\<close>

lemma max_keys_le: "parsed \<le> 1000 \<Longrightarrow> max_keys_from parsed s \<le> 1000"
  by (induction parsed s rule: max_keys_from.induct) (auto simp: Let_def)

lemma max_keys_digits:
  "parse_digits 10 x s = Some n \<Longrightarrow> \<forall>c \<in> set s. is_digit c \<Longrightarrow> x \<le> 1000 \<Longrightarrow> max_keys_from x s = min 1000 n"
proof (induction s arbitrary: x)
  case (Cons c s)
  then have d: "digit_value c = Some (of_char c - 48)" "of_char c - 48 < (10::nat)"
    using digit_value_digit by auto
  with Cons.prems have p: "parse_digits 10 (10 * x + (of_char c - 48)) s = Some n" by simp
  show ?case
  proof (cases "10 * x + (of_char c - 48) > 1000")
    case True
    with parse_digits_ge [OF p] Cons.prems(2) show ?thesis by (auto simp: Let_def mult.commute)
  next
    case False
    with Cons.IH [OF p] Cons.prems(2) show ?thesis by (auto simp: Let_def mult.commute)
  qed
qed auto

text \<open>
  Whatever the query holds, a listing is asked for at most 1000 keys, in both versions of
  the API, and a number written in decimal is taken as it is, capped at 1000.
\<close>

theorem max_keys_bounds:
  assumes "vGet q ''max-keys'' = fmt_d n"
  shows "pMaxKeys (ParseListObjectsV2Params q) = min 1000 n \<and>
    p1MaxKeys (ParseListObjectsParams q) = min 1000 n \<and>
    pMaxKeys (ParseListObjectsV2Params q') \<le> 1000 \<and> pMaxKeys (ToV2Params (ParseListObjectsParams q')) \<le> 1000"
proof -
  have "parseMaxKeys (fmt_d n) = min 1000 n"
    using max_keys_digits [of 0 "fmt_d n" n] fmt_d_digits
    by (auto simp: parseMaxKeys_def fmt_d_def parse_digits_fmt)
  moreover have "parseMaxKeys s \<le> 1000" for s by (simp add: parseMaxKeys_def max_keys_le)
  ultimately show ?thesis
    using assms by (simp add: ParseListObjectsV2Params_def ParseListObjectsParams_def ToV2Params_def)
qed

theorem max_keys_bounds_witness:
  "pMaxKeys (ParseListObjectsV2Params [(''max-keys'', [''5000''])]) = min 1000 5000 \<and>
    p1MaxKeys (ParseListObjectsParams [(''max-keys'', [''5000''])]) = min 1000 5000 \<and>
    pMaxKeys (ParseListObjectsV2Params []) \<le> 1000 \<and> pMaxKeys (ToV2Params (ParseListObjectsParams [])) \<le> 1000"
  by (rule max_keys_bounds) code_simp

end
