(* ===== verification/ListObjects.thy ===== *)
theory ListObjects
  imports PrefixOptimizer BucketOps Time "HOL-Library.Multiset"
begin

section \<open>Listing a virtual bucket\<close>

text \<open>
  \<open>internal/bucket/listobjectsv2.go\<close> and \<open>concurrent_processor.go\<close>: every route's backend is asked
  for a listing, physical keys are mapped back to virtual keys, and the merged listing is filtered,
  grouped at the delimiter and cut into a page.

  A backend client is a record that holds the answer of the S3 SDK as a function.  The workers run
  concurrently: the order in which their results reach the collector, and whether the context
  expires first, is the list of events the collector sees.  \<open>sort.Slice\<close> is not stable, so the
  order it gives to equal keys is not known: it is a parameter, any function that sorts.
\<close>

subsection \<open>Objects and clients\<close>

record sdk_object =
  sKey :: "string option"
  sLastModified :: "time option"
  sETag :: "string option"
  sSize :: "int option"
  sStorageClass :: string

record list_input =
  liBucket :: string
  liPrefix :: "string option"
  liMaxKeys :: nat

record list_client =
  lcBucket :: string
  lcPrefix :: string
  lcListObjectsV2 :: "list_input \<Rightarrow> string + sdk_object list"

type_synonym clients = "string \<Rightarrow> list_client option"

record virtual_object =
  voVirtualKey :: string
  voPhysicalKey :: string
  voBackendID :: string
  voLastModified :: time
  voETag :: string
  voSize :: int
  voStorageClass :: string

datatype list_error =
    BucketUnknown string
  | BackendUnknown string
  | BackendFailed string string
  | RoutesFailed "(nat \<times> string \<times> list_error) list"
  | ContextDone

definition toString :: "string option \<Rightarrow> string" where
  "toString s = (case s of Some x \<Rightarrow> x | None \<Rightarrow> [])"

definition toInt :: "int option \<Rightarrow> int" where
  "toInt s = (case s of Some x \<Rightarrow> x | None \<Rightarrow> 0)"

subsection \<open>From physical to virtual keys\<close>

definition isAlphanumericChar :: "char \<Rightarrow> bool" where
  "isAlphanumericChar b \<longleftrightarrow> is_lower b \<or> is_upper b \<or> is_digit b \<or> b = CHR ''_''"

definition extractStaticPrefixFromRegex :: "string \<Rightarrow> string" where
  "extractStaticPrefixFromRegex pattern =
     takeWhile (\<lambda>r. r \<notin> set ''.*+?[]()|^${}'' \<and> r \<noteq> backslash) (TrimSuffix (TrimPrefix pattern ''^'') ''$'')"

definition extractPrefixBeforeCapture :: "string \<Rightarrow> string" where
  "extractPrefixBeforeCapture result =
     (case IndexByte result CHR ''$'' of
        None \<Rightarrow> []
      | Some dollar \<Rightarrow>
          (if dollar = 0 then []
           else
             (let varPart = drop (Suc dollar) result in
              if varPart \<noteq> [] \<and> dropWhile isAlphanumericChar varPart = [] then take dollar result else [])))"

text \<open>What follows the last dollar sign: its position is the length before the reversed suffix.\<close>

definition extractSuffixAfterCapture :: "string \<Rightarrow> string" where
  "extractSuffixAfterCapture result =
     (if CHR ''$'' \<notin> set result then []
      else dropWhile isAlphanumericChar (rev (takeWhile (\<lambda>c. c \<noteq> CHR ''$'') (rev result))))"

text \<open>One rule undone; \<^const>\<open>None\<close> is the panic on a rule without a template.\<close>

definition reverseRewriteRule :: "string \<Rightarrow> rewrite_rule \<Rightarrow> string \<Rightarrow> string option" where
  "reverseRewriteRule key rw staticPrefix =
     (case rwResult rw of
        None \<Rightarrow> None
      | Some result \<Rightarrow>
          (let a = tmpl_analysis result; rst = ta_Rest a in
           if ta_ContainsConditionals a then Some (staticPrefix @ key)
           else if ta_Prefix a = [] \<and> length rst = 1 \<and> snd (hd rst) = [] then Some (staticPrefix @ key)
           else if rst \<noteq> [] \<and> ta_Prefix a = [] \<and> snd (last rst) = [] then Some (staticPrefix @ key)
           else if ta_Prefix a \<noteq> [] \<and> HasPrefix key (ta_Prefix a) then
             Some (staticPrefix @ TrimPrefix key (ta_Prefix a))
           else if rst \<noteq> [] \<and> snd (last rst) \<noteq> [] \<and> HasSuffix key (snd (last rst)) then
             Some (staticPrefix @ TrimSuffix key (snd (last rst)))
           else Some (staticPrefix @ key)))"

definition applyReverseRewrites :: "string \<Rightarrow> regexp \<Rightarrow> rewrite_rule list \<Rightarrow> string option" where
  "applyReverseRewrites physicalKey path rewrites =
     (if rewrites = [] then Some physicalKey
      else
        (let staticPrefix = extractStaticPrefixFromRegex (re_text path) in
         fold (\<lambda>rw cur. case cur of None \<Rightarrow> None | Some k \<Rightarrow> reverseRewriteRule k rw staticPrefix)
           (rev rewrites) (Some physicalKey)))"

definition reverseRewrite :: "string \<Rightarrow> regexp \<Rightarrow> rewrite_rule list \<Rightarrow> string option" where
  "reverseRewrite physicalKey path rewrites =
     (if rewrites \<noteq> [] then applyReverseRewrites physicalKey path rewrites else Some physicalKey)"

subsection \<open>One route\<close>

text \<open>
  The loop over the objects a backend returned.  Panics: a route without a compiled pattern, a
  rule without a template, and an object of the route without a modification time.
\<close>

fun collectObjects ::
  "string \<Rightarrow> string \<Rightarrow> regexp option \<Rightarrow> rewrite_rule list \<Rightarrow> sdk_object list
     \<Rightarrow> virtual_object list option" where
  "collectObjects backendID backendPrefix path rewrites [] = Some []"
| "collectObjects backendID backendPrefix path rewrites (obj # objs) =
     (let physicalKey = toString (sKey obj) in
      if backendPrefix \<noteq> [] \<and> \<not> HasPrefix physicalKey backendPrefix then
        collectObjects backendID backendPrefix path rewrites objs
      else
        (case Option.bind path (\<lambda>re. map_option (Pair re)
                (reverseRewrite (TrimPrefix physicalKey backendPrefix) re rewrites)) of
           None \<Rightarrow> None
         | Some (re, virtualKey) \<Rightarrow>
             (if \<not> MatchString re virtualKey then collectObjects backendID backendPrefix path rewrites objs
              else case sLastModified obj of
                None \<Rightarrow> None
              | Some t \<Rightarrow>
                  map_option
                    (Cons \<lparr>voVirtualKey = virtualKey, voPhysicalKey = physicalKey, voBackendID = backendID,
                       voLastModified = t, voETag = toString (sETag obj), voSize = toInt (sSize obj),
                       voStorageClass = sStorageClass obj\<rparr>)
                    (collectObjects backendID backendPrefix path rewrites objs))))"

definition listObjectsFromRoute ::
  "clients \<Rightarrow> route_config \<Rightarrow> list_v2_params \<Rightarrow> list_error fault + virtual_object list" where
  "listObjectsFromRoute GetClient route params =
     (case rtBackend route of
        None \<Rightarrow> Inl Panicked
      | Some b \<Rightarrow>
          (case GetClient (bID b) of
             None \<Rightarrow> Inl (Failed (BackendUnknown (bID b)))
           | Some c \<Rightarrow>
               (let bp = lcPrefix c;
                    inp = \<lparr>liBucket = lcBucket c,
                       liPrefix = (if pPrefix params \<noteq> [] then Some (if bp \<noteq> [] then bp @ pPrefix params else pPrefix params)
                                   else if bp \<noteq> [] then Some bp else None),
                       liMaxKeys = pMaxKeys params\<rparr>
                in case lcListObjectsV2 c inp of
                     Inl e \<Rightarrow> Inl (Failed (BackendFailed (bID b) e))
                   | Inr objs \<Rightarrow>
                       (case collectObjects (bID b) bp (rtPath route) (rtRewrites route) objs of
                          None \<Rightarrow> Inl Panicked
                        | Some vs \<Rightarrow> Inr vs))))"

text \<open>The parameters of the query to a backend.\<close>

definition createOptimizedParams :: "list_v2_params \<Rightarrow> prefix_analysis \<Rightarrow> list_v2_params" where
  "createOptimizedParams params a =
     (let (physicalPrefix, ok) = ComputePhysicalPrefix (pPrefix params) a;
          n = (if paRequiresFullScan a \<or> \<not> paCanOptimize a then pMaxKeys params * 5 else pMaxKeys params * 3)
      in params\<lparr>pPrefix := (if ok \<and> paHasTrivialRewrite a then physicalPrefix else []),
           pMaxKeys := (if n > 1000 then 1000 else n),
           pStartAfter := [], pContinuationToken := []\<rparr>)"

definition processRouteWithOptimization ::
  "clients \<Rightarrow> route_config \<Rightarrow> list_v2_params \<Rightarrow> prefix_analysis \<Rightarrow> list_error fault + virtual_object list" where
  "processRouteWithOptimization GetClient route params a =
     (case rtBackend route of
        None \<Rightarrow> Inl Panicked
      | Some b \<Rightarrow>
          (case GetClient (bID b) of
             None \<Rightarrow> Inl (Failed (BackendUnknown (bID b)))
           | Some c \<Rightarrow> listObjectsFromRoute GetClient route (createOptimizedParams params a)))"

text \<open>A worker sends one result: its index, its backend, and objects or an error.\<close>

record route_result =
  rrRouteIndex :: nat
  rrBackendID :: string
  rrOutcome :: "list_error + virtual_object list"

definition processRouteWorker ::
  "clients \<Rightarrow> list_v2_params \<Rightarrow> nat \<Rightarrow> route_config \<Rightarrow> optimizer
     \<Rightarrow> (unit fault + route_result) \<times> optimizer" where
  "processRouteWorker GetClient params i route opt =
     (case AnalyzeRoute opt route of
        None \<Rightarrow> (Inl Panicked, opt)
      | Some (a, opt') \<Rightarrow>
          (case rtBackend route of
             None \<Rightarrow> (Inl Panicked, opt')
           | Some b \<Rightarrow>
               (let result = (\<lambda>out. Inr \<lparr>rrRouteIndex = i, rrBackendID = bID b, rrOutcome = out\<rparr>) in
                if CanSkipRoute (pPrefix params) a then (result (Inr []), opt')
                else case processRouteWithOptimization GetClient route params a of
                  Inr objs \<Rightarrow> (result (Inr objs), opt')
                | Inl (Failed e) \<Rightarrow> (result (Inl e), opt')
                | Inl Panicked \<Rightarrow> (Inl Panicked, opt'))))"

subsection \<open>All routes\<close>

text \<open>What the collecting loop receives: a result, or the end of the context.\<close>

datatype event = Arrived route_result | Expired

fun collectResults ::
  "event list \<Rightarrow> virtual_object list \<Rightarrow> (nat \<times> string \<times> list_error) list
     \<Rightarrow> list_error + virtual_object list" where
  "collectResults [] objs errs = (if errs \<noteq> [] \<and> objs = [] then Inl (RoutesFailed errs) else Inr objs)"
| "collectResults (Expired # es) objs errs = Inl ContextDone"
| "collectResults (Arrived r # es) objs errs =
     (case rrOutcome r of
        Inl e \<Rightarrow> collectResults es objs (errs @ [(rrRouteIndex r, rrBackendID r, e)])
      | Inr vs \<Rightarrow> collectResults es (objs @ vs) errs)"

text \<open>
  The workers, started in the order of the routes.  They share nothing but the optimiser's cache,
  which is threaded through them here; one that panics ends the program.
\<close>

fun runWorkers ::
  "clients \<Rightarrow> list_v2_params \<Rightarrow> nat \<Rightarrow> route_config list \<Rightarrow> optimizer
     \<Rightarrow> (unit fault + route_result list) \<times> optimizer" where
  "runWorkers GetClient params i [] opt = (Inr [], opt)"
| "runWorkers GetClient params i (rt # rts) opt =
     (case processRouteWorker GetClient params i rt opt of
        (Inl e, opt') \<Rightarrow> (Inl e, opt')
      | (Inr r, opt') \<Rightarrow>
          (case runWorkers GetClient params (Suc i) rts opt' of
             (Inl e, opt'') \<Rightarrow> (Inl e, opt'')
           | (Inr rs, opt'') \<Rightarrow> (Inr (r # rs), opt'')))"

definition ProcessRoutesParallel ::
  "clients \<Rightarrow> (route_result list \<Rightarrow> event list) \<Rightarrow> optimizer \<Rightarrow> route_config list \<Rightarrow> list_v2_params
     \<Rightarrow> (list_error fault + virtual_object list) \<times> optimizer" where
  "ProcessRoutesParallel GetClient schedule opt routes params =
     (if routes = [] then (Inr [], opt)
      else case runWorkers GetClient params 0 routes opt of
        (Inl _, opt') \<Rightarrow> (Inl Panicked, opt')
      | (Inr rs, opt') \<Rightarrow> (rmap_err Failed (collectResults (schedule rs) [] []), opt'))"

subsection \<open>The response\<close>

definition filterByVirtualPrefix :: "virtual_object list \<Rightarrow> string \<Rightarrow> virtual_object list" where
  "filterByVirtualPrefix objects pre =
     (if pre = [] then objects else filter (\<lambda>obj. HasPrefix (voVirtualKey obj) pre) objects)"

text \<open>The common prefix an object contributes, and the set of them (keys of a Go map).\<close>

definition commonPrefixOf :: "string \<Rightarrow> string \<Rightarrow> virtual_object \<Rightarrow> string option" where
  "commonPrefixOf delimiter pre obj =
     (let key = (if pre \<noteq> [] \<and> HasPrefix (voVirtualKey obj) pre then drop (length pre) (voVirtualKey obj)
                 else voVirtualKey obj)
      in map_option (\<lambda>i. pre @ take (i + length delimiter) key) (strIndex key delimiter))"

definition extractCommonPrefixes :: "virtual_object list \<Rightarrow> string \<Rightarrow> string \<Rightarrow> string list" where
  "extractCommonPrefixes objects delimiter pre =
     remdups (List.map_filter (commonPrefixOf delimiter pre) objects)"

datatype response_item = ObjectItem s3_object | PrefixItem string

fun sortKey :: "response_item \<Rightarrow> string" where
  "sortKey (ObjectItem obj) = oKey obj"
| "sortKey (PrefixItem p) = p"

definition objectItem :: "virtual_object \<Rightarrow> response_item" where
  "objectItem obj = ObjectItem
     \<lparr>oKey = voVirtualKey obj, oLastModified = format_rfc3339 (voLastModified obj), oETag = voETag obj,
      oSize = voSize obj, oStorageClass = voStorageClass obj\<rparr>"

definition unifiedItems :: "list_v2_params \<Rightarrow> virtual_object list \<Rightarrow> response_item list" where
  "unifiedItems params allObjects =
     (let prefixFiltered = filterByVirtualPrefix allObjects (pPrefix params);
          commonPrefixes = (if pDelimiter params \<noteq> [] then
             extractCommonPrefixes prefixFiltered (pDelimiter params) (pPrefix params) else []);
          objectsWithoutPrefixes =
            filter (\<lambda>obj. \<not> list_ex (HasPrefix (voVirtualKey obj)) commonPrefixes) prefixFiltered
      in map objectItem objectsWithoutPrefixes @ map PrefixItem (sort commonPrefixes))"

definition startAfterKey :: "list_v2_params \<Rightarrow> string" where
  "startAfterKey params =
     (if pContinuationToken params \<noteq> [] then pContinuationToken params else pStartAfter params)"

fun firstAfter :: "string \<Rightarrow> response_item list \<Rightarrow> nat option" where
  "firstAfter k [] = None"
| "firstAfter k (it # its) = (if sortKey it > k then Some 0 else map_option Suc (firstAfter k its))"

definition pageStart :: "string \<Rightarrow> response_item list \<Rightarrow> nat" where
  "pageStart k items =
     (if k = [] then 0
      else
        (let i = (case firstAfter k items of Some j \<Rightarrow> j | None \<Rightarrow> 0) in
         if i = 0 \<and> sortKey (hd items) \<le> k then length items else i))"

text \<open>The items of the page, whether the listing is truncated, and the next token.\<close>

definition cutPage :: "list_v2_params \<Rightarrow> response_item list \<Rightarrow> response_item list \<times> bool \<times> string" where
  "cutPage params items =
     (if items = [] then ([], False, [])
      else
        (let start = pageStart (startAfterKey params) items in
         if start < length items then
           (let end' = start + pMaxKeys params in
            if end' \<ge> length items then (drop start items, False, [])
            else
              (let page = take (pMaxKeys params) (drop start items) in
               (page, True, if page \<noteq> [] then sortKey (last page) else [])))
         else ([], False, [])))"

definition contentsOf :: "response_item list \<Rightarrow> s3_object list" where
  "contentsOf = List.map_filter (\<lambda>it. case it of ObjectItem obj \<Rightarrow> Some obj | PrefixItem _ \<Rightarrow> None)"

definition prefixesOf :: "response_item list \<Rightarrow> string list" where
  "prefixesOf = List.map_filter (\<lambda>it. case it of ObjectItem _ \<Rightarrow> None | PrefixItem p \<Rightarrow> Some p)"

definition buildResponse ::
  "(response_item list \<Rightarrow> response_item list) \<Rightarrow> string \<Rightarrow> list_v2_params \<Rightarrow> virtual_object list
     \<Rightarrow> list_v2_response" where
  "buildResponse sortItems bucketName params allObjects =
     (let (page, truncated, token) = cutPage params (sortItems (unifiedItems params allObjects)) in
      \<lparr>lrName = bucketName, lrPrefix = pPrefix params, lrDelimiter = pDelimiter params,
       lrMaxKeys = pMaxKeys params, lrIsTruncated = truncated,
       lrKeyCount = length (contentsOf page) + length (prefixesOf page),
       lrContinuationToken = pContinuationToken params, lrNextContinuationToken = token,
       lrStartAfter = pStartAfter params, lrContents = contentsOf page, lrCommonPrefixes = prefixesOf page\<rparr>)"

text \<open>The binary search kept beside it.\<close>

function findStartIndexFrom :: "virtual_object list \<Rightarrow> string \<Rightarrow> nat \<Rightarrow> nat \<Rightarrow> nat" where
  "findStartIndexFrom objects k left right =
     (if left < right then
        (let mid = left + (right - left) div 2 in
         if voVirtualKey (objects ! mid) \<le> k then findStartIndexFrom objects k (Suc mid) right
         else findStartIndexFrom objects k left mid)
      else left)"
  by pat_completeness auto
termination by (relation "measure (\<lambda>(_, _, l, r). r - l)") auto

declare findStartIndexFrom.simps [simp del]

definition findStartIndex :: "virtual_object list \<Rightarrow> string \<Rightarrow> nat" where
  "findStartIndex objects k = findStartIndexFrom objects k 0 (length objects)"

subsection \<open>The handler\<close>

definition HandleListObjectsV2 ::
  "config \<Rightarrow> clients \<Rightarrow> (route_result list \<Rightarrow> event list) \<Rightarrow> (virtual_object list \<Rightarrow> virtual_object list)
     \<Rightarrow> (response_item list \<Rightarrow> response_item list) \<Rightarrow> optimizer \<Rightarrow> string \<Rightarrow> list_v2_params
     \<Rightarrow> (list_error fault + list_v2_response) \<times> optimizer" where
  "HandleListObjectsV2 cfg GetClient schedule sortObjects sortItems opt bucketName params =
     (case map_of (cfgBuckets cfg) bucketName of
        None \<Rightarrow> (Inl (Failed (BucketUnknown bucketName)), opt)
      | Some bk \<Rightarrow>
          (case ProcessRoutesParallel GetClient schedule opt (bkRoutes bk) params of
             (Inl e, opt') \<Rightarrow> (Inl e, opt')
           | (Inr objs, opt') \<Rightarrow> (Inr (buildResponse sortItems bucketName params (sortObjects objs)), opt')))"

subsection \<open>Pages\<close>

definition sorts_by :: "('a \<Rightarrow> string) \<Rightarrow> ('a list \<Rightarrow> 'a list) \<Rightarrow> bool" where
  "sorts_by k f \<longleftrightarrow> (\<forall>xs. mset (f xs) = mset xs \<and> sorted (map k (f xs)))"

lemma sorts_by_sort_key [simp, intro]: "sorts_by k (sort_key k)"
  by (simp add: sorts_by_def)

lemma sorts_by_set: "sorts_by k f \<Longrightarrow> set (f xs) = set xs"
  unfolding sorts_by_def by (metis set_mset_mset)

lemma sorts_by_length: "sorts_by k f \<Longrightarrow> length (f xs) = length xs"
  unfolding sorts_by_def by (metis size_mset)

lemma sorts_by_distinct: "sorts_by k f \<Longrightarrow> distinct (map k (f xs)) \<longleftrightarrow> distinct (map k xs)"
  unfolding sorts_by_def by (metis mset_map mset_eq_imp_distinct_iff)

text \<open>What comes after a key: the specification of where a page starts.\<close>

definition itemsAfter :: "string \<Rightarrow> response_item list \<Rightarrow> response_item list" where
  "itemsAfter k items = (if k = [] then items else filter (\<lambda>it. k < sortKey it) items)"

lemma firstAfter_None: "firstAfter k items = None \<longleftrightarrow> (\<forall>it \<in> set items. sortKey it \<le> k)"
  by (induction items) (auto simp: not_less)

lemma firstAfter_Some:
  "firstAfter k items = Some j \<Longrightarrow> j < length items \<and> j = length (takeWhile (\<lambda>it. sortKey it \<le> k) items)"
  by (induction items arbitrary: j) (auto split: if_splits)

lemma pageStart_takeWhile:
  assumes "items \<noteq> []" "k \<noteq> []"
  shows "pageStart k items = length (takeWhile (\<lambda>it. sortKey it \<le> k) items)"
proof (cases "firstAfter k items")
  case None
  then have a: "\<forall>it \<in> set items. sortKey it \<le> k" by (simp add: firstAfter_None)
  then have "length (takeWhile (\<lambda>it. sortKey it \<le> k) items) = length items"
    by (metis takeWhile_eq_all_conv)
  moreover have "pageStart k items = length items" using None assms a by (simp add: pageStart_def)
  ultimately show ?thesis by simp
next
  case (Some j)
  with firstAfter_Some [OF Some] assms show ?thesis
    by (cases items) (auto simp: pageStart_def Let_def)
qed

lemma dropWhile_filter_sorted:
  "sorted (map f xs) \<Longrightarrow> dropWhile (\<lambda>x. f x \<le> k) xs = filter (\<lambda>x. (k :: 'a :: linorder) < f x) xs"
proof (induction xs)
  case (Cons x xs)
  then show ?case by (fastforce simp: not_le intro: filter_True [symmetric])
qed simp

lemma drop_pageStart:
  assumes "items \<noteq> []" "sorted (map sortKey items)"
  shows "drop (pageStart k items) items = itemsAfter k items"
proof (cases "k = []")
  case False
  have "drop (length (takeWhile P xs)) xs = dropWhile P xs" for P and xs :: "response_item list"
    by (simp add: dropWhile_eq_drop)
  with False assms show ?thesis
    by (simp add: pageStart_takeWhile itemsAfter_def dropWhile_filter_sorted)
qed (simp add: pageStart_def itemsAfter_def)

lemma cutPage_after:
  fixes params :: list_v2_params
  assumes "sorted (map sortKey items)"
  defines "r \<equiv> itemsAfter (startAfterKey params) items"
  shows "cutPage params items =
    (take (pMaxKeys params) r, pMaxKeys params < length r,
     if pMaxKeys params < length r \<and> 0 < pMaxKeys params then sortKey (r ! (pMaxKeys params - 1)) else [])"
proof (cases "items = []")
  case False
  let ?s = "pageStart (startAfterKey params) items"
  have d: "drop ?s items = r" using drop_pageStart [OF False assms(1)] by (simp add: r_def)
  then have l: "length r = length items - ?s" by (metis length_drop)
  show ?thesis
  proof (cases "?s < length items")
    case True
    then have "sortKey (last (take (pMaxKeys params) r)) = sortKey (r ! (pMaxKeys params - 1))"
      if "pMaxKeys params < length r" "0 < pMaxKeys params"
      using that by (subst last_conv_nth) (auto simp: min_def)
    with True False d l show ?thesis by (auto simp: cutPage_def Let_def take_all)
  next
    case f: False
    with l have "r = []" by simp
    with f False show ?thesis by (simp add: cutPage_def Let_def)
  qed
qed (auto simp: cutPage_def r_def itemsAfter_def)

text \<open>The same for a response.\<close>

lemma contentsOf_simps [simp]:
  "contentsOf [] = []" "contentsOf (ObjectItem obj # its) = obj # contentsOf its"
  "contentsOf (PrefixItem p # its) = contentsOf its" "contentsOf (a @ b) = contentsOf a @ contentsOf b"
  by (simp_all add: contentsOf_def List.map_filter_def)

lemma prefixesOf_simps [simp]:
  "prefixesOf [] = []" "prefixesOf (ObjectItem obj # its) = prefixesOf its"
  "prefixesOf (PrefixItem p # its) = p # prefixesOf its" "prefixesOf (a @ b) = prefixesOf a @ prefixesOf b"
  by (simp_all add: prefixesOf_def List.map_filter_def)

lemma length_contents_prefixes: "length (contentsOf its) + length (prefixesOf its) = length its"
proof (induction its)
  case (Cons it its) then show ?case by (cases it) auto
qed simp

lemma in_contentsOf [simp]: "obj \<in> set (contentsOf its) \<longleftrightarrow> ObjectItem obj \<in> set its"
proof (induction its)
  case (Cons it its) then show ?case by (cases it) auto
qed simp

lemma in_prefixesOf [simp]: "p \<in> set (prefixesOf its) \<longleftrightarrow> PrefixItem p \<in> set its"
proof (induction its)
  case (Cons it its) then show ?case by (cases it) auto
qed simp

definition page_items ::
  "(response_item list \<Rightarrow> response_item list) \<Rightarrow> list_v2_params \<Rightarrow> virtual_object list \<Rightarrow> response_item list" where
  "page_items sortItems params objs =
     itemsAfter (startAfterKey params) (sortItems (unifiedItems params objs))"

lemma buildResponse_fields:
  fixes params :: list_v2_params and objs :: "virtual_object list"
  assumes "sorts_by sortKey sortItems"
  defines "r \<equiv> page_items sortItems params objs" and "n \<equiv> pMaxKeys params"
  shows "lrContents (buildResponse sortItems b params objs) = contentsOf (take n r)"
    and "lrCommonPrefixes (buildResponse sortItems b params objs) = prefixesOf (take n r)"
    and "lrKeyCount (buildResponse sortItems b params objs) = length (take n r)"
    and "lrIsTruncated (buildResponse sortItems b params objs) \<longleftrightarrow> n < length r"
    and "lrNextContinuationToken (buildResponse sortItems b params objs) =
      (if n < length r \<and> 0 < n then sortKey (r ! (n - 1)) else [])"
proof -
  have "sorted (map sortKey (sortItems (unifiedItems params objs)))"
    using assms(1) by (simp add: sorts_by_def)
  note c = cutPage_after [OF this, of params]
  show "lrContents (buildResponse sortItems b params objs) = contentsOf (take n r)"
    "lrCommonPrefixes (buildResponse sortItems b params objs) = prefixesOf (take n r)"
    "lrKeyCount (buildResponse sortItems b params objs) = length (take n r)"
    "lrIsTruncated (buildResponse sortItems b params objs) \<longleftrightarrow> n < length r"
    "lrNextContinuationToken (buildResponse sortItems b params objs) =
      (if n < length r \<and> 0 < n then sortKey (r ! (n - 1)) else [])"
    unfolding buildResponse_def c r_def n_def page_items_def
    by (simp_all add: length_contents_prefixes)
qed

subsection \<open>Grouping\<close>

text \<open>The common prefix an object is rolled up into, if it is.\<close>

definition rolledUp :: "list_v2_params \<Rightarrow> virtual_object \<Rightarrow> string option" where
  "rolledUp params obj =
     (if pDelimiter params = [] then None else commonPrefixOf (pDelimiter params) (pPrefix params) obj)"

definition inListing :: "list_v2_params \<Rightarrow> virtual_object \<Rightarrow> bool" where
  "inListing params obj \<longleftrightarrow> HasPrefix (voVirtualKey obj) (pPrefix params)"

lemma filterByVirtualPrefix_filter: "filterByVirtualPrefix objs (pPrefix params) = filter (inListing params) objs"
  by (auto simp: filterByVirtualPrefix_def inListing_def [abs_def])

lemma rolledUp_cases:
  assumes "inListing params obj"
  obtains (whole) "rolledUp params obj = None"
      "pDelimiter params \<noteq> [] \<Longrightarrow> \<not> Contains (drop (length (pPrefix params)) (voVirtualKey obj)) (pDelimiter params)"
    | (rolled) a t where "rolledUp params obj = Some (pPrefix params @ a @ pDelimiter params)"
      "voVirtualKey obj = pPrefix params @ a @ pDelimiter params @ t" "pDelimiter params \<noteq> []"
proof -
  let ?d = "pDelimiter params" and ?p = "pPrefix params"
  from assms obtain r where k: "voVirtualKey obj = ?p @ r" by (auto simp: inListing_def HasPrefix_iff)
  show ?thesis
  proof (cases "?d = [] \<or> strIndex r ?d = None")
    case True
    with k show ?thesis by (intro whole) (auto simp: rolledUp_def commonPrefixOf_def Contains_def)
  next
    case False
    then obtain i where i: "strIndex r ?d = Some i" by auto
    note s = strIndex_Some [OF i]
    then have "take (i + length ?d) r = take i r @ ?d"
      by (metis append.assoc append_eq_conv_conj length_append length_take min.absorb2 le_add1 le_trans)
    with False k i s show ?thesis
      by (intro rolled [of "take i r" "drop (i + length ?d) r"]) (auto simp: rolledUp_def commonPrefixOf_def)
  qed
qed

lemma commonPrefixes_set:
  "set (if pDelimiter params \<noteq> [] then
      extractCommonPrefixes (filterByVirtualPrefix objs (pPrefix params)) (pDelimiter params) (pPrefix params) else []) =
    {p. \<exists>obj \<in> set objs. inListing params obj \<and> rolledUp params obj = Some p}"
  by (force simp: extractCommonPrefixes_def filterByVirtualPrefix_filter rolledUp_def List.map_filter_def)

lemma unified_object:
  assumes "obj \<in> set objs" "inListing params obj"
  shows "list_ex (HasPrefix (voVirtualKey obj)) (if pDelimiter params \<noteq> [] then
      extractCommonPrefixes (filterByVirtualPrefix objs (pPrefix params)) (pDelimiter params) (pPrefix params) else [])
    \<longleftrightarrow> rolledUp params obj \<noteq> None"
  using assms(2)
proof (cases rule: rolledUp_cases)
  case whole
  have False if "obj' \<in> set objs" "inListing params obj'" "rolledUp params obj' = Some p"
    "HasPrefix (voVirtualKey obj) p" for obj' p
    using that(2)
  proof (cases rule: rolledUp_cases)
    case (rolled a t)
    with that have "HasPrefix (voVirtualKey obj) (pPrefix params @ a @ pDelimiter params)" by simp
    then obtain t' where "voVirtualKey obj = pPrefix params @ a @ pDelimiter params @ t'"
      by (auto simp: HasPrefix_iff)
    with whole(2) [OF rolled(3)] show False unfolding Contains_iff by auto
  qed (use that in simp)
  with whole(1) show ?thesis unfolding list_ex_iff commonPrefixes_set by auto
next
  case (rolled a t)
  then have "HasPrefix (voVirtualKey obj) (pPrefix params @ a @ pDelimiter params)"
    by (auto simp: HasPrefix_iff)
  with rolled(1) assms show ?thesis unfolding list_ex_iff commonPrefixes_set by auto
qed

lemma unifiedItems_eq:
  "unifiedItems params objs =
     map objectItem (filter (\<lambda>obj. inListing params obj \<and> rolledUp params obj = None) objs) @
     map PrefixItem (sort (if pDelimiter params \<noteq> [] then
       extractCommonPrefixes (filterByVirtualPrefix objs (pPrefix params)) (pDelimiter params) (pPrefix params) else []))"
  (is "_ = map objectItem (filter ?P objs) @ map PrefixItem (sort ?c)")
proof -
  have "filter (\<lambda>obj. \<not> list_ex (HasPrefix (voVirtualKey obj)) ?c) (filterByVirtualPrefix objs (pPrefix params)) =
    filter ?P objs"
    unfolding filterByVirtualPrefix_filter filter_filter
    by (intro filter_cong refl) (use unified_object [of _ objs params] in \<open>auto simp: filterByVirtualPrefix_filter\<close>)
  then show ?thesis unfolding unifiedItems_def Let_def by simp
qed

lemma sortKey_objectItem [simp]: "sortKey (objectItem obj) = voVirtualKey obj"
  by (simp add: objectItem_def)

lemma unifiedItems_distinct:
  assumes "distinct (map voVirtualKey objs)"
  shows "distinct (map sortKey (unifiedItems params objs))"
proof -
  let ?c = "if pDelimiter params \<noteq> [] then
    extractCommonPrefixes (filterByVirtualPrefix objs (pPrefix params)) (pDelimiter params) (pPrefix params) else []"
  have "voVirtualKey obj \<notin> set ?c" if "obj \<in> set objs" "inListing params obj" "rolledUp params obj = None" for obj
    using unified_object [OF that(1,2)] that(3) by (auto simp: list_ex_iff)
  moreover have "distinct ?c" by (simp add: extractCommonPrefixes_def)
  moreover have "distinct (map voVirtualKey (filter Q objs))" for Q by (rule distinct_map_filter [OF assms])
  ultimately show ?thesis
    unfolding unifiedItems_eq by (auto simp: o_def distinct_map)
qed

lemma unifiedItems_nonempty:
  assumes "\<forall>obj \<in> set objs. voVirtualKey obj \<noteq> []" "it \<in> set (unifiedItems params objs)"
  shows "sortKey it \<noteq> []"
proof -
  have "p \<noteq> []" if "inListing params obj" "rolledUp params obj = Some p" for obj p
    using that(1) by (cases rule: rolledUp_cases) (use that(2) in auto)
  with assms show ?thesis
    unfolding unifiedItems_eq set_append set_map set_sort commonPrefixes_set by auto
qed

subsection \<open>Following the continuation tokens\<close>

text \<open>A client that asks for page after page, at most \<open>fuel\<close> of them.\<close>

fun listPages :: "nat \<Rightarrow> (list_v2_params \<Rightarrow> list_v2_response) \<Rightarrow> list_v2_params \<Rightarrow> list_v2_response list" where
  "listPages 0 ask params = []"
| "listPages (Suc fuel) ask params =
     (let r = ask params in
      r # (if lrIsTruncated r then listPages fuel ask (params\<lparr>pContinuationToken := lrNextContinuationToken r\<rparr>)
           else []))"

lemma filter_after_mid:
  assumes "sorted_wrt (<) (map f (a @ x # b))"
  shows "filter (\<lambda>y. f x < (f y :: 'a :: linorder)) (a @ x # b) = b"
  using assms by (auto simp: sorted_wrt_append filter_empty_conv filter_id_conv dest: order_less_asym)

lemma page_items_sorted:
  assumes "sorts_by sortKey sortItems" "distinct (map voVirtualKey objs)"
  shows "sorted_wrt (<) (map sortKey (sortItems (unifiedItems params objs)))"
  using assms unifiedItems_distinct sorts_by_distinct [OF assms(1)]
  by (simp add: strict_sorted_iff sorts_by_def)

lemma page_items_suffix:
  assumes "sorts_by sortKey sortItems"
  obtains a where "sortItems (unifiedItems params objs) = a @ page_items sortItems params objs"
proof (cases "sortItems (unifiedItems params objs) = []")
  case False
  have "sorted (map sortKey (sortItems (unifiedItems params objs)))"
    using assms by (simp add: sorts_by_def)
  from drop_pageStart [OF False this, of "startAfterKey params"] show ?thesis
    by (intro that [of "take (pageStart (startAfterKey params) (sortItems (unifiedItems params objs)))
      (sortItems (unifiedItems params objs))"]) (metis append_take_drop_id page_items_def)
qed (use that [of "[]"] in \<open>simp add: page_items_def itemsAfter_def\<close>)

lemma page_items_length:
  assumes "sorts_by sortKey sortItems"
  shows "length (page_items sortItems params objs) =
    length (itemsAfter (startAfterKey params) (unifiedItems params objs))"
proof -
  let ?U = "unifiedItems params objs"
  have "mset (filter P (sortItems ?U)) = mset (filter P ?U)" for P using assms by (simp add: sorts_by_def)
  then have "length (filter P (sortItems ?U)) = length (filter P ?U)" for P by (rule mset_eq_length)
  then show ?thesis using sorts_by_length [OF assms] by (simp add: page_items_def itemsAfter_def)
qed

lemma page_items_next:
  assumes "sorts_by sortKey sortItems" "distinct (map voVirtualKey objs)"
    "\<forall>obj \<in> set objs. voVirtualKey obj \<noteq> []" "0 < n" "n < length (page_items sortItems params objs)"
  shows "page_items sortItems
      (params\<lparr>pContinuationToken := sortKey (page_items sortItems params objs ! (n - 1))\<rparr>) objs =
    drop n (page_items sortItems params objs)"
proof -
  define U where "U = sortItems (unifiedItems params objs)"
  define r where "r = page_items sortItems params objs"
  define x where "x = r ! (n - 1)"
  obtain a where a: "U = a @ r" using page_items_suffix [OF assms(1)] U_def r_def by metis
  have "r = take (n - 1) r @ x # drop n r"
    using assms(4,5) id_take_nth_drop [of "n - 1" r] by (simp add: x_def r_def)
  with a have U: "U = (a @ take (n - 1) r) @ x # drop n r" by simp
  then have "x \<in> set U" by (metis in_set_conv_decomp)
  then have "sortKey x \<noteq> []"
    using unifiedItems_nonempty [OF assms(3)] sorts_by_set [OF assms(1)] by (auto simp: U_def)
  moreover have "unifiedItems (params\<lparr>pContinuationToken := t\<rparr>) objs = unifiedItems params objs" for t
    by (simp add: unifiedItems_def Let_def)
  moreover have "filter (\<lambda>y. sortKey x < sortKey y) U = drop n r"
    using page_items_sorted [OF assms(1,2), of params] filter_after_mid [of sortKey "a @ take (n - 1) r" x "drop n r"] U
    by (simp add: U_def)
  ultimately have "page_items sortItems (params\<lparr>pContinuationToken := sortKey x\<rparr>) objs = drop n r"
    by (simp add: page_items_def itemsAfter_def startAfterKey_def flip: U_def)
  then show ?thesis unfolding x_def r_def .
qed

lemma listPages_all:
  fixes b :: string
  assumes "sorts_by sortKey sortItems" "distinct (map voVirtualKey objs)"
    "\<forall>obj \<in> set objs. voVirtualKey obj \<noteq> []" "0 < pMaxKeys params"
    "length (page_items sortItems params objs) < fuel"
  defines "ps \<equiv> listPages fuel (\<lambda>p. buildResponse sortItems b p objs) params"
  shows "ps \<noteq> [] \<and> \<not> lrIsTruncated (last ps) \<and>
    concat (map lrContents ps) = contentsOf (page_items sortItems params objs) \<and>
    concat (map lrCommonPrefixes ps) = prefixesOf (page_items sortItems params objs)"
  using assms(4,5) unfolding ps_def
proof (induction fuel arbitrary: params)
  case (Suc fuel)
  define r where "r = page_items sortItems params objs"
  define n where "n = pMaxKeys params"
  note f = buildResponse_fields [OF assms(1), of b params objs, folded r_def n_def]
  show ?case
  proof (cases "n < length r")
    case False
    then show ?thesis by (simp add: f Let_def flip: r_def)
  next
    case True
    let ?p = "params\<lparr>pContinuationToken := sortKey (r ! (n - 1))\<rparr>"
    have n: "0 < n" using Suc.prems by (simp add: n_def)
    have d: "page_items sortItems ?p objs = drop n r"
      using page_items_next [OF assms(1-3) n, of params] True by (simp add: r_def)
    have "contentsOf r = contentsOf (take n r) @ contentsOf (drop n r)"
      "prefixesOf r = prefixesOf (take n r) @ prefixesOf (drop n r)"
      by (metis append_take_drop_id contentsOf_simps(4), metis append_take_drop_id prefixesOf_simps(4))
    moreover have "0 < pMaxKeys ?p" "length (page_items sortItems ?p objs) < fuel"
      unfolding d using Suc.prems n True by (auto simp flip: r_def)
    note IH = Suc.IH [OF this, unfolded d]
    ultimately show ?thesis using True n by (simp add: f Let_def flip: r_def)
  qed
qed simp

lemma length_map_filter_le: "length (List.map_filter f xs) + length (filter (\<lambda>x. f x = None) xs) = length xs"
  by (induction xs) (auto split: option.splits)

lemma unifiedItems_length: "length (unifiedItems params objs) \<le> length objs"
proof -
  define os where "os = filter (inListing params) objs"
  have "length (remdups (List.map_filter (rolledUp params) os)) + length (filter (\<lambda>x. rolledUp params x = None) os) \<le> length os"
    using length_map_filter_le [of "rolledUp params" os] length_remdups_leq [of "List.map_filter (rolledUp params) os"]
    by linarith
  moreover have os: "length os \<le> length objs" by (simp add: os_def)
  moreover have u: "length (unifiedItems params objs) = length (filter (\<lambda>x. rolledUp params x = None) os) +
      (if pDelimiter params \<noteq> [] then length (extractCommonPrefixes os (pDelimiter params) (pPrefix params)) else 0)"
    unfolding unifiedItems_eq filterByVirtualPrefix_filter os_def by (simp add: conj_commute)
  moreover have "rolledUp params = commonPrefixOf (pDelimiter params) (pPrefix params)" if "pDelimiter params \<noteq> []"
    using that by (intro ext) (simp add: rolledUp_def)
  moreover have "length (filter P os) \<le> length os" for P by simp
  ultimately show ?thesis
    by (cases "pDelimiter params = []") (fastforce simp: extractCommonPrefixes_def intro: order_trans)+
qed

subsection \<open>Properties of pages\<close>

definition wholeObjects :: "list_v2_params \<Rightarrow> virtual_object list \<Rightarrow> virtual_object set" where
  "wholeObjects params objs = {obj \<in> set objs. inListing params obj \<and> rolledUp params obj = None}"

lemma sorted_contents: "sorted (map sortKey its) \<Longrightarrow> sorted (map oKey (contentsOf its)) \<and> sorted (prefixesOf its)"
proof (induction its)
  case (Cons it its) then show ?case by (cases it) force+
qed simp

lemma distinct_contents:
  "distinct (map sortKey its) \<Longrightarrow> distinct (map oKey (contentsOf its)) \<and> distinct (prefixesOf its)"
proof (induction its)
  case (Cons it its) then show ?case by (cases it) force+
qed simp

text \<open>
  C7: paging loses and repeats nothing of the objects that the router has collected, which are the same for
  every page and, as the code reads no more, those of the first page of each backend's listing: over the
  pages that the continuation tokens lead through from the start of the listing, in order, every
  collected object under the prefix that the delimiter does not group comes once, and every common prefix
  of them once; and the last page is not marked truncated.  The keys collected are distinct and not
  empty, and at least one key is asked for at a time.  Objects beyond the first page of a backend are
  not collected, and no page shows them.
\<close>

theorem listing_pages_complete:
  assumes "sorts_by sortKey sortItems" "distinct (map voVirtualKey objs)"
    "\<forall>obj \<in> set objs. voVirtualKey obj \<noteq> []" "0 < pMaxKeys params" "startAfterKey params = []"
    "length objs < fuel"
    "ps = listPages fuel (\<lambda>p. buildResponse sortItems b p objs) params"
  shows "\<not> lrIsTruncated (last ps) \<and>
    set (concat (map lrContents ps)) = {x. \<exists>obj \<in> wholeObjects params objs. objectItem obj = ObjectItem x} \<and>
    set (concat (map lrCommonPrefixes ps)) = {p. \<exists>obj \<in> set objs. inListing params obj \<and> rolledUp params obj = Some p} \<and>
    sorted_wrt (<) (map oKey (concat (map lrContents ps))) \<and> sorted_wrt (<) (concat (map lrCommonPrefixes ps))"
proof -
  let ?U = "sortItems (unifiedItems params objs)"
  have r: "page_items sortItems params objs = ?U" using assms(5) by (simp add: page_items_def itemsAfter_def)
  have len: "length (page_items sortItems params objs) < fuel"
    using unifiedItems_length [of params objs] sorts_by_length [OF assms(1)] assms(6) by (simp add: r)
  have "sorted (map sortKey ?U)" "distinct (map sortKey ?U)"
    using page_items_sorted [OF assms(1,2)] by (auto simp: strict_sorted_iff)
  note o = sorted_contents [OF this(1)] distinct_contents [OF this(2)]
  have unified_set: "set ?U = objectItem ` wholeObjects params objs \<union>
      PrefixItem ` {p. \<exists>obj \<in> set objs. inListing params obj \<and> rolledUp params obj = Some p}"
    unfolding sorts_by_set [OF assms(1)] unifiedItems_eq set_append set_map set_sort commonPrefixes_set
    by (auto simp: wholeObjects_def)
  have "ObjectItem x \<in> set ?U \<longleftrightarrow> (\<exists>obj \<in> wholeObjects params objs. objectItem obj = ObjectItem x)" for x
    unfolding unified_set by (auto simp: image_iff eq_commute [of "ObjectItem x"])
  moreover have "PrefixItem p \<in> set ?U \<longleftrightarrow> (\<exists>obj \<in> set objs. inListing params obj \<and> rolledUp params obj = Some p)" for p
    unfolding unified_set by (auto simp: objectItem_def)
  ultimately show ?thesis
    using listPages_all [OF assms(1-4) len, of b, folded assms(7)] o by (auto simp: r strict_sorted_iff)
qed

definition sample_objects :: "virtual_object list" where
  "sample_objects = map (\<lambda>k. \<lparr>voVirtualKey = k, voPhysicalKey = k, voBackendID = ''b'', voLastModified = 0,
     voETag = [], voSize = 1, voStorageClass = []\<rparr>) [''a'', ''d/x'', ''d/y'', ''e'']"

definition sample_params :: list_v2_params where
  "sample_params = \<lparr>pPrefix = [], pDelimiter = ''/'', pMaxKeys = 2, pStartAfter = [], pContinuationToken = []\<rparr>"

theorem listing_pages_complete_witness:
  "\<not> lrIsTruncated (last (listPages 5 (\<lambda>p. buildResponse (sort_key sortKey) ''v'' p sample_objects) sample_params)) \<and>
   ''d/'' \<in> set (concat (map lrCommonPrefixes
     (listPages 5 (\<lambda>p. buildResponse (sort_key sortKey) ''v'' p sample_objects) sample_params)))"
proof -
  have h: "distinct (map voVirtualKey sample_objects)" "\<forall>obj \<in> set sample_objects. voVirtualKey obj \<noteq> []"
    "0 < pMaxKeys sample_params" "startAfterKey sample_params = []" "length sample_objects < 5"
    by (simp_all add: sample_objects_def sample_params_def startAfterKey_def)
  note w = listing_pages_complete [OF sorts_by_sort_key h refl, of "''v''"]
  have "\<exists>obj \<in> set sample_objects. inListing sample_params obj \<and> rolledUp sample_params obj = Some ''d/''"
    by code_simp
  then show ?thesis
    using w [THEN conjunct1] unfolding w [THEN conjunct2, THEN conjunct2, THEN conjunct1] by blast
qed

text \<open>
  C27: a page made from the objects that the router has collected counts its objects and its common
  prefixes, holds no more of both than were asked for, and all of them are under the prefix and after the
  token; it is marked truncated exactly when more of what was collected is left.  What a backend has
  beyond the first page of its listing is not collected and does not mark a page truncated.
\<close>

theorem listing_page_bounds:
  assumes "sorts_by sortKey sortItems"
    "r = buildResponse sortItems b params objs"
  shows "lrKeyCount r = length (lrContents r) + length (lrCommonPrefixes r) \<and> lrKeyCount r \<le> pMaxKeys params \<and>
    (\<forall>k \<in> oKey ` set (lrContents r) \<union> set (lrCommonPrefixes r).
       HasPrefix k (pPrefix params) \<and> (startAfterKey params \<noteq> [] \<longrightarrow> startAfterKey params < k)) \<and>
    (lrIsTruncated r \<longleftrightarrow> pMaxKeys params < length (itemsAfter (startAfterKey params) (unifiedItems params objs)))"
proof -
  define s where "s = page_items sortItems params objs"
  note f = buildResponse_fields [OF assms(1), of b params objs, folded assms(2) s_def]
  have "HasPrefix (sortKey it) (pPrefix params)" if i: "it \<in> set (unifiedItems params objs)" for it
  proof -
    have "HasPrefix p (pPrefix params)" if "inListing params obj" "rolledUp params obj = Some p" for obj p
      using that(1) by (cases rule: rolledUp_cases) (use that(2) in auto)
    with i show ?thesis
      unfolding unifiedItems_eq set_append set_map set_sort commonPrefixes_set by (auto simp: inListing_def)
  qed
  then have it: "HasPrefix (sortKey it) (pPrefix params) \<and> (startAfterKey params \<noteq> [] \<longrightarrow> startAfterKey params < sortKey it)"
    if "it \<in> set s" for it
    using that sorts_by_set [OF assms(1)] by (auto simp: s_def page_items_def itemsAfter_def split: if_splits)
  have "HasPrefix k (pPrefix params) \<and> (startAfterKey params \<noteq> [] \<longrightarrow> startAfterKey params < k)"
    if k: "k \<in> oKey ` set (lrContents r) \<union> set (lrCommonPrefixes r)" for k
  proof -
    from k obtain it where "it \<in> set (take (pMaxKeys params) s)" "sortKey it = k"
      unfolding f by force
    with it show ?thesis by (metis in_set_takeD)
  qed
  moreover note page_items_length [OF assms(1), of params objs, folded s_def]
  ultimately show ?thesis using length_contents_prefixes by (simp add: f)
qed

theorem listing_page_bounds_witness:
  "lrKeyCount (buildResponse (sort_key sortKey) ''v'' sample_params sample_objects) \<le> 2"
  using listing_page_bounds [OF sorts_by_sort_key refl, of "''v''" sample_params sample_objects]
  by (simp add: sample_params_def)

text \<open>A request for no keys at all: the answer is truncated and has no token to go on with.\<close>

lemma max_keys_zero_stuck:
  "let r = buildResponse (sort_key sortKey) ''v'' (sample_params\<lparr>pMaxKeys := 0\<rparr>) sample_objects in
     lrIsTruncated r \<and> lrNextContinuationToken r = [] \<and> lrContents r = []"
proof -
  let ?p = "sample_params\<lparr>pMaxKeys := 0\<rparr>"
  note f = buildResponse_fields [OF sorts_by_sort_key, of "''v''" ?p sample_objects]
  have "filter (\<lambda>obj. inListing ?p obj \<and> rolledUp ?p obj = None) sample_objects \<noteq> []" by code_simp
  then have "unifiedItems ?p sample_objects \<noteq> []" unfolding unifiedItems_eq by blast
  moreover have "startAfterKey ?p = []" by (simp add: startAfterKey_def sample_params_def)
  ultimately have "0 < length (page_items (sort_key sortKey) ?p sample_objects)"
    using page_items_length [OF sorts_by_sort_key, of ?p sample_objects] by (simp add: itemsAfter_def)
  then show ?thesis by (simp add: f Let_def)
qed

end
