(* ===== verification/ListRoutes.thy ===== *)
theory ListRoutes
  imports ListObjects
begin

section \<open>Merging the listings of the routes\<close>

text \<open>
  Properties of the workers and the collector of ListObjects: the answer does not depend on the
  order in which the backends reply, what happens when some of them fail, the narrowing of the
  prefix that a backend is asked for, and the binary search.
\<close>

subsection \<open>The binary search\<close>

lemma findStartIndexFrom_correct:
  assumes "sorted (map voVirtualKey objs)" "l \<le> r" "r \<le> length objs"
    "\<forall>i < l. voVirtualKey (objs ! i) \<le> k" "\<forall>i. r \<le> i \<and> i < length objs \<longrightarrow> k < voVirtualKey (objs ! i)"
  shows "l \<le> findStartIndexFrom objs k l r \<and> findStartIndexFrom objs k l r \<le> r \<and>
    (\<forall>i < findStartIndexFrom objs k l r. voVirtualKey (objs ! i) \<le> k) \<and>
    (\<forall>i. findStartIndexFrom objs k l r \<le> i \<and> i < length objs \<longrightarrow> k < voVirtualKey (objs ! i))"
  using assms
proof (induction objs k l r rule: findStartIndexFrom.induct)
  case (1 objs k l r)
  have mono: "voVirtualKey (objs ! i) \<le> voVirtualKey (objs ! j)" if "i \<le> j" "j < length objs" for i j
    using sorted_nth_mono [OF "1.prems"(1) that(1)] that by simp
  show ?case
  proof (cases "l < r")
    case True
    define mid where "mid = l + (r - l) div 2"
    have m: "l \<le> mid" "mid < r" using True by (auto simp: mid_def)
    show ?thesis
    proof (cases "voVirtualKey (objs ! mid) \<le> k")
      case le: True
      have "\<forall>i < Suc mid. voVirtualKey (objs ! i) \<le> k"
        using mono [of _ mid] le m "1.prems"(3) by (meson less_Suc_eq_le order_trans order_less_le_trans)
      with "1.IH"(1) [OF True mid_def le] "1.prems" m True le show ?thesis
        by (subst (1 2 3 4) findStartIndexFrom.simps) (auto simp: Let_def simp flip: mid_def)
    next
      case gt: False
      have "\<forall>i. mid \<le> i \<and> i < length objs \<longrightarrow> k < voVirtualKey (objs ! i)"
        using mono [of mid] gt by (meson not_le order_trans)
      with "1.IH"(2) [OF True mid_def gt] "1.prems" m True gt show ?thesis
        by (subst (1 2 3 4) findStartIndexFrom.simps) (auto simp: Let_def simp flip: mid_def)
    qed
  next
    case False
    with "1.prems" show ?thesis by (subst (1 2 3 4) findStartIndexFrom.simps) auto
  qed
qed

text \<open>
  C36: on a sorted list, the binary search finds where the keys after the given one begin: what
  it leaves out and what it keeps are the objects up to the key and the objects after it.
\<close>

theorem find_start_index_reference:
  assumes "sorted (map voVirtualKey objs)"
  shows "take (findStartIndex objs k) objs = filter (\<lambda>obj. voVirtualKey obj \<le> k) objs \<and>
    drop (findStartIndex objs k) objs = filter (\<lambda>obj. k < voVirtualKey obj) objs"
proof -
  define n where "n = findStartIndex objs k"
  have n: "n \<le> length objs" "\<forall>i < n. voVirtualKey (objs ! i) \<le> k"
    "\<forall>i. n \<le> i \<and> i < length objs \<longrightarrow> k < voVirtualKey (objs ! i)"
    using findStartIndexFrom_correct [OF assms le0 le_refl, of k] unfolding n_def findStartIndex_def
    by (metis not_less_zero not_less)+
  have t: "\<forall>obj \<in> set (take n objs). voVirtualKey obj \<le> k" using n by (auto simp: in_set_conv_nth)
  have d: "\<forall>obj \<in> set (drop n objs). k < voVirtualKey obj" using n by (auto simp: in_set_conv_nth)
  have "filter P objs = filter P (take n objs) @ filter P (drop n objs)" for P
    by (metis append_take_drop_id filter_append)
  with t d show ?thesis by (auto simp: n_def [symmetric] filter_empty_conv filter_id_conv not_le not_less)
qed

theorem find_start_index_reference_witness:
  "take (findStartIndex sample_objects ''d/x'') sample_objects = filter (\<lambda>obj. voVirtualKey obj \<le> ''d/x'') sample_objects"
  using find_start_index_reference [of sample_objects "''d/x''"] by (simp add: sample_objects_def)

subsection \<open>The order of arrival\<close>

definition listed :: "route_result list \<Rightarrow> virtual_object list" where
  "listed rs = concat (map (\<lambda>r. case rrOutcome r of Inr vs \<Rightarrow> vs | Inl _ \<Rightarrow> []) rs)"

definition failures :: "route_result list \<Rightarrow> (nat \<times> string \<times> list_error) list" where
  "failures rs = List.map_filter
     (\<lambda>r. case rrOutcome r of Inl e \<Rightarrow> Some (rrRouteIndex r, rrBackendID r, e) | Inr _ \<Rightarrow> None) rs"

lemma collectResults_arrived:
  "collectResults (map Arrived rs) objs errs =
     (if errs @ failures rs \<noteq> [] \<and> objs @ listed rs = [] then Inl (RoutesFailed (errs @ failures rs))
      else Inr (objs @ listed rs))"
proof (induction rs arbitrary: objs errs)
  case (Cons r rs) then show ?case by (cases "rrOutcome r") (auto simp: listed_def failures_def)
qed (simp add: listed_def failures_def)

text \<open>A schedule that delivers every result, in some order.\<close>

definition delivers_all :: "(route_result list \<Rightarrow> event list) \<Rightarrow> bool" where
  "delivers_all schedule \<longleftrightarrow> (\<forall>rs. mset (schedule rs) = mset (map Arrived rs))"

lemma delivers_all_map [simp, intro]: "delivers_all (map Arrived)" "delivers_all (\<lambda>rs. rev (map Arrived rs))"
  by (simp_all add: delivers_all_def)

lemma delivers_all_perm:
  assumes "delivers_all schedule"
  obtains rs' where "schedule rs = map Arrived rs'" "mset rs' = mset rs"
proof -
  have m: "mset (schedule rs) = image_mset Arrived (mset rs)" using assms by (simp add: delivers_all_def)
  define rs' where "rs' = map (\<lambda>e. case e of Arrived r \<Rightarrow> r | Expired \<Rightarrow> undefined) (schedule rs)"
  have "\<forall>e \<in> set (schedule rs). \<exists>r. e = Arrived r"
    using m by (metis image_mset_cong imageE set_image_mset set_mset_mset)
  then have "schedule rs = map Arrived rs'" unfolding rs'_def by (auto simp: o_def intro!: map_idI [symmetric])
  moreover have "mset rs' = mset rs" unfolding rs'_def mset_map m by (simp add: image_mset.compositionality o_def)
  ultimately show ?thesis by (rule that)
qed

lemma mset_listed: "mset rs' = mset rs \<Longrightarrow> mset (listed rs') = mset (listed rs)"
proof -
  have "mset (listed rs) = sum_mset (image_mset (\<lambda>r. mset (case rrOutcome r of Inr vs \<Rightarrow> vs | Inl _ \<Rightarrow> [])) (mset rs))" for rs
    by (induction rs) (auto simp: listed_def)
  then show "mset rs' = mset rs \<Longrightarrow> mset (listed rs') = mset (listed rs)" by simp
qed

lemma failures_empty: "failures rs = [] \<longleftrightarrow> (\<forall>r \<in> set rs. \<exists>vs. rrOutcome r = Inr vs)"
  by (induction rs) (auto simp: failures_def split: sum.splits)

lemma sorted_key_unique:
  assumes "sorts_by k f" "sorts_by k g" "mset xs = mset ys" "distinct (map k xs)"
  shows "f xs = g ys"
proof -
  have m: "mset (f xs) = mset (g ys)" using assms(1-3) by (simp add: sorts_by_def)
  then have "mset (map k (f xs)) = mset (map k (g ys))" by simp
  moreover have "sorted (map k (f xs))" "sorted (map k (g ys))" using assms(1,2) by (simp_all add: sorts_by_def)
  ultimately have "map k (f xs) = map k (g ys)" by (metis properties_for_sort)
  moreover have "inj_on k (set (f xs) \<union> set (g ys))"
    using assms(4) sorts_by_set [OF assms(1), of xs] mset_eq_setD [OF m] by (simp add: distinct_map)
  ultimately show ?thesis by (rule map_inj_on)
qed

definition list_backend :: "string \<Rightarrow> backend_config" where
  "list_backend i = \<lparr>bID = i, bEndpoint = [], bRegion = [], bBucket = ''phys'', bPrefix = [], bTimeout = 0, bRetries = 0,
     bUsePathStyle = False, bUseFIPS = False, bUseGlobalEndpoint = False, bUseDualStack = False, bAccelerate = False,
     bCredentials = None\<rparr>"

definition list_config :: config where
  "list_config = \<lparr>cfgBackends = [], cfgBuckets = [(''v'', \<lparr>bkName = ''v'', bkRoutes =
       [(sample_route ''^img/'')\<lparr>rtBackend := Some (list_backend ''b1'')\<rparr>,
        (sample_route ''.*'')\<lparr>rtBackend := Some (list_backend ''b2'')\<rparr>]\<rparr>)], cfgFeatures = [],
     cfgCredentialsStore = None, cfgServer = None, cfgAuth = None, cfgVirtualHosts = None\<rparr>"

definition list_clients :: clients where
  "list_clients i =
     (if i = ''b1'' then Some \<lparr>lcBucket = ''p1'', lcPrefix = ''x/'', lcListObjectsV2 = (\<lambda>_. Inr (map (\<lambda>k.
        \<lparr>sKey = Some k, sLastModified = Some 0, sETag = None, sSize = Some 3, sStorageClass = []\<rparr>) [''x/img/a'', ''x/doc'', ''y'']))\<rparr>
      else if i = ''b2'' then Some \<lparr>lcBucket = ''p2'', lcPrefix = [], lcListObjectsV2 = (\<lambda>_. Inr (map (\<lambda>k.
        \<lparr>sKey = Some k, sLastModified = Some 0, sETag = None, sSize = Some 3, sStorageClass = []\<rparr>) [''doc/b'', ''a'']))\<rparr>
      else None)"

definition list_results :: "route_result list" where
  "list_results = (case runWorkers list_clients sample_params 0 (bkRoutes (snd (hd (cfgBuckets list_config)))) [] of
     (Inr rs, _) \<Rightarrow> rs | _ \<Rightarrow> [])"

lemma list_results_keys: "map voVirtualKey (listed list_results) = [''img/a'', ''doc/b'', ''a''] \<and> failures list_results = []"
  by code_simp

lemma list_results_run:
  "\<exists>opt'. runWorkers list_clients sample_params 0 (bkRoutes (snd (hd (cfgBuckets list_config)))) [] = (Inr list_results, opt')"
proof -
  have "case runWorkers list_clients sample_params 0 (bkRoutes (snd (hd (cfgBuckets list_config)))) [] of
    (Inr _, _) \<Rightarrow> True | _ \<Rightarrow> False" by code_simp
  then show ?thesis by (auto simp: list_results_def split: prod.splits sum.splits)
qed

text \<open>
  C22: a listing does not depend on the order in which the backends answer: if it succeeds with
  one order and the routes contribute different keys, it succeeds with every other, with the same
  response.
\<close>

theorem listing_order_independent:
  assumes "sorts_by voVirtualKey sortObjects" "sorts_by sortKey sortItems" "delivers_all schedule" "delivers_all schedule'"
    "map_of (cfgBuckets cfg) b = Some bk"
    "runWorkers GetClient params 0 (bkRoutes bk) opt = (Inr rs, opt')" "distinct (map voVirtualKey (listed rs))"
    "HandleListObjectsV2 cfg GetClient schedule sortObjects sortItems opt b params = (Inr resp, opt'')"
  shows "HandleListObjectsV2 cfg GetClient schedule' sortObjects sortItems opt b params = (Inr resp, opt'')"
proof (cases "bkRoutes bk = []")
  case True
  with assms(5,8) show ?thesis by (simp add: HandleListObjectsV2_def ProcessRoutesParallel_def)
next
  case False
  obtain rs1 where r1: "schedule rs = map Arrived rs1" "mset rs1 = mset rs"
    using delivers_all_perm [OF assms(3)] by metis
  obtain rs2 where r2: "schedule' rs = map Arrived rs2" "mset rs2 = mset rs"
    using delivers_all_perm [OF assms(4)] by metis
  have m: "mset (listed rs1) = mset (listed rs)" "mset (listed rs2) = mset (listed rs)"
    using r1(2) r2(2) mset_listed by blast+
  have f: "failures rs1 = [] \<longleftrightarrow> failures rs2 = []" "listed rs1 = [] \<longleftrightarrow> listed rs2 = []"
    using mset_eq_setD [OF r1(2)] mset_eq_setD [OF r2(2)] m by (auto simp: failures_empty)
  have "distinct (map voVirtualKey (listed rs1))"
    using assms(7) m(1) by (metis mset_map mset_eq_imp_distinct_iff)
  then have "sortObjects (listed rs1) = sortObjects (listed rs2)"
    using sorted_key_unique [OF assms(1,1)] m by metis
  with assms(5,6,8) False f show ?thesis
    by (auto simp: HandleListObjectsV2_def ProcessRoutesParallel_def r1(1) r2(1) collectResults_arrived split: if_splits)
qed

theorem listing_order_independent_witness:
  "\<exists>resp opt''. HandleListObjectsV2 list_config list_clients (\<lambda>rs. rev (map Arrived rs)) (sort_key voVirtualKey)
     (sort_key sortKey) [] ''v'' sample_params = (Inr resp, opt'')"
proof -
  obtain bk where bk: "map_of (cfgBuckets list_config) ''v'' = Some bk" "bk = snd (hd (cfgBuckets list_config))"
    by (simp add: list_config_def)
  obtain opt' where r: "runWorkers list_clients sample_params 0 (bkRoutes bk) [] = (Inr list_results, opt')"
    using list_results_run bk(2) by auto
  have "bkRoutes bk \<noteq> []" using bk by (simp add: list_config_def)
  then obtain resp where "HandleListObjectsV2 list_config list_clients (map Arrived) (sort_key voVirtualKey)
      (sort_key sortKey) [] ''v'' sample_params = (Inr resp, opt')"
    using list_results_keys by (simp add: HandleListObjectsV2_def ProcessRoutesParallel_def bk(1) r collectResults_arrived)
  from listing_order_independent [OF sorts_by_sort_key sorts_by_sort_key delivers_all_map(1,2) bk(1) r _ this]
  show ?thesis using list_results_keys by auto
qed

text \<open>
  C35: a listing fails when some route failed and no route listed anything, and only then: routes
  that fail are left out silently as soon as another one lists an object, and a failure hides the
  empty listings of the others.
\<close>

theorem listing_failure:
  assumes "delivers_all schedule" "runWorkers GetClient params 0 routes opt = (Inr rs, opt')"
  shows "(\<exists>e. fst (ProcessRoutesParallel GetClient schedule opt routes params) = Inl e) \<longleftrightarrow>
    (\<exists>r \<in> set rs. \<exists>e. rrOutcome r = Inl e) \<and> listed rs = []"
proof (cases "routes = []")
  case True
  with assms(2) show ?thesis by (auto simp: ProcessRoutesParallel_def)
next
  case False
  obtain rs' where r: "schedule rs = map Arrived rs'" "mset rs' = mset rs"
    using delivers_all_perm [OF assms(1)] by metis
  have l: "listed rs' = [] \<longleftrightarrow> listed rs = []" using mset_listed [OF r(2)] by (metis mset_zero_iff)
  have "failures rs' = [] \<longleftrightarrow> \<not> (\<exists>r \<in> set rs. \<exists>e. rrOutcome r = Inl e)"
    using mset_eq_setD [OF r(2)] by (auto simp: failures_empty) (metis sum.exhaust)+
  with False l assms(2) show ?thesis
    by (auto simp: ProcessRoutesParallel_def r(1) collectResults_arrived)
qed

theorem listing_failure_witness:
  "\<not> (\<exists>e. fst (ProcessRoutesParallel list_clients (map Arrived) []
     (bkRoutes (snd (hd (cfgBuckets list_config)))) sample_params) = Inl e)"
proof -
  obtain opt' where r: "runWorkers list_clients sample_params 0 (bkRoutes (snd (hd (cfgBuckets list_config)))) [] =
    (Inr list_results, opt')" using list_results_run by blast
  have "listed list_results \<noteq> []" using list_results_keys by auto
  with listing_failure [OF delivers_all_map(1) r] show ?thesis by blast
qed

subsection \<open>The narrowed prefix\<close>

lemma HasPrefix_append_same [simp]: "HasPrefix (a @ s) (a @ p) \<longleftrightarrow> HasPrefix s p"
  by (simp add: HasPrefix_def)

lemma trivial_rewrite:
  assumes "paHasTrivialRewrite (analyzeRewrites [rw] a0)"
  obtains t where "rwResult rw = Some t" "\<not> ta_ContainsConditionals (tmpl_analysis t)"
    "ta_Prefix (tmpl_analysis t) = [] \<and> length (ta_Rest (tmpl_analysis t)) = 1 \<and>
       snd (hd (ta_Rest (tmpl_analysis t))) = [] \<or> ta_Prefix (tmpl_analysis t) \<noteq> []"
    "paRewriteResultPrefix (analyzeRewrites [rw] a0) = ta_Prefix (tmpl_analysis t)"
proof (cases "rwPattern rw")
  case None
  show ?thesis
  proof (cases "rwResult rw")
    case (Some t)
    with None assms show ?thesis
      by (intro that [of t]) (simp_all add: analyzeRewrites_def Let_def split: if_splits)
  qed (use None assms in \<open>simp add: analyzeRewrites_def\<close>)
qed (use assms in \<open>simp add: analyzeRewrites_def\<close>)

text \<open>
  C14: when a route has one rewrite without a pattern of its own, and the two places that compute
  a literal prefix of its pattern agree, narrowing the backend query to the computed physical prefix
  loses no object: an object whose virtual key is under the requested prefix has a physical key,
  with the prefix the rewrite adds, under the physical prefix.
\<close>

theorem narrowed_prefix_complete:
  assumes "a = analyzePattern (re_text re) [rw]" "extractStaticPrefixFromRegex (re_text re) = paStaticPrefix a"
    "reverseRewrite physicalKey re [rw] = Some virtualKey" "HasPrefix virtualKey (pPrefix params)"
    "HasPrefix physicalKey (paRewriteResultPrefix a)"
  shows "HasPrefix physicalKey (pPrefix (createOptimizedParams params a))"
proof (cases "paHasTrivialRewrite a")
  case False
  then show ?thesis by (simp add: createOptimizedParams_def split_def Let_def)
next
  case True
  obtain a0 where a0: "a = analyzeRewrites [rw] a0"
    using assms(1) unfolding analyzePattern_def Let_def split_def by metis
  obtain r where r: "physicalKey = paRewriteResultPrefix a @ r" using assms(5) by (auto simp: HasPrefix_iff)
  have "virtualKey = paStaticPrefix a @ r"
  proof -
    obtain t where t: "rwResult rw = Some t" "\<not> ta_ContainsConditionals (tmpl_analysis t)"
      "ta_Prefix (tmpl_analysis t) = [] \<and> length (ta_Rest (tmpl_analysis t)) = 1 \<and>
         snd (hd (ta_Rest (tmpl_analysis t))) = [] \<or> ta_Prefix (tmpl_analysis t) \<noteq> []"
      "paRewriteResultPrefix a = ta_Prefix (tmpl_analysis t)"
      using trivial_rewrite [OF True [unfolded a0]] unfolding a0 by metis
    have "reverseRewriteRule physicalKey rw (paStaticPrefix a) = Some virtualKey"
      using assms(2,3) by (simp add: reverseRewrite_def applyReverseRewrites_def)
    then have "\<exists>u. virtualKey = paStaticPrefix a @ u \<and> (u = physicalKey \<and> ta_Prefix (tmpl_analysis t) = [] \<or>
        u = TrimPrefix physicalKey (ta_Prefix (tmpl_analysis t)))"
      using t r by (simp add: reverseRewriteRule_def Let_def split: if_splits)
    then show ?thesis using t(4) r by auto
  qed
  with assms(4) have vp: "HasPrefix (paStaticPrefix a @ r) (pPrefix params)" by simp
  have "HasPrefix (paRewriteResultPrefix a @ r) (fst (ComputePhysicalPrefix (pPrefix params) a))"
  proof (cases "HasPrefix (pPrefix params) (paStaticPrefix a)")
    case h: True
    then obtain u where "pPrefix params = paStaticPrefix a @ u" by (auto simp: HasPrefix_iff)
    with vp True show ?thesis by (simp add: ComputePhysicalPrefix_def)
  next
    case False
    with vp True show ?thesis by (auto simp: ComputePhysicalPrefix_def)
  qed
  then show ?thesis by (simp add: createOptimizedParams_def split_def Let_def r)
qed

definition sample_rewrite :: "string \<Rightarrow> rewrite_rule" where
  "sample_rewrite r = \<lparr>rwPattern = None, rwResult = (case Parse r of Inr t \<Rightarrow> Some t | Inl _ \<Rightarrow> None)\<rparr>"

definition sample_re :: "string \<Rightarrow> regexp" where
  "sample_re p = (case Compile p of Inr re \<Rightarrow> re | Inl _ \<Rightarrow> \<lparr>re_text = [], re_prog = REmpty, re_names = []\<rparr>)"

theorem narrowed_prefix_complete_witness:
  "HasPrefix ''p/bar/x'' (pPrefix (createOptimizedParams (sample_params\<lparr>pPrefix := ''foo/ba''\<rparr>)
     (analyzePattern (re_text (sample_re ''^foo/(.*)'')) [sample_rewrite ''p/$1''])))"
  by (rule narrowed_prefix_complete [OF refl, of _ _ _ "''foo/bar/x''"]) code_simp+

text \<open>
  Without rewrites the physical key is the virtual key, but the static prefix is taken off the
  requested prefix all the same: the backend is asked for keys under another prefix.
\<close>

lemma unrewritten_prefix_loses:
  "let re = sample_re ''^foo/.*'' in
     MatchString re ''foo/bar'' \<and> reverseRewrite ''foo/bar'' re [] = Some ''foo/bar'' \<and> HasPrefix ''foo/bar'' ''foo/b'' \<and>
     pPrefix (createOptimizedParams (sample_params\<lparr>pPrefix := ''foo/b''\<rparr>) (analyzePattern (re_text re) [])) = ''b'' \<and>
     \<not> HasPrefix ''foo/bar'' ''b''"
  by code_simp

text \<open>
  The two literal prefixes differ when the literal part does not end at a slash: a rewritten key
  is outside the narrowed prefix as well.
\<close>

lemma narrowed_prefix_loses:
  "let re = sample_re ''^foo/v(.*)''; rw = sample_rewrite ''$1'' in
     MatchString re ''foo/v1/a'' \<and> reverseRewrite ''1/a'' re [rw] = Some ''foo/v1/a'' \<and>
     HasPrefix ''foo/v1/a'' ''foo/v1'' \<and>
     pPrefix (createOptimizedParams (sample_params\<lparr>pPrefix := ''foo/v1''\<rparr>) (analyzePattern (re_text re) [rw])) = ''v1'' \<and>
     \<not> HasPrefix ''1/a'' ''v1''"
  by code_simp

end
