(* ===== verification/Crypto.thy ===== *)
theory Crypto
  imports Prelude "HOL-Library.Word"
begin

section \<open>SHA-256, HMAC and hexadecimal (packages crypto/sha256, crypto/hmac, encoding/hex)\<close>

text \<open>
  The hash functions of Go's standard library that the signatures are made with, as executable
  definitions on 32-bit words after FIPS 180-4 and RFC 2104.
\<close>

unbundle bit_operations_syntax

type_synonym w32 = "32 word"

subsection \<open>SHA-256\<close>

definition rotr :: "nat \<Rightarrow> w32 \<Rightarrow> w32" where
  "rotr n w = drop_bit n w OR push_bit (32 - n) w"

definition Ch :: "w32 \<Rightarrow> w32 \<Rightarrow> w32 \<Rightarrow> w32" where
  "Ch x y z = (x AND y) XOR (NOT x AND z)"

definition Maj :: "w32 \<Rightarrow> w32 \<Rightarrow> w32 \<Rightarrow> w32" where
  "Maj x y z = (x AND y) XOR (x AND z) XOR (y AND z)"

definition Sigma0 :: "w32 \<Rightarrow> w32" where
  "Sigma0 x = rotr 2 x XOR rotr 13 x XOR rotr 22 x"

definition Sigma1 :: "w32 \<Rightarrow> w32" where
  "Sigma1 x = rotr 6 x XOR rotr 11 x XOR rotr 25 x"

definition sigma0 :: "w32 \<Rightarrow> w32" where
  "sigma0 x = rotr 7 x XOR rotr 18 x XOR drop_bit 3 x"

definition sigma1 :: "w32 \<Rightarrow> w32" where
  "sigma1 x = rotr 17 x XOR rotr 19 x XOR drop_bit 10 x"

text \<open>The constants of the 64 rounds and of the first chaining value, in decimal.\<close>

definition round_constants :: "w32 list" where
  "round_constants = [
     1116352408, 1899447441, 3049323471, 3921009573, 961987163, 1508970993, 2453635748, 2870763221,
     3624381080, 310598401, 607225278, 1426881987, 1925078388, 2162078206, 2614888103, 3248222580,
     3835390401, 4022224774, 264347078, 604807628, 770255983, 1249150122, 1555081692, 1996064986,
     2554220882, 2821834349, 2952996808, 3210313671, 3336571891, 3584528711, 113926993, 338241895,
     666307205, 773529912, 1294757372, 1396182291, 1695183700, 1986661051, 2177026350, 2456956037,
     2730485921, 2820302411, 3259730800, 3345764771, 3516065817, 3600352804, 4094571909, 275423344,
     430227734, 506948616, 659060556, 883997877, 958139571, 1322822218, 1537002063, 1747873779,
     1955562222, 2024104815, 2227730452, 2361852424, 2428436474, 2756734187, 3204031479, 3329325298]"

text \<open>A chaining value: the eight working variables.\<close>

type_synonym chaining = "w32 \<times> w32 \<times> w32 \<times> w32 \<times> w32 \<times> w32 \<times> w32 \<times> w32"

definition initial_hash :: chaining where
  "initial_hash =
     (1779033703, 3144134277, 1013904242, 2773480762, 1359893119, 2600822924, 528734635, 1541459225)"

fun round_step :: "w32 \<times> w32 \<Rightarrow> chaining \<Rightarrow> chaining" where
  "round_step (k, w) (a, b, c, d, e, f, g, h) =
     (let t1 = h + Sigma1 e + Ch e f g + k + w; t2 = Sigma0 a + Maj a b c
      in (t1 + t2, a, b, c, d + t1, e, f, g))"

text \<open>The message schedule, kept in reverse order while it grows.\<close>

fun extend_schedule :: "nat \<Rightarrow> w32 list \<Rightarrow> w32 list" where
  "extend_schedule 0 ws = ws"
| "extend_schedule (Suc n) ws =
     extend_schedule n ((sigma1 (ws ! 1) + ws ! 6 + sigma0 (ws ! 14) + ws ! 15) # ws)"

fun add_chaining :: "chaining \<Rightarrow> chaining \<Rightarrow> chaining" where
  "add_chaining (a, b, c, d, e, f, g, h) (a', b', c', d', e', f', g', h') =
     (a + a', b + b', c + c', d + d', e + e', f + f', g + g', h + h')"

definition compress :: "w32 list \<Rightarrow> chaining \<Rightarrow> chaining" where
  "compress block hv =
     add_chaining hv (fold round_step (zip round_constants (rev (extend_schedule 48 (rev block)))) hv)"

subsection \<open>Bytes and words\<close>

fun bytes_word :: "string \<Rightarrow> w32" where
  "bytes_word s = fold (\<lambda>c w. 256 * w + word_of_nat (of_char c)) s 0"

definition word_bytes :: "w32 \<Rightarrow> string" where
  "word_bytes w = map (\<lambda>i. char_of (unat (drop_bit i w))) [24, 16, 8, 0]"

text \<open>Big-endian bytes of a number, for the length field.\<close>

fun be_bytes :: "nat \<Rightarrow> nat \<Rightarrow> string" where
  "be_bytes 0 n = []"
| "be_bytes (Suc k) n = be_bytes k (n div 256) @ [char_of n]"

definition padding :: "nat \<Rightarrow> string" where
  "padding n = CHR 0x80 # replicate ((119 - n mod 64) mod 64) (CHR 0x00) @ be_bytes 8 (8 * n)"

fun chunks_of :: "nat \<Rightarrow> nat \<Rightarrow> 'a list \<Rightarrow> 'a list list" where
  "chunks_of 0 n xs = []"
| "chunks_of (Suc fuel) n xs = (if xs = [] then [] else take n xs # chunks_of fuel n (drop n xs))"

definition message_blocks :: "string \<Rightarrow> w32 list list" where
  "message_blocks s =
     (let m = s @ padding (length s) in
      map (\<lambda>b. map bytes_word (chunks_of 16 4 b)) (chunks_of (length m div 64) 64 m))"

definition chaining_bytes :: "chaining \<Rightarrow> string" where
  "chaining_bytes hv = (case hv of (a, b, c, d, e, f, g, h) \<Rightarrow> concat (map word_bytes [a, b, c, d, e, f, g, h]))"

definition Sum256 :: "string \<Rightarrow> string" where
  "Sum256 s = chaining_bytes (fold compress (message_blocks s) initial_hash)"

lemma length_word_bytes [simp]: "length (word_bytes w) = 4"
  by (simp add: word_bytes_def)

lemma length_Sum256 [simp]: "length (Sum256 s) = 32"
  by (simp add: Sum256_def chaining_bytes_def split: prod.split)

subsection \<open>HMAC\<close>

definition xor_byte :: "nat \<Rightarrow> char \<Rightarrow> char" where
  "xor_byte n c = char_of (n XOR of_char c)"

definition hmacSHA256 :: "string \<Rightarrow> string \<Rightarrow> string" where
  "hmacSHA256 key msg =
     (let k0 = (if length key > 64 then Sum256 key else key);
          k = k0 @ replicate (64 - length k0) (CHR 0x00)
      in Sum256 (map (xor_byte 0x5C) k @ Sum256 (map (xor_byte 0x36) k @ msg)))"

lemma length_hmacSHA256 [simp]: "length (hmacSHA256 key msg) = 32"
  by (simp add: hmacSHA256_def Let_def)

subsection \<open>Hexadecimal\<close>

definition EncodeToString :: "string \<Rightarrow> string" where
  "EncodeToString s = concat (map (\<lambda>c. [digit_char (of_char c div 16), digit_char (of_char c mod 16)]) s)"

lemma length_EncodeToString [simp]: "length (EncodeToString s) = 2 * length s"
  by (induction s) (auto simp: EncodeToString_def)

lemma hex_pair_inj:
  assumes "[digit_char (of_char c div 16), digit_char (of_char c mod 16)] =
    [digit_char (of_char d div 16), digit_char (of_char d mod 16)]"
  shows "c = d"
proof -
  have inj: "x = y" if "digit_char x = digit_char y" "x < 16" "y < 16" for x y
  proof -
    have "digit_value (digit_char x) = Some x" by (rule digit_value_digit_char) (use that(2) in linarith)
    moreover have "digit_value (digit_char y) = Some y" by (rule digit_value_digit_char) (use that(3) in linarith)
    ultimately show "x = y" by (metis that(1) option.inject)
  qed
  have lt: "(of_char c :: nat) div 16 < 16" "(of_char d :: nat) div 16 < 16"
    using nat_of_char_less_256 [of c] nat_of_char_less_256 [of d] by (simp_all add: less_mult_imp_div_less)
  have "(of_char c :: nat) div 16 = of_char d div 16" by (rule inj [OF _ lt]) (use assms in simp)
  moreover have "(of_char c :: nat) mod 16 = of_char d mod 16" by (rule inj) (use assms in simp_all)
  ultimately have "of_char c = (of_char d :: nat)" by (metis div_mult_mod_eq)
  then show "c = d" by simp
qed

end
