(* ===== verification/Chunked.thy ===== *)
theory Chunked
  imports Crypto ParseValue
begin

section \<open>Re-signing an aws-chunked body\<close>

text \<open>
  \<open>internal/backend/proxy/chunked.go\<close>: a reader that decodes the chunks of a client's upload and
  encodes their payload again in chunks of 64 KB, each signed with the backend's key and chained to
  the signature before it.

  The source is the bytes it still holds and the error it reports after them (\<open>io.EOF\<close>, or
  \<open>io.ErrUnexpectedEOF\<close> when a connection ends before the announced length).  The loop of \<open>Read\<close> may run forever, so it is a
  partial function: \<^const>\<open>None\<close> is a call that does not return.
\<close>

subsection \<open>Signing\<close>

definition emptyStringHash :: string where
  "emptyStringHash = ''e3b0c44298fc1c149afbf4c8996fb92427ae41e4649b934ca495991b7852b855''"

definition hmacSHA256Bytes :: "string \<Rightarrow> string \<Rightarrow> string" where
  "hmacSHA256Bytes key msg = hmacSHA256 key msg"

definition DeriveSigningKey :: "string \<Rightarrow> string \<Rightarrow> string \<Rightarrow> string \<Rightarrow> string" where
  "DeriveSigningKey secretKey dateStamp region service =
     (let kDate = hmacSHA256Bytes (''AWS4'' @ secretKey) dateStamp;
          kRegion = hmacSHA256Bytes kDate region;
          kService = hmacSHA256Bytes kRegion service
      in hmacSHA256Bytes kService ''aws4_request'')"

definition newline :: string where "newline = [CHR 0x0A]"

definition CRLF :: string where "CRLF = [CHR 0x0D, CHR 0x0A]"

definition signChunk :: "string \<Rightarrow> string \<Rightarrow> string \<Rightarrow> string \<Rightarrow> string \<Rightarrow> string" where
  "signChunk signingKey amzDate credentialScope prevSig chunk =
     EncodeToString (hmacSHA256 signingKey
       (''AWS4-HMAC-SHA256-PAYLOAD'' @ newline @ amzDate @ newline @ credentialScope @ newline @ prevSig @ newline @
        emptyStringHash @ newline @ EncodeToString (Sum256 chunk)))"

definition IsAwsChunked :: "string \<Rightarrow> bool" where
  "IsAwsChunked contentEncoding \<longleftrightarrow> Contains (ToLower contentEncoding) ''aws-chunked''"

definition ExtractSeedSignature :: "string \<Rightarrow> string" where
  "ExtractSeedSignature authHeader =
     (case strIndex authHeader ''Signature='' of
        None \<Rightarrow> []
      | Some idx \<Rightarrow>
          (let sig = drop (idx + 10) authHeader in
           TrimSpace (case IndexByte sig CHR '','' of Some i \<Rightarrow> take i sig | None \<Rightarrow> sig)))"

subsection \<open>The encoder\<close>

datatype read_error =
    EOF
  | UnexpectedEOF
  | SourceError string
  | ChunkDataError read_error
  | ChunkEndError read_error
  | InvalidChunkSize string
  | TrailerError read_error

record encoder =
  ceSrc :: string
  ceSrcEnd :: read_error
  ceSigningKey :: string
  ceAmzDate :: string
  ceScope :: string
  cePrevSig :: string
  ceOutput :: string
  ceChunkSize :: nat
  ceRaw :: string
  ceDone :: bool
  ceSrcRemaining :: int
  ceSrcEOF :: bool

text \<open>\<open>amzDate[:8]\<close> panics on a shorter date: \<^const>\<open>None\<close>.\<close>

definition NewAwsChunkedReEncoder ::
  "string \<times> read_error \<Rightarrow> string \<Rightarrow> string \<Rightarrow> string \<Rightarrow> string \<Rightarrow> encoder option" where
  "NewAwsChunkedReEncoder src signingKey amzDate region seedSignature =
     (if length amzDate < 8 then None
      else Some \<lparr>ceSrc = fst src, ceSrcEnd = snd src, ceSigningKey = signingKey, ceAmzDate = amzDate,
        ceScope = take 8 amzDate @ ''/'' @ region @ ''/s3/aws4_request'', cePrevSig = seedSignature,
        ceOutput = [], ceChunkSize = 64 * 1024, ceRaw = [], ceDone = False, ceSrcRemaining = 0, ceSrcEOF = False\<rparr>)"

text \<open>\<open>io.ReadFull\<close> and \<open>ReadBytes('\n')\<close> on the source.\<close>

definition ReadFull :: "nat \<Rightarrow> encoder \<Rightarrow> (string \<times> read_error option) \<times> encoder" where
  "ReadFull n st =
     (let s = ceSrc st in
      if n \<le> length s then ((take n s, None), st\<lparr>ceSrc := drop n s\<rparr>)
      else ((s, Some (if ceSrcEnd st = EOF \<and> s \<noteq> [] then UnexpectedEOF else ceSrcEnd st)), st\<lparr>ceSrc := []\<rparr>))"

definition ReadLine :: "encoder \<Rightarrow> (string \<times> read_error option) \<times> encoder" where
  "ReadLine st =
     (case IndexByte (ceSrc st) (CHR 0x0A) of
        Some i \<Rightarrow> ((take (Suc i) (ceSrc st), None), st\<lparr>ceSrc := drop (Suc i) (ceSrc st)\<rparr>)
      | None \<Rightarrow> ((ceSrc st, Some (ceSrcEnd st)), st\<lparr>ceSrc := []\<rparr>))"

definition trimLine :: "string \<Rightarrow> string" where
  "trimLine l = TrimSuffix (TrimSuffix l CRLF) newline"

lemma ReadLine_shorter: "ReadLine st = ((l, None), st') \<Longrightarrow> length (ceSrc st') < length (ceSrc st)"
  by (auto simp: ReadLine_def dest: IndexByte_Some split: option.splits)

text \<open>The trailers, up to an empty line or the end.\<close>

function skipTrailers :: "encoder \<Rightarrow> read_error \<times> encoder" where
  "skipTrailers st =
     (case ReadLine st of
        ((l, None), st') \<Rightarrow> if trimLine l = [] then (EOF, st') else skipTrailers st'
      | ((l, Some EOF), st') \<Rightarrow> (EOF, st')
      | ((l, Some e), st') \<Rightarrow> (TrailerError e, st'))"
  by pat_completeness auto
termination
  by (relation "measure (\<lambda>st. length (ceSrc st))") (auto dest: sym [THEN ReadLine_shorter])

declare skipTrailers.simps [simp del]

text \<open>
  A step of decoding.  A chunk of negative size is not refused: its header is skipped, and the
  next line is read as a header.
\<close>

function readFromSource :: "encoder \<Rightarrow> read_error option \<times> encoder" where
  "readFromSource st =
     (if ceSrcRemaining st > 0 then
        (let toRead = (if ceSrcRemaining st > int (ceChunkSize st) then int (ceChunkSize st) else ceSrcRemaining st);
             ((buf, err), st1) = ReadFull (nat toRead) st
         in if err \<noteq> None \<and> err \<noteq> Some EOF \<and> err \<noteq> Some UnexpectedEOF then (Some (ChunkDataError (the err)), st1)
            else
              (let st2 = st1\<lparr>ceRaw := ceRaw st1 @ buf, ceSrcRemaining := ceSrcRemaining st1 - int (length buf)\<rparr> in
               if ceSrcRemaining st2 = 0 then
                 (let ((crlf, err'), st3) = ReadFull 2 st2 in
                  if err' \<noteq> None \<and> err' \<noteq> Some EOF then (Some (ChunkEndError (the err')), st3) else (None, st3))
               else (None, st2)))
      else
        (case ReadLine st of
           ((l, Some e), st1) \<Rightarrow> (Some e, st1)
         | ((l, None), st1) \<Rightarrow>
             (let sizeHex = TrimSpace (hd (SplitN2 (trimLine l) '';'')) in
              case ParseInt sizeHex 16 of
                None \<Rightarrow> (Some (InvalidChunkSize sizeHex), st1)
              | Some chunkSize \<Rightarrow>
                  (if chunkSize = 0 then (let (e, st2) = skipTrailers st1 in (Some e, st2))
                   else readFromSource (st1\<lparr>ceSrcRemaining := chunkSize\<rparr>)))))"
  by pat_completeness auto
termination
  by (relation "measure (\<lambda>st. length (ceSrc st))") (auto dest: sym [THEN ReadLine_shorter])

declare readFromSource.simps [simp del]

definition chunkText :: "string \<Rightarrow> string \<Rightarrow> string" where
  "chunkText sig d = fmt_x (length d) @ '';chunk-signature='' @ sig @ CRLF @ d @ CRLF"

definition finalText :: "string \<Rightarrow> string" where
  "finalText sig = ''0;chunk-signature='' @ sig @ CRLF @ CRLF"

definition encoderSign :: "encoder \<Rightarrow> string \<Rightarrow> string" where
  "encoderSign st d = signChunk (ceSigningKey st) (ceAmzDate st) (ceScope st) (cePrevSig st) d"

definition writeChunk :: "string \<Rightarrow> encoder \<Rightarrow> encoder" where
  "writeChunk d st =
     (let sig = encoderSign st d in st\<lparr>cePrevSig := sig, ceOutput := ceOutput st @ chunkText sig d\<rparr>)"

definition writeFinalChunk :: "encoder \<Rightarrow> encoder" where
  "writeFinalChunk st = st\<lparr>ceOutput := ceOutput st @ finalText (encoderSign st [])\<rparr>"

text \<open>The loop that fills \<open>rawBuf\<close>.\<close>

partial_function (option) fillRaw :: "encoder \<Rightarrow> (read_error option \<times> encoder) option" where
  "fillRaw st =
     (if length (ceRaw st) < ceChunkSize st \<and> \<not> ceSrcEOF st then
        (case readFromSource st of
           (None, st') \<Rightarrow> fillRaw st'
         | (Some e, st') \<Rightarrow> Some (if e = EOF then (None, st'\<lparr>ceSrcEOF := True\<rparr>) else (Some e, st')))
      else Some (None, st))"

text \<open>\<open>bytes.Buffer.Read\<close> on a non-empty buffer.\<close>

definition takeOutput :: "nat \<Rightarrow> encoder \<Rightarrow> (string \<times> read_error option) \<times> encoder" where
  "takeOutput n st = ((take n (ceOutput st), None), st\<lparr>ceOutput := drop n (ceOutput st)\<rparr>)"

definition emitChunks :: "encoder \<Rightarrow> encoder" where
  "emitChunks st =
     (let st1 = (if ceRaw st \<noteq> [] then
            writeChunk (take (ceChunkSize st) (ceRaw st)) (st\<lparr>ceRaw := drop (ceChunkSize st) (ceRaw st)\<rparr>) else st)
      in if ceSrcEOF st1 \<and> ceRaw st1 = [] \<and> \<not> ceDone st1 then (writeFinalChunk st1)\<lparr>ceDone := True\<rparr> else st1)"

definition Read :: "nat \<Rightarrow> encoder \<Rightarrow> ((string \<times> read_error option) \<times> encoder) option" where
  "Read n st =
     (if ceOutput st \<noteq> [] then Some (takeOutput n st)
      else if ceDone st then Some (([], Some EOF), st)
      else case fillRaw st of
        None \<Rightarrow> None
      | Some (Some e, st1) \<Rightarrow> Some (([], Some e), st1)
      | Some (None, st1) \<Rightarrow>
          (let st2 = emitChunks st1 in
           Some (if ceOutput st2 \<noteq> [] then takeOutput n st2
                 else if ceDone st2 then (([], Some EOF), st2) else (([], None), st2))))"

subsection \<open>The length of the encoded body\<close>

definition goQuot :: "int \<Rightarrow> int \<Rightarrow> int" where
  "goQuot a b = sgn a * sgn b * (\<bar>a\<bar> div \<bar>b\<bar>)"

definition goRem :: "int \<Rightarrow> int \<Rightarrow> int" where
  "goRem a b = a - b * goQuot a b"

text \<open>The loop over the full chunks; \<open>int64\<close> additions wrap.\<close>

fun addFullChunks :: "nat \<Rightarrow> int \<Rightarrow> int \<Rightarrow> int" where
  "addFullChunks 0 chunkSize totalLen = totalLen"
| "addFullChunks (Suc n) chunkSize totalLen =
     (let hexLen = int (length (fmt_x (nat chunkSize)));
          t1 = wrap64 (totalLen + (hexLen + 17 + 64 + 2))
      in addFullChunks n chunkSize (wrap64 (t1 + (chunkSize + 2))))"

definition CalculateReEncodedContentLength :: "int \<Rightarrow> int \<Rightarrow> int" where
  "CalculateReEncodedContentLength decodedLength chunkSize =
     (if decodedLength = 0 then 1 + 17 + 64 + 2 + 2
      else
        (let numFullChunks = goQuot decodedLength chunkSize;
             lastChunkSize = goRem decodedLength chunkSize;
             totalLen = addFullChunks (nat numFullChunks) chunkSize 0;
             totalLen = (if lastChunkSize > 0 then
               wrap64 (wrap64 (totalLen + (int (length (fmt_x (nat lastChunkSize))) + 17 + 64 + 2)) + (lastChunkSize + 2))
               else totalLen)
         in wrap64 (totalLen + (1 + 17 + 64 + 2 + 2))))"

subsection \<open>What the encoder should produce\<close>

type_synonym signer = "string \<Rightarrow> string \<Rightarrow> string"       \<comment> \<open>previous signature and chunk\<close>

function encodeAll :: "signer \<Rightarrow> nat \<Rightarrow> string \<Rightarrow> string \<Rightarrow> string" where
  "encodeAll sign cs prev payload =
     (if payload = [] \<or> cs = 0 then finalText (sign prev [])
      else (let sig = sign prev (take cs payload) in
        chunkText sig (take cs payload) @ encodeAll sign cs sig (drop cs payload)))"
  by pat_completeness auto
termination by (relation "measure (\<lambda>(_, _, _, d). length d)") auto

declare encodeAll.simps [simp del]

definition signerOf :: "encoder \<Rightarrow> signer" where
  "signerOf st prev d = signChunk (ceSigningKey st) (ceAmzDate st) (ceScope st) prev d"

subsection \<open>Well-formed sources\<close>

text \<open>
  The upload of a client: chunks of a positive size with an extension (the client's signature), a
  final chunk, trailers.
\<close>

definition sourceChunk :: "string \<times> string \<Rightarrow> string" where
  "sourceChunk c = fmt_x (length (snd c)) @ '';'' @ fst c @ CRLF @ snd c @ CRLF"

definition chunk_ok :: "string \<times> string \<Rightarrow> bool" where
  "chunk_ok c \<longleftrightarrow> CHR 0x0A \<notin> set (fst c) \<and> snd c \<noteq> [] \<and> length (snd c) < 2 ^ 63"

definition trailer_ok :: "string \<Rightarrow> bool" where
  "trailer_ok t \<longleftrightarrow> CHR 0x0A \<notin> set t \<and> t \<noteq> []"

definition sourceText :: "(string \<times> string) list \<Rightarrow> string \<Rightarrow> string list \<Rightarrow> string" where
  "sourceText chunks ext trailers =
     concat (map sourceChunk chunks) @ ''0;'' @ ext @ CRLF @ concat (map (\<lambda>t. t @ CRLF) trailers) @ CRLF"

definition payload :: "(string \<times> string) list \<Rightarrow> string" where
  "payload chunks = concat (map snd chunks)"

lemma ReadLine_line:
  assumes "ceSrc st = l @ CRLF @ t" "CHR 0x0A \<notin> set l"
  shows "ReadLine st = ((l @ CRLF, None), st\<lparr>ceSrc := t\<rparr>)"
proof -
  have "IndexByte (ceSrc st) (CHR 0x0A) = Some (Suc (length l))"
    using IndexByte_append [of "CHR 0x0A" "l @ [CHR 0x0D]" t] assms by (simp add: CRLF_def)
  with assms(1) show ?thesis by (simp add: ReadLine_def CRLF_def)
qed

lemma trimLine_CRLF: "CHR 0x0A \<notin> set l \<Longrightarrow> trimLine (l @ CRLF) = l"
  by (auto simp: trimLine_def TrimSuffix_def [of l] HasSuffix_iff newline_def)

lemma skipTrailers_ok:
  assumes "ceSrc st = concat (map (\<lambda>t. t @ CRLF) trailers) @ CRLF @ r" "\<forall>t \<in> set trailers. trailer_ok t"
  shows "skipTrailers st = (EOF, st\<lparr>ceSrc := r\<rparr>)"
  using assms
proof (induction trailers arbitrary: st)
  case Nil
  then have "ReadLine st = (([] @ CRLF, None), st\<lparr>ceSrc := r\<rparr>)" by (intro ReadLine_line) auto
  with trimLine_CRLF [of "[]"] show ?case by (subst skipTrailers.simps) simp
next
  case (Cons t ts)
  let ?r = "concat (map (\<lambda>t. t @ CRLF) ts) @ CRLF @ r"
  have "ReadLine st = ((t @ CRLF, None), st\<lparr>ceSrc := ?r\<rparr>)"
    using Cons.prems by (intro ReadLine_line) (auto simp: trailer_ok_def)
  moreover have "trimLine (t @ CRLF) \<noteq> []" using trimLine_CRLF [of t] Cons.prems by (simp add: trailer_ok_def)
  ultimately show ?case
    using Cons.IH [of "st\<lparr>ceSrc := ?r\<rparr>"] Cons.prems by (subst skipTrailers.simps) simp
qed

lemma fmt_x_chars:
  assumes "c \<in> set (fmt_x n)"
  shows "c \<noteq> CHR '';'' \<and> c \<noteq> CHR 0x0A \<and> \<not> is_space c"
proof -
  from assms obtain d where "d < 16" "c = digit_char d" using set_digits_base [of 16 c n] by (auto simp: fmt_x_def)
  moreover have "\<forall>d \<in> set [0..<16]. digit_char d \<noteq> CHR '';'' \<and> digit_char d \<noteq> CHR 0x0A \<and> \<not> is_space (digit_char d)"
    by code_simp
  ultimately show ?thesis by simp
qed

lemma header_size:
  assumes "CHR 0x0A \<notin> set ext" "n < 2 ^ 63"
  shows "ParseInt (TrimSpace (hd (SplitN2 (trimLine ((fmt_x n @ '';'' @ ext) @ CRLF)) '';''))) 16 = Some (int n)"
proof -
  note c = fmt_x_chars [of _ n]
  have "CHR 0x0A \<notin> set (fmt_x n @ '';'' @ ext)" using c assms(1) by auto
  then have "trimLine ((fmt_x n @ '';'' @ ext) @ CRLF) = fmt_x n @ '';'' @ ext" by (rule trimLine_CRLF)
  moreover have "SplitN2 (fmt_x n @ '';'' @ ext) '';'' = [fmt_x n, ext]"
    using SplitN2_byte_append [of "CHR '';''" "fmt_x n" ext] c by auto
  moreover have "TrimSpace (fmt_x n) = fmt_x n" using c by (intro TrimSpace_id) blast
  moreover have "ParseInt (fmt_x n) 16 = Some (int n)" unfolding fmt_x_def using assms(2) by (intro ParseInt_fmt) auto
  ultimately show ?thesis by simp
qed

subsection \<open>Decoding a well-formed source\<close>

text \<open>What is still to be decoded: the rest of a chunk, then chunks, then the end.\<close>

definition source_left :: "encoder \<Rightarrow> string \<Rightarrow> bool" where
  "source_left st left \<longleftrightarrow>
     (if ceSrcEOF st then left = []
      else \<exists>d chunks ext trailers.
        ceSrc st = (if d = [] then [] else d @ CRLF) @ sourceText chunks ext trailers \<and>
        ceSrcRemaining st = int (length d) \<and> left = d @ payload chunks \<and>
        list_all chunk_ok chunks \<and> CHR 0x0A \<notin> set ext \<and> (\<forall>t \<in> set trailers. trailer_ok t))"

lemma source_leftI:
  assumes "\<not> ceSrcEOF st" "ceSrc st = (if d = [] then [] else d @ CRLF) @ sourceText chunks ext trailers"
    "ceSrcRemaining st = int (length d)" "left = d @ payload chunks"
    "list_all chunk_ok chunks" "CHR 0x0A \<notin> set ext" "\<forall>t \<in> set trailers. trailer_ok t"
  shows "source_left st left"
  unfolding source_left_def using assms by auto

text \<open>The fields that decoding leaves alone.\<close>

definition same_signing :: "encoder \<Rightarrow> encoder \<Rightarrow> bool" where
  "same_signing st st' \<longleftrightarrow>
     ceSigningKey st' = ceSigningKey st \<and> ceAmzDate st' = ceAmzDate st \<and> ceScope st' = ceScope st \<and>
     cePrevSig st' = cePrevSig st \<and> ceOutput st' = ceOutput st \<and> ceChunkSize st' = ceChunkSize st \<and> ceDone st' = ceDone st"

lemma same_signing_refl [simp]: "same_signing st st"
  by (simp add: same_signing_def)

lemma same_signing_trans: "same_signing a b \<Longrightarrow> same_signing b c \<Longrightarrow> same_signing a c"
  by (simp add: same_signing_def)

lemma readFromSource_data:
  assumes "ceSrc st = d @ CRLF @ sourceText chunks ext trailers" "d \<noteq> []" "ceSrcRemaining st = int (length d)"
    "\<not> ceSrcEOF st" "0 < ceChunkSize st"
    "list_all chunk_ok chunks" "CHR 0x0A \<notin> set ext" "\<forall>t \<in> set trailers. trailer_ok t"
  shows "\<exists>st' left'. readFromSource st = (None, st') \<and> source_left st' left' \<and> same_signing st st' \<and> \<not> ceSrcEOF st' \<and>
    ceRaw st' @ left' = ceRaw st @ d @ payload chunks \<and> length left' < length d + length (payload chunks)"
proof -
  define n where "n = (if length d > ceChunkSize st then ceChunkSize st else length d)"
  have n: "nat (if ceSrcRemaining st > int (ceChunkSize st) then int (ceChunkSize st) else ceSrcRemaining st) = n"
    "0 < n" "n \<le> length d"
    using assms by (auto simp: n_def)
  have r: "ReadFull n st = ((take n d, None), st\<lparr>ceSrc := drop n d @ CRLF @ sourceText chunks ext trailers\<rparr>)"
    using n assms(1) by (simp add: ReadFull_def)
  define st2 where "st2 = st\<lparr>ceSrc := drop n d @ CRLF @ sourceText chunks ext trailers,
    ceRaw := ceRaw st @ take n d, ceSrcRemaining := int (length d) - int n\<rparr>"
  show ?thesis
  proof (cases "n = length d")
    case True
    let ?st = "st2\<lparr>ceSrc := sourceText chunks ext trailers\<rparr>"
    have "ReadFull 2 st2 = ((CRLF, None), ?st)"
      using True by (simp add: ReadFull_def st2_def CRLF_def)
    then have "readFromSource st = (None, ?st)"
      using n r assms(2,3) True by (subst readFromSource.simps) (simp add: Let_def st2_def min_def)
    moreover have "source_left ?st (payload chunks)"
      unfolding source_left_def using assms(4,6-8) True by (simp add: st2_def) blast
    ultimately show ?thesis using True assms(2,4) by (auto simp: st2_def same_signing_def)
  next
    case False
    then have "readFromSource st = (None, st2)"
      using n r assms(2,3) by (subst readFromSource.simps) (simp add: Let_def st2_def min_def)
    moreover have "source_left st2 (drop n d @ payload chunks)"
    proof -
      have "drop n d \<noteq> []" using n(3) False by simp
      moreover have "ceSrcRemaining st2 = int (length (drop n d))" using n(3) by (simp add: st2_def)
      moreover have "ceSrc st2 = drop n d @ CRLF @ sourceText chunks ext trailers" "\<not> ceSrcEOF st2"
        using assms(4) by (simp_all add: st2_def)
      ultimately show ?thesis using assms(6-8) by (intro source_leftI) auto
    qed
    ultimately show ?thesis using n assms(4) by (auto simp: st2_def same_signing_def)
  qed
qed

lemma fmt_x_0: "fmt_x 0 = ''0''"
  by code_simp

lemma readFromSource_step:
  assumes "source_left st left" "\<not> ceSrcEOF st" "0 < ceChunkSize st"
  shows "(\<exists>st' left'. readFromSource st = (None, st') \<and> source_left st' left' \<and> same_signing st st' \<and> \<not> ceSrcEOF st' \<and>
      ceRaw st' @ left' = ceRaw st @ left \<and> length left' < length left) \<or>
    (\<exists>st'. readFromSource st = (Some EOF, st') \<and> same_signing st st' \<and> ceRaw st' = ceRaw st \<and> left = [])"
proof -
  from assms(1,2) obtain d chunks ext trailers where src:
    "ceSrc st = (if d = [] then [] else d @ CRLF) @ sourceText chunks ext trailers"
    "ceSrcRemaining st = int (length d)" "left = d @ payload chunks"
    "list_all chunk_ok chunks" "CHR 0x0A \<notin> set ext" "\<forall>t \<in> set trailers. trailer_ok t"
    unfolding source_left_def by auto
  show ?thesis
  proof (cases "d = []")
    case False
    with readFromSource_data [of st d chunks ext trailers] src assms(2,3) show ?thesis by auto
  next
    case True
    note d = True
    show ?thesis
    proof (cases chunks)
      case Nil
      let ?t = "concat (map (\<lambda>t. t @ CRLF) trailers) @ CRLF"
      have "ReadLine st = (((fmt_x 0 @ '';'' @ ext) @ CRLF, None), st\<lparr>ceSrc := ?t\<rparr>)"
        using src(1,5) d Nil by (intro ReadLine_line) (auto simp: sourceText_def fmt_x_0)
      moreover have "skipTrailers (st\<lparr>ceSrc := ?t\<rparr>) = (EOF, st\<lparr>ceSrc := []\<rparr>)"
        using skipTrailers_ok [of "st\<lparr>ceSrc := ?t\<rparr>" trailers "[]"] src(6) by simp
      ultimately have "readFromSource st = (Some EOF, st\<lparr>ceSrc := []\<rparr>)"
        using src(2) d header_size [OF src(5), of 0] by (subst readFromSource.simps) simp
      with src(3) d Nil show ?thesis by (auto simp: same_signing_def payload_def)
    next
      case (Cons c cs)
      let ?t = "snd c @ CRLF @ sourceText cs ext trailers"
      let ?st = "st\<lparr>ceSrc := ?t, ceSrcRemaining := int (length (snd c))\<rparr>"
      have ok: "CHR 0x0A \<notin> set (fst c)" "snd c \<noteq> []" "length (snd c) < 2 ^ 63" "list_all chunk_ok cs"
        using src(4) Cons by (auto simp: chunk_ok_def)
      have "CHR 0x0A \<notin> set (fmt_x n)" for n using fmt_x_chars by blast
      then have "ReadLine st = (((fmt_x (length (snd c)) @ '';'' @ fst c) @ CRLF, None), st\<lparr>ceSrc := ?t\<rparr>)"
        using src(1) d Cons ok(1) by (intro ReadLine_line) (auto simp: sourceText_def sourceChunk_def)
      then have e: "readFromSource st = readFromSource ?st"
        using src(2) d header_size [OF ok(1,3)] ok(2) by (subst readFromSource.simps) simp
      have "\<exists>st' left'. readFromSource ?st = (None, st') \<and> source_left st' left' \<and> same_signing ?st st' \<and> \<not> ceSrcEOF st' \<and>
        ceRaw st' @ left' = ceRaw ?st @ snd c @ payload cs \<and> length left' < length (snd c) + length (payload cs)"
        using src(5,6) ok assms(2,3) by (intro readFromSource_data) auto
      then show ?thesis unfolding e using src(3) d Cons by (simp add: payload_def same_signing_def)
    qed
  qed
qed

subsection \<open>Filling and emitting\<close>

lemma fillRaw_ok:
  assumes "source_left st left" "0 < ceChunkSize st"
  shows "\<exists>st' left'. fillRaw st = Some (None, st') \<and> source_left st' left' \<and> same_signing st st' \<and>
    ceRaw st' @ left' = ceRaw st @ left \<and> (ceChunkSize st \<le> length (ceRaw st') \<or> ceSrcEOF st')"
  using assms
proof (induction "length left" arbitrary: st left rule: less_induct)
  case less
  show ?case
  proof (cases "length (ceRaw st) < ceChunkSize st \<and> \<not> ceSrcEOF st")
    case False
    with less.prems show ?thesis by (subst fillRaw.simps) auto
  next
    case True
    with readFromSource_step [OF less.prems(1)] less.prems(2) consider
      (more) st1 left1 where "readFromSource st = (None, st1)" "source_left st1 left1" "same_signing st st1"
        "ceRaw st1 @ left1 = ceRaw st @ left" "length left1 < length left"
      | (finish) st1 where "readFromSource st = (Some EOF, st1)" "same_signing st st1" "ceRaw st1 = ceRaw st" "left = []"
      by blast
    then show ?thesis
    proof cases
      case more
      then obtain st2 left2 where "fillRaw st1 = Some (None, st2)" "source_left st2 left2" "same_signing st1 st2"
        "ceRaw st2 @ left2 = ceRaw st1 @ left1" "ceChunkSize st1 \<le> length (ceRaw st2) \<or> ceSrcEOF st2"
        using less.hyps [OF more(5,2)] less.prems(2) by (auto simp: same_signing_def)
      moreover from this have "fillRaw st = Some (None, st2)" using True more(1) by (subst fillRaw.simps) simp
      ultimately show ?thesis using more(3,4) same_signing_trans by (auto simp: same_signing_def)
    next
      case finish
      then have "fillRaw st = Some (None, st1\<lparr>ceSrcEOF := True\<rparr>)" using True by (subst fillRaw.simps) simp
      with finish show ?thesis by (auto simp: source_left_def same_signing_def)
    qed
  qed
qed

text \<open>The text an encoder still has to hand out, given the payload still in the source.\<close>

definition outputLeft :: "encoder \<Rightarrow> string \<Rightarrow> string" where
  "outputLeft st left =
     ceOutput st @ (if ceDone st then [] else encodeAll (signerOf st) (ceChunkSize st) (cePrevSig st) (ceRaw st @ left))"

definition encoder_ok :: "encoder \<Rightarrow> string \<Rightarrow> bool" where
  "encoder_ok st left \<longleftrightarrow> source_left st left \<and> 0 < ceChunkSize st"

lemma signerOf_cong:
  "ceSigningKey st' = ceSigningKey st \<Longrightarrow> ceAmzDate st' = ceAmzDate st \<Longrightarrow> ceScope st' = ceScope st \<Longrightarrow>
   signerOf st' = signerOf st"
  by (intro ext) (simp add: signerOf_def)

lemma encoderSign_signerOf: "encoderSign st d = signerOf st (cePrevSig st) d"
  by (simp add: encoderSign_def signerOf_def)

lemma emitChunks_ok:
  assumes "encoder_ok st left" "ceChunkSize st \<le> length (ceRaw st) \<or> ceSrcEOF st" "\<not> ceDone st" "ceOutput st = []"
  shows "encoder_ok (emitChunks st) left \<and> outputLeft (emitChunks st) left = outputLeft st left \<and>
    ceOutput (emitChunks st) \<noteq> []"
proof (cases "ceRaw st = []")
  case True
  with assms have e: "ceSrcEOF st" "left = []" by (auto simp: encoder_ok_def source_left_def)
  have "signerOf (st\<lparr>ceOutput := x, ceDone := y\<rparr>) = signerOf st" for x y by (rule signerOf_cong) simp_all
  with True e assms show ?thesis
    by (auto simp: emitChunks_def writeFinalChunk_def outputLeft_def encoder_ok_def source_left_def Let_def
        encoderSign_signerOf encodeAll.simps [of _ _ _ "[]"] finalText_def)
next
  case False
  define c where "c = take (ceChunkSize st) (ceRaw st)"
  define sig where "sig = signerOf st (cePrevSig st) c"
  define st1 where "st1 = st\<lparr>ceRaw := drop (ceChunkSize st) (ceRaw st), cePrevSig := sig, ceOutput := chunkText sig c\<rparr>"
  have w: "writeChunk c (st\<lparr>ceRaw := drop (ceChunkSize st) (ceRaw st)\<rparr>) = st1"
    using assms(4) by (simp add: writeChunk_def st1_def sig_def encoderSign_def signerOf_def Let_def)
  have s1: "signerOf st1 = signerOf st" by (rule signerOf_cong) (simp_all add: st1_def)
  have cs: "0 < ceChunkSize st" using assms(1) by (simp add: encoder_ok_def)
  have left: "left = [] \<or> ceChunkSize st \<le> length (ceRaw st)"
    using assms(1,2) by (auto simp: encoder_ok_def source_left_def)
  then have t: "take (ceChunkSize st) (ceRaw st @ left) = c" "drop (ceChunkSize st) (ceRaw st @ left) = ceRaw st1 @ left"
    by (auto simp: c_def st1_def)
  have o1: "outputLeft st1 left = outputLeft st left"
  proof -
    have "encodeAll (signerOf st) (ceChunkSize st) (cePrevSig st) (ceRaw st @ left) =
        chunkText sig c @ encodeAll (signerOf st) (ceChunkSize st) sig (ceRaw st1 @ left)"
      using False cs unfolding encodeAll.simps [of _ _ _ "ceRaw st @ left"] t sig_def by (simp add: Let_def)
    then show ?thesis using assms(3,4) unfolding outputLeft_def s1 by (simp add: st1_def)
  qed
  have k1: "encoder_ok st1 left" using assms(1) by (auto simp: encoder_ok_def source_left_def st1_def)
  have e1: "emitChunks st = (if ceSrcEOF st \<and> ceRaw st1 = [] then (writeFinalChunk st1)\<lparr>ceDone := True\<rparr> else st1)"
    using False assms(3) by (simp add: emitChunks_def w flip: c_def) (simp add: st1_def)
  show ?thesis
  proof (cases "ceSrcEOF st \<and> ceRaw st1 = []")
    case True
    then have "left = []" using assms(1) by (simp add: encoder_ok_def source_left_def)
    moreover have "signerOf (st1\<lparr>ceOutput := x, ceDone := y\<rparr>) = signerOf st1" for x y by (rule signerOf_cong) simp_all
    moreover have "\<not> ceDone st1" using assms(3) by (simp add: st1_def)
    ultimately show ?thesis using True k1 o1 unfolding e1
      by (auto simp: writeFinalChunk_def outputLeft_def encoder_ok_def source_left_def
          encoderSign_signerOf encodeAll.simps [of _ _ _ "[]"] finalText_def)
  next
    case f: False
    have "ceOutput st1 \<noteq> []" by (simp add: st1_def chunkText_def)
    with f k1 o1 show ?thesis unfolding e1 if_not_P [OF f] by blast
  qed
qed

lemma Read_ok:
  assumes "encoder_ok st left" "0 < n"
  shows "(\<exists>bs st' left'. Read n st = Some ((bs, None), st') \<and> bs \<noteq> [] \<and> encoder_ok st' left' \<and>
      outputLeft st left = bs @ outputLeft st' left') \<or>
    Read n st = Some (([], Some EOF), st) \<and> outputLeft st left = []"
proof -
  have out: "\<exists>bs st'. takeOutput n s = ((bs, None), st') \<and> bs \<noteq> [] \<and> encoder_ok st' l \<and>
      outputLeft s l = bs @ outputLeft st' l" if "ceOutput s \<noteq> []" "encoder_ok s l" for s l
  proof -
    have "signerOf (s\<lparr>ceOutput := x\<rparr>) = signerOf s" for x by (rule signerOf_cong) simp_all
    with that assms(2) show ?thesis
      by (auto simp: takeOutput_def outputLeft_def encoder_ok_def source_left_def)
  qed
  show ?thesis
  proof (cases "ceOutput st \<noteq> [] \<or> ceDone st")
    case True
    show ?thesis
    proof (cases "ceOutput st = []")
      case e: False
      obtain bs st' where "takeOutput n st = ((bs, None), st')" "bs \<noteq> []" "encoder_ok st' left"
        "outputLeft st left = bs @ outputLeft st' left" using out [OF e assms(1)] by blast
      with e show ?thesis by (intro disjI1 exI [of _ bs] exI [of _ st'] exI [of _ left]) (simp add: Read_def)
    qed (use True in \<open>simp add: Read_def outputLeft_def\<close>)
  next
    case False
    obtain st1 left1 where f: "fillRaw st = Some (None, st1)" "source_left st1 left1" "same_signing st st1"
      "ceRaw st1 @ left1 = ceRaw st @ left" "ceChunkSize st \<le> length (ceRaw st1) \<or> ceSrcEOF st1"
      using fillRaw_ok assms(1) unfolding encoder_ok_def by metis
    then have ok: "encoder_ok st1 left1" "ceChunkSize st1 \<le> length (ceRaw st1) \<or> ceSrcEOF st1" "\<not> ceDone st1" "ceOutput st1 = []"
      using assms(1) False by (auto simp: encoder_ok_def same_signing_def)
    have "signerOf st1 = signerOf st" using f(3) by (intro signerOf_cong) (simp_all add: same_signing_def)
    then have "outputLeft st1 left1 = outputLeft st left" using f(3,4) by (simp add: outputLeft_def same_signing_def)
    with emitChunks_ok [OF ok] out [of "emitChunks st1" left1] False f(1) show ?thesis
      by (fastforce simp: Read_def Let_def)
  qed
qed

text \<open>A client that reads to the end, \<open>n\<close> bytes at a time.\<close>

fun drain :: "nat \<Rightarrow> nat \<Rightarrow> encoder \<Rightarrow> string option" where
  "drain 0 n st = None"
| "drain (Suc fuel) n st =
     (case Read n st of
        Some ((bs, None), st') \<Rightarrow> map_option ((@) bs) (drain fuel n st')
      | Some ((bs, Some EOF), st') \<Rightarrow> Some bs
      | _ \<Rightarrow> None)"

lemma drain_ok:
  "encoder_ok st left \<Longrightarrow> 0 < n \<Longrightarrow> length (outputLeft st left) < fuel \<Longrightarrow> drain fuel n st = Some (outputLeft st left)"
proof (induction fuel arbitrary: st left)
  case (Suc fuel)
  from Read_ok [OF Suc.prems(1,2)] show ?case
  proof (elim disjE exE conjE)
    fix bs st' left'
    assume a: "Read n st = Some ((bs, None), st')" "bs \<noteq> []" "encoder_ok st' left'"
      "outputLeft st left = bs @ outputLeft st' left'"
    then have "length (outputLeft st' left') < fuel" using Suc.prems(3) by (cases bs) auto
    from Suc.IH [OF a(3) Suc.prems(2) this] a(1,4) show ?thesis by simp
  qed simp
qed simp

subsection \<open>Properties\<close>

definition sample_encoder :: "encoder option" where
  "sample_encoder = NewAwsChunkedReEncoder
     (sourceText [(''chunk-signature=ab'', ''hello''), (''x'', '' world'')] [] [''x-amz-trailer:1''], EOF)
     ''key'' ''20260201T123456Z'' ''us-east-1'' ''seed''"

lemma drained_output:
  assumes "list_all chunk_ok chunks" "CHR 0x0A \<notin> set ext" "\<forall>t \<in> set trailers. trailer_ok t"
    "NewAwsChunkedReEncoder (sourceText chunks ext trailers, e) signingKey amzDate region seed = Some st"
    "0 < n"
    "out = encodeAll (signChunk signingKey amzDate (take 8 amzDate @ ''/'' @ region @ ''/s3/aws4_request''))
       65536 seed (payload chunks)"
    "length out < fuel"
  shows "drain fuel n st = Some out"
proof -
  have st: "ceSrc st = sourceText chunks ext trailers" "ceSrcRemaining st = 0" "\<not> ceSrcEOF st" "ceChunkSize st = 65536"
    "ceRaw st = []" "ceOutput st = []" "\<not> ceDone st" "cePrevSig st = seed"
    "signerOf st = signChunk signingKey amzDate (take 8 amzDate @ ''/'' @ region @ ''/s3/aws4_request'')"
    using assms(4) by (auto simp: NewAwsChunkedReEncoder_def signerOf_def fun_eq_iff split: if_splits)
  have "source_left st (payload chunks)"
    using st assms(1-3) by (intro source_leftI [of _ "[]" chunks ext trailers]) auto
  then have "encoder_ok st (payload chunks)" using st by (simp add: encoder_ok_def)
  moreover have "outputLeft st (payload chunks) = out" using st assms(6) by (simp add: outputLeft_def)
  ultimately show ?thesis using drain_ok [OF _ assms(5)] assms(7) by metis
qed

text \<open>
  C6: reading the re-encoder to its end, with a buffer of any size, ends, and gives the payload
  of the client's chunks cut into chunks of 64 KB, each signed with the backend's key over the
  signature before it, and the signed final chunk; whatever the sizes of the client's chunks, their
  signatures and the trailers.
\<close>

theorem reencode_payload:
  assumes "list_all chunk_ok chunks" "CHR 0x0A \<notin> set ext" "\<forall>t \<in> set trailers. trailer_ok t"
    "NewAwsChunkedReEncoder (sourceText chunks ext trailers, e) signingKey amzDate region seed = Some st"
    "0 < n"
    "out = encodeAll (signChunk signingKey amzDate (take 8 amzDate @ ''/'' @ region @ ''/s3/aws4_request''))
       65536 seed (payload chunks)"
    "length out < fuel"
  shows "drain fuel n st = Some out"
  using assms by (rule drained_output)

theorem reencode_payload_witness:
  "\<exists>st out. sample_encoder = Some st \<and> drain (Suc (length out)) 7 st = Some out"
proof -
  have "\<exists>st. sample_encoder = Some st" by (simp add: sample_encoder_def NewAwsChunkedReEncoder_def)
  then obtain st where st: "sample_encoder = Some st" by blast
  from reencode_payload [OF _ _ _ this [unfolded sample_encoder_def] _ refl lessI, of 7] st show ?thesis
    by (auto simp: chunk_ok_def trailer_ok_def)
qed

lemma signChunk_newline [simp]: "CHR 0x0A \<notin> set (signChunk k d sc p x)"
proof -
  have "\<forall>i \<in> set [0..<16]. digit_char i \<noteq> CHR 0x0A" by code_simp
  then have h: "CHR 0x0A \<noteq> digit_char i" if "i < 16" for i using that by force
  have "(of_char y :: nat) div 16 < 16" for y :: char
    using nat_of_char_less_256 [of y] by (simp add: less_mult_imp_div_less)
  with h show ?thesis by (auto simp: signChunk_def EncodeToString_def)
qed

lemma length_signChunk [simp]: "length (signChunk k d sc p x) = 64"
  by (simp add: signChunk_def)

text \<open>A payload in pieces of a size.\<close>

function pieces :: "nat \<Rightarrow> string \<Rightarrow> string list" where
  "pieces cs data = (if data = [] \<or> cs = 0 then [] else take cs data # pieces cs (drop cs data))"
  by pat_completeness auto
termination by (relation "measure (\<lambda>(_, d). length d)") auto

declare pieces.simps [simp del]

lemma pieces_Nil [simp]: "pieces cs [] = []"
  by (simp add: pieces.simps)

lemma encodeAll_text:
  assumes "0 < cs" "cs < 2 ^ 63"
  shows "\<exists>chunks ext. encodeAll (signChunk k d sc) cs prev data = sourceText chunks ext [] \<and>
    map snd chunks = pieces cs data \<and> payload chunks = data \<and> list_all chunk_ok chunks \<and> CHR 0x0A \<notin> set ext"
proof (induction data arbitrary: prev rule: length_induct)
  case (1 data)
  show ?case
  proof (cases "data = []")
    case True
    define x where "x = ''chunk-signature='' @ signChunk k d sc prev []"
    have "encodeAll (signChunk k d sc) cs prev data = sourceText [] x []"
      using True by (subst encodeAll.simps) (simp add: finalText_def sourceText_def x_def)
    moreover have "CHR 0x0A \<notin> set x" by (simp add: x_def)
    ultimately show ?thesis using True by (intro exI [of _ "[]"] exI [of _ x]) (simp add: payload_def)
  next
    case False
    define c where "c = take cs data"
    define sig where "sig = signChunk k d sc prev c"
    have "length (drop cs data) < length data" using False assms(1) by simp
    then obtain chunks ext where IH: "encodeAll (signChunk k d sc) cs sig (drop cs data) = sourceText chunks ext []"
      "map snd chunks = pieces cs (drop cs data)" "payload chunks = drop cs data" "list_all chunk_ok chunks" "CHR 0x0A \<notin> set ext"
      using 1 by metis
    have "encodeAll (signChunk k d sc) cs prev data = sourceText ((''chunk-signature='' @ sig, c) # chunks) ext []"
      using False assms(1) by (subst encodeAll.simps)
        (simp add: Let_def IH(1) sourceText_def chunkText_def sourceChunk_def flip: c_def sig_def)
    moreover have "chunk_ok (''chunk-signature='' @ sig, c)"
      using False assms by (auto simp: chunk_ok_def c_def sig_def min_def)
    moreover have "pieces cs data = c # pieces cs (drop cs data)"
      using False assms(1) by (subst pieces.simps) (simp add: c_def)
    ultimately show ?thesis using IH(2-5)
      by (intro exI [of _ "(''chunk-signature='' @ sig, c) # chunks"] exI [of _ ext]) (simp add: payload_def c_def)
  qed
qed

lemma drained_text:
  assumes "list_all chunk_ok chunks" "CHR 0x0A \<notin> set ext" "\<forall>t \<in> set trailers. trailer_ok t"
    "NewAwsChunkedReEncoder (sourceText chunks ext trailers, e) signingKey amzDate region seed = Some st" "0 < n"
  shows "\<exists>fuel out chunks' ext'. drain fuel n st = Some out \<and> out = sourceText chunks' ext' [] \<and>
    map snd chunks' = pieces 65536 (payload chunks) \<and> payload chunks' = payload chunks \<and>
    list_all chunk_ok chunks' \<and> CHR 0x0A \<notin> set ext'"
proof -
  let ?out = "encodeAll (signChunk signingKey amzDate (take 8 amzDate @ ''/'' @ region @ ''/s3/aws4_request''))
    65536 seed (payload chunks)"
  have out: "drain (Suc (length ?out)) n st = Some ?out" using drained_output [OF assms refl lessI] .
  have "(65536 :: nat) < 2 ^ 63" by simp
  with encodeAll_text [of 65536 signingKey amzDate "take 8 amzDate @ ''/'' @ region @ ''/s3/aws4_request''" seed "payload chunks"]
  obtain chunks' ext' where "?out = sourceText chunks' ext' []" "map snd chunks' = pieces 65536 (payload chunks)"
    "payload chunks' = payload chunks" "list_all chunk_ok chunks'" "CHR 0x0A \<notin> set ext'" by auto
  with out show ?thesis by metis
qed

text \<open>
  C12: what is read from the re-encoder, to its end and with a buffer of any size, is a well-formed
  aws-chunked body of its own, whose chunks are the client's payload in pieces of 64 KB, so that
  re-encoding neither loses, adds nor reorders a byte; and a second re-encoder, with any key, date, region
  and seed, that reads this body hands out the same pieces again: only signatures change.
\<close>

theorem reencode_roundtrip:
  assumes "list_all chunk_ok chunks" "CHR 0x0A \<notin> set ext" "\<forall>t \<in> set trailers. trailer_ok t"
    "NewAwsChunkedReEncoder (sourceText chunks ext trailers, e) signingKey amzDate region seed = Some st" "0 < n"
  shows "\<exists>fuel out chunks' ext'. drain fuel n st = Some out \<and> out = sourceText chunks' ext' [] \<and>
    map snd chunks' = pieces 65536 (payload chunks) \<and> payload chunks' = payload chunks \<and>
    (\<forall>e2 key2 date2 region2 seed2 st2 n2.
       NewAwsChunkedReEncoder (out, e2) key2 date2 region2 seed2 = Some st2 \<and> 0 < n2 \<longrightarrow>
       (\<exists>fuel2 chunks2 ext2. drain fuel2 n2 st2 = Some (sourceText chunks2 ext2 []) \<and> map snd chunks2 = map snd chunks'))"
proof -
  obtain fuel chunks' ext' where 1: "drain fuel n st = Some (sourceText chunks' ext' [])"
    "map snd chunks' = pieces 65536 (payload chunks)" "payload chunks' = payload chunks"
    "list_all chunk_ok chunks'" "CHR 0x0A \<notin> set ext'"
    using drained_text [OF assms] by blast
  have "\<exists>fuel2 chunks2 ext2. drain fuel2 n2 st2 = Some (sourceText chunks2 ext2 []) \<and> map snd chunks2 = map snd chunks'"
    if "NewAwsChunkedReEncoder (sourceText chunks' ext' [], e2) key2 date2 region2 seed2 = Some st2" "0 < n2"
    for e2 key2 date2 region2 seed2 st2 n2
    using drained_text [OF 1(4,5) _ that] unfolding 1(2,3) by auto
  with 1(1-3) show ?thesis by blast
qed

theorem reencode_roundtrip_witness:
  "\<exists>st fuel chunks ext. sample_encoder = Some st \<and> drain fuel 7 st = Some (sourceText chunks ext []) \<and>
    payload chunks = ''hello world''"
proof -
  have "\<exists>st. sample_encoder = Some st" by (simp add: sample_encoder_def NewAwsChunkedReEncoder_def)
  then obtain st where st: "sample_encoder = Some st" by blast
  from reencode_roundtrip [OF _ _ _ st [unfolded sample_encoder_def], of 7] st show ?thesis
    by (auto simp: chunk_ok_def trailer_ok_def payload_def)
qed

subsection \<open>The announced length\<close>

definition chunkOverhead :: "nat \<Rightarrow> nat" where
  "chunkOverhead n = length (fmt_x n) + 85"

lemma length_chunkText: "length (chunkText (signChunk k d sc p x) c) = length c + chunkOverhead (length c)"
  by (simp add: chunkText_def chunkOverhead_def CRLF_def)

lemma length_fmt_x: "length (fmt_x n) \<le> Suc n"
proof (induction n rule: less_induct)
  case (less n)
  show ?case
  proof (cases "n < 16")
    case True then show ?thesis by (simp add: fmt_x_def digits_base.simps [of 16 n])
  next
    case False
    then have "length (fmt_x (n div 16)) \<le> Suc (n div 16)" by (intro less.IH) simp
    moreover have "n div 16 < n" using False by simp
    ultimately show ?thesis using False by (simp add: fmt_x_def digits_base.simps [of 16 n])
  qed
qed

text \<open>The length of the encoding of \<open>q\<close> full chunks and a rest.\<close>

lemma length_encodeAll:
  assumes "0 < cs" "length data = q * cs + r" "r < cs"
  shows "length (encodeAll (signChunk k d sc) cs prev data) =
    q * (cs + chunkOverhead cs) + (if 0 < r then r + chunkOverhead r else 0) + 86"
  using assms(2)
proof (induction q arbitrary: data prev)
  case 0
  have f: "length (encodeAll (signChunk k d sc) cs p []) = 86" for p
    by (subst encodeAll.simps) (simp add: finalText_def CRLF_def)
  show ?case
  proof (cases "r = 0")
    case False
    have "take cs data = data" "drop cs data = []" "data \<noteq> []" using 0 assms(3) False by auto
    then show ?thesis using False assms(1) 0 f
      by (subst encodeAll.simps) (simp add: Let_def length_chunkText)
  qed (use 0 f in simp)
next
  case (Suc q)
  have "length (drop cs data) = q * cs + r" "length (take cs data) = cs" "data \<noteq> []"
    using Suc.prems assms(1) by auto
  with Suc.IH [of "drop cs data"] assms(1) show ?case
    by (subst encodeAll.simps) (simp add: Let_def length_chunkText)
qed

lemma addFullChunks_eq:
  assumes "0 \<le> t" "t + int (n * (cs + chunkOverhead cs)) < 2 ^ 63"
  shows "addFullChunks n (int cs) t = t + int (n * (cs + chunkOverhead cs))"
  using assms
proof (induction n arbitrary: t)
  case (Suc n)
  define h where "h = int (length (fmt_x cs))"
  have o: "int (chunkOverhead cs) = h + 85" by (simp add: chunkOverhead_def h_def)
  have nn: "0 \<le> int (n * (cs + chunkOverhead cs))" "0 \<le> h" by (simp_all add: h_def)
  have e: "int (Suc n * (cs + chunkOverhead cs)) = int cs + h + 85 + int (n * (cs + chunkOverhead cs))"
    by (simp add: o algebra_simps)
  have "t + int cs + h + 85 < 2 ^ 63" using Suc.prems(2) nn unfolding e by linarith
  then have "wrap64 (t + (h + 17 + 64 + 2)) = t + (h + 83)"
    "wrap64 (t + (h + 83) + (int cs + 2)) = t + int cs + h + 85"
    using Suc.prems(1) nn by (simp_all add: wrap64_id)
  with Suc.IH [of "t + int cs + h + 85"] Suc.prems nn show ?case unfolding e
    by (simp add: h_def)
qed simp

lemma announced_length:
  assumes "0 < cs" "length (encodeAll (signChunk k d sc) cs prev data) < 2 ^ 63"
  shows "CalculateReEncodedContentLength (int (length data)) (int cs) =
    int (length (encodeAll (signChunk k d sc) cs prev data))"
proof (cases "data = []")
  case True
  then show ?thesis
    by (subst encodeAll.simps) (simp add: CalculateReEncodedContentLength_def finalText_def CRLF_def)
next
  case False
  define q where "q = length data div cs"
  define r where "r = length data mod cs"
  define A where "A = q * (cs + chunkOverhead cs)"
  define B where "B = (if 0 < r then r + chunkOverhead r else 0)"
  have len: "length data = q * cs + r" "r < cs" using assms(1) by (simp_all add: q_def r_def)
  then have L: "length (encodeAll (signChunk k d sc) cs prev data) = A + B + 86"
    unfolding A_def B_def by (rule length_encodeAll [OF assms(1)])
  then have "int (A + B + 86) < 2 ^ 63" using assms(2) by (metis of_nat_less_iff of_nat_numeral of_nat_power)
  then have lt: "int A + int B + 86 < 2 ^ 63" by simp
  have gq: "goQuot (int (length data)) (int cs) = int q" "goRem (int (length data)) (int cs) = int r"
    using False assms(1) by (simp_all add: goQuot_def goRem_def q_def r_def zdiv_int sgn_if minus_mult_div_eq_mod zmod_int)
  have full: "addFullChunks q (int cs) 0 = int A"
    using addFullChunks_eq [of 0 q cs] lt unfolding A_def [symmetric] by simp
  have rest: "(if 0 < int r then wrap64 (wrap64 (int A + (int (length (fmt_x r)) + 17 + 64 + 2)) + (int r + 2))
      else int A) = int A + int B"
  proof (cases "0 < r")
    case True
    define h where "h = int (length (fmt_x r))"
    have "int B = int r + h + 85" "0 \<le> h" using True by (simp_all add: B_def chunkOverhead_def h_def)
    moreover from this have "wrap64 (int A + (h + 17 + 64 + 2)) = int A + h + 83"
      using lt by (simp add: wrap64_id)
    moreover have "wrap64 (int A + h + 83 + (int r + 2)) = int A + h + 83 + int r + 2"
      using lt calculation(1,2) by (simp add: wrap64_id)
    ultimately show ?thesis using True by (simp add: h_def)
  qed (simp add: B_def)
  have "wrap64 (int A + int B + 86) = int A + int B + 86" using lt by (simp add: wrap64_id)
  then show ?thesis
    using False unfolding CalculateReEncodedContentLength_def Let_def gq nat_int full rest L by simp
qed

text \<open>
  C28: the length announced to the backend for a payload is the length of its encoding, for
  every size that fits in an \<open>int64\<close> together with its signatures.
\<close>

theorem reencoded_length:
  assumes "0 < cs" "length (encodeAll (signChunk k d sc) cs prev data) < 2 ^ 63"
  shows "CalculateReEncodedContentLength (int (length data)) (int cs) =
    int (length (encodeAll (signChunk k d sc) cs prev data))"
  using assms by (rule announced_length)

theorem reencoded_length_witness:
  "CalculateReEncodedContentLength 11 4 = int (length (encodeAll (signChunk ''k'' ''d'' ''s'') 4 ''p'' ''hello world''))"
  using reencoded_length [of 4 "''k''" "''d''" "''s''" "''p''" "''hello world''"]
    length_encodeAll [of 4 "''hello world''" 2 3 "''k''" "''d''" "''s''" "''p''"]
  by (simp add: chunkOverhead_def fmt_x_def digits_base.simps)

subsection \<open>Truncated sources\<close>

text \<open>A chunk whose data ends too early: reading reports no error and makes no progress.\<close>

definition stuck :: "encoder \<Rightarrow> bool" where
  "stuck st \<longleftrightarrow> int (length (ceSrc st)) < ceSrcRemaining st \<and> (ceSrcEnd st = EOF \<or> ceSrcEnd st = UnexpectedEOF) \<and> \<not> ceSrcEOF st \<and>
     length (ceRaw st) + length (ceSrc st) < ceChunkSize st"

lemma readFromSource_stuck:
  assumes "stuck st"
  shows "\<exists>st'. readFromSource st = (None, st') \<and> stuck st'"
proof -
  let ?n = "nat (if ceSrcRemaining st > int (ceChunkSize st) then int (ceChunkSize st) else ceSrcRemaining st)"
  let ?st = "st\<lparr>ceSrc := [], ceRaw := ceRaw st @ ceSrc st, ceSrcRemaining := ceSrcRemaining st - int (length (ceSrc st))\<rparr>"
  have "length (ceSrc st) < ?n" using assms by (auto simp: stuck_def)
  then have "\<exists>e. ReadFull ?n st = ((ceSrc st, Some e), st\<lparr>ceSrc := []\<rparr>) \<and> (e = EOF \<or> e = UnexpectedEOF)"
    using assms by (auto simp: ReadFull_def Let_def stuck_def)
  then have "readFromSource st = (None, ?st)"
    using assms by (subst readFromSource.simps) (auto simp: Let_def stuck_def)
  moreover have "stuck ?st" using assms by (auto simp: stuck_def)
  ultimately show ?thesis by blast
qed

lemma fillRaw_stuck: "stuck st \<Longrightarrow> fillRaw st = None"
proof -
  have "\<not> stuck st" if "fillRaw st = Some r" for st r
  proof (rule fillRaw.raw_induct [OF _ that])
    fix fill st r
    assume IH: "\<And>st r. fill st = Some r \<Longrightarrow> \<not> stuck st"
      and b: "(if length (ceRaw st) < ceChunkSize st \<and> \<not> ceSrcEOF st then
        (case readFromSource st of
           (None, st') \<Rightarrow> fill st'
         | (Some e, st') \<Rightarrow> Some (if e = EOF then (None, st'\<lparr>ceSrcEOF := True\<rparr>) else (Some e, st')))
      else Some (None, st)) = Some r"
    show "\<not> stuck st"
    proof
      assume s: "stuck st"
      obtain st' where r: "readFromSource st = (None, st')" "stuck st'" using readFromSource_stuck [OF s] by blast
      with b s have "fill st' = Some r" by (simp add: stuck_def)
      from IH [OF this] r(2) show False by blast
    qed
  qed
  then show "stuck st \<Longrightarrow> fillRaw st = None" by (cases "fillRaw st") auto
qed

text \<open>
  A source that ends inside the data of a chunk: what is left of a chunk and complete chunks before the one
  that is cut off, or the rest of that one.
\<close>

definition cut_off :: "encoder \<Rightarrow> bool" where
  "cut_off st \<longleftrightarrow>
     int (length (ceSrc st)) < ceSrcRemaining st \<or>
     (\<exists>d chunks m ext rest. ceSrc st = (if d = [] then [] else d @ CRLF) @ concat (map sourceChunk chunks) @
          fmt_x m @ '';'' @ ext @ CRLF @ rest \<and>
        ceSrcRemaining st = int (length d) \<and> list_all chunk_ok chunks \<and> CHR 0x0A \<notin> set ext \<and>
        length rest < m \<and> m < 2 ^ 63)"

definition truncated :: "encoder \<Rightarrow> bool" where
  "truncated st \<longleftrightarrow> cut_off st \<and> (ceSrcEnd st = EOF \<or> ceSrcEnd st = UnexpectedEOF) \<and> \<not> ceSrcEOF st \<and> 0 < ceChunkSize st"

abbreviation unencoded :: "encoder \<Rightarrow> nat" where
  "unencoded st \<equiv> length (ceSrc st) + length (ceRaw st)"

text \<open>A step that reads some bytes of a truncated source.\<close>

definition advances :: "encoder \<Rightarrow> encoder \<Rightarrow> bool" where
  "advances st st' \<longleftrightarrow> truncated st' \<and> same_signing st st' \<and> length (ceSrc st') < length (ceSrc st) \<and> unencoded st' \<le> unencoded st"

lemma readFromSource_cut:
  assumes "int (length (ceSrc st)) < ceSrcRemaining st" "truncated st" "ceSrc st \<noteq> []"
  shows "\<exists>st'. readFromSource st = (None, st') \<and> advances st st'"
proof -
  define n where "n = nat (if ceSrcRemaining st > int (ceChunkSize st) then int (ceChunkSize st) else ceSrcRemaining st)"
  define k where "k = min n (length (ceSrc st))"
  let ?st = "st\<lparr>ceSrc := drop k (ceSrc st), ceRaw := ceRaw st @ take k (ceSrc st),
    ceSrcRemaining := ceSrcRemaining st - int k\<rparr>"
  have "\<exists>e. ReadFull n st = ((take k (ceSrc st), e), st\<lparr>ceSrc := drop k (ceSrc st)\<rparr>) \<and>
      (e = None \<or> e = Some EOF \<or> e = Some UnexpectedEOF)"
    using assms(2) by (auto simp: ReadFull_def Let_def k_def truncated_def)
  moreover have k: "0 < k" "k \<le> length (ceSrc st)" using assms by (auto simp: k_def n_def truncated_def)
  ultimately have "readFromSource st = (None, ?st)"
    using assms(1) by (subst readFromSource.simps) (auto simp: Let_def simp flip: n_def)
  moreover have "advances st ?st"
    using assms k by (auto simp: advances_def truncated_def cut_off_def same_signing_def)
  ultimately show ?thesis by blast
qed

lemma readFromSource_rest:
  assumes "ceSrc st = d @ CRLF @ t" "d \<noteq> []" "ceSrcRemaining st = int (length d)" "0 < ceChunkSize st"
  shows "\<exists>k. 0 < k \<and> k \<le> length d \<and> readFromSource st =
    (None, st\<lparr>ceSrc := (if k = length d then [] else drop k d @ CRLF) @ t, ceRaw := ceRaw st @ take k d,
      ceSrcRemaining := int (length (drop k d))\<rparr>)"
proof -
  define n where "n = (if length d > ceChunkSize st then ceChunkSize st else length d)"
  have n: "nat (if ceSrcRemaining st > int (ceChunkSize st) then int (ceChunkSize st) else ceSrcRemaining st) = n"
    "0 < n" "n \<le> length d"
    using assms by (auto simp: n_def)
  have r: "ReadFull n st = ((take n d, None), st\<lparr>ceSrc := drop n d @ CRLF @ t\<rparr>)"
    using n assms(1) by (simp add: ReadFull_def)
  have "readFromSource st =
    (None, st\<lparr>ceSrc := (if n = length d then [] else drop n d @ CRLF) @ t, ceRaw := ceRaw st @ take n d,
      ceSrcRemaining := int (length (drop n d))\<rparr>)"
  proof (cases "n = length d")
    case True
    let ?st = "st\<lparr>ceSrc := CRLF @ t, ceRaw := ceRaw st @ d, ceSrcRemaining := 0\<rparr>"
    have "ReadFull 2 ?st = ((CRLF, None), ?st\<lparr>ceSrc := t\<rparr>)" by (simp add: ReadFull_def CRLF_def)
    with True show ?thesis
      using n r assms(2,3) by (subst readFromSource.simps) (simp add: Let_def)
  next
    case False
    then show ?thesis
      using n r assms(2,3) by (subst readFromSource.simps) (simp add: Let_def min_def)
  qed
  with n show ?thesis by blast
qed

lemma readFromSource_header:
  assumes "ceSrc st = fmt_x m @ '';'' @ ext @ CRLF @ t" "ceSrcRemaining st = 0" "CHR 0x0A \<notin> set ext" "0 < m" "m < 2 ^ 63"
  shows "readFromSource st = readFromSource (st\<lparr>ceSrc := t, ceSrcRemaining := int m\<rparr>)"
proof -
  have "CHR 0x0A \<notin> set (fmt_x m @ '';'' @ ext)" using fmt_x_chars [of "CHR 0x0A" m] assms(3) by auto
  then have "ReadLine st = (((fmt_x m @ '';'' @ ext) @ CRLF, None), st\<lparr>ceSrc := t\<rparr>)"
    using assms(1) by (intro ReadLine_line) auto
  with assms header_size [OF assms(3,5)] show ?thesis by (subst readFromSource.simps) simp
qed

lemma cut_offI:
  "ceSrc st = (if d = [] then [] else d @ CRLF) @ concat (map sourceChunk chunks) @ fmt_x m @ '';'' @ ext @ CRLF @ data \<Longrightarrow>
   ceSrcRemaining st = int (length d) \<Longrightarrow> list_all chunk_ok chunks \<Longrightarrow> CHR 0x0A \<notin> set ext \<Longrightarrow> length data < m \<Longrightarrow>
   m < 2 ^ 63 \<Longrightarrow> cut_off st"
  unfolding cut_off_def by blast
lemma readFromSource_truncated:
  assumes "truncated st" "ceSrc st \<noteq> [] \<or> ceSrcRemaining st \<le> 0"
  shows "\<exists>st'. readFromSource st = (None, st') \<and> advances st st'"
proof (cases "int (length (ceSrc st)) < ceSrcRemaining st")
  case True
  with readFromSource_cut [OF True assms(1)] assms(2) show ?thesis by auto
next
  case False
  with assms(1) obtain d chunks m ext part where src:
    "ceSrc st = (if d = [] then [] else d @ CRLF) @ concat (map sourceChunk chunks) @ fmt_x m @ '';'' @ ext @ CRLF @ part"
    "ceSrcRemaining st = int (length d)" "list_all chunk_ok chunks" "CHR 0x0A \<notin> set ext" "length part < m" "m < 2 ^ 63"
    unfolding truncated_def cut_off_def by blast
  have tr: "ceSrcEnd st = EOF \<or> ceSrcEnd st = UnexpectedEOF" "\<not> ceSrcEOF st" "0 < ceChunkSize st"
    using assms(1) by (simp_all add: truncated_def)
  have data: "\<exists>st'. readFromSource st1 = (None, st') \<and> truncated st' \<and> same_signing st st' \<and>
      length (ceSrc st') < length (ceSrc st1) \<and> unencoded st' \<le> unencoded st1"
    if st1: "ceSrc st1 = d1 @ CRLF @ concat (map sourceChunk cs) @ fmt_x m @ '';'' @ ext @ CRLF @ part" "d1 \<noteq> []"
      "ceSrcRemaining st1 = int (length d1)" "list_all chunk_ok cs" "same_signing st st1"
      "ceSrcEnd st1 = ceSrcEnd st" "\<not> ceSrcEOF st1" for st1 d1 cs
  proof -
    let ?t = "concat (map sourceChunk cs) @ fmt_x m @ '';'' @ ext @ CRLF @ part"
    have "0 < ceChunkSize st1" using tr(3) st1(5) by (simp add: same_signing_def)
    from readFromSource_rest [OF st1(1-3) this] obtain k where k: "0 < k" "k \<le> length d1" and r: "readFromSource st1 =
      (None, st1\<lparr>ceSrc := (if k = length d1 then [] else drop k d1 @ CRLF) @ ?t, ceRaw := ceRaw st1 @ take k d1,
        ceSrcRemaining := int (length (drop k d1))\<rparr>)" (is "_ = (None, ?st)") by blast
    have "cut_off ?st"
      using k st1(4) src(4-6) by (intro cut_offI [of _ "drop k d1" cs m ext part]) auto
    with tr st1(5-7) have "truncated ?st" by (simp add: truncated_def same_signing_def)
    moreover have "same_signing st ?st" using st1(5) by (simp add: same_signing_def)
    ultimately show ?thesis using r k st1(1) by auto
  qed
  show ?thesis
  proof (cases "d = []")
    case d: False
    with data [of st d chunks] src(1-3) tr(2) show ?thesis by (simp add: advances_def)
  next
    case d: True
    show ?thesis
    proof (cases chunks)
      case Nil
      let ?st = "st\<lparr>ceSrc := part, ceSrcRemaining := int m\<rparr>"
      have h: "readFromSource st = readFromSource ?st"
        using readFromSource_header [of st m ext part] src d Nil by simp
      have "truncated ?st" using src(5) tr by (simp add: truncated_def cut_off_def)
      show ?thesis
      proof (cases "part = []")
        case False
        with readFromSource_cut [of ?st] \<open>truncated ?st\<close> src(5) obtain st'
          where "readFromSource ?st = (None, st')" "advances ?st st'" by auto
        with h src(1) d Nil show ?thesis by (auto simp: advances_def same_signing_def)
      next
        case True
        then have "readFromSource ?st = (None, ?st)"
          using src(5) tr(1) by (subst readFromSource.simps) (auto simp: ReadFull_def Let_def)
        with h \<open>truncated ?st\<close> src(1) d Nil True show ?thesis by (auto simp: advances_def same_signing_def)
      qed
    next
      case (Cons c cs)
      let ?t = "snd c @ CRLF @ concat (map sourceChunk cs) @ fmt_x m @ '';'' @ ext @ CRLF @ part"
      let ?st = "st\<lparr>ceSrc := ?t, ceSrcRemaining := int (length (snd c))\<rparr>"
      have c: "CHR 0x0A \<notin> set (fst c)" "snd c \<noteq> []" "length (snd c) < 2 ^ 63" "list_all chunk_ok cs"
        using src(3) Cons by (auto simp: chunk_ok_def)
      have "readFromSource st = readFromSource ?st"
        using readFromSource_header [of st "length (snd c)" "fst c" ?t] src(1,2) d Cons c
        by (simp add: sourceChunk_def)
      moreover have "\<exists>st'. readFromSource ?st = (None, st') \<and> truncated st' \<and> same_signing st st' \<and>
          length (ceSrc st') < length (ceSrc ?st) \<and> unencoded st' \<le> unencoded ?st"
        using c tr(2) by (intro data [of _ "snd c" cs]) (simp_all add: same_signing_def)
      moreover have "length (ceSrc ?st) \<le> length (ceSrc st)" using src(1) d Cons by (simp add: sourceChunk_def)
      ultimately show ?thesis by (auto simp: advances_def)
    qed
  qed
qed

text \<open>Filling does not return, or has read a full chunk of what there is.\<close>

lemma fillRaw_truncated:
  assumes "truncated st"
  shows "fillRaw st = None \<or> (\<exists>st'. fillRaw st = Some (None, st') \<and> truncated st' \<and> same_signing st st' \<and>
    unencoded st' \<le> unencoded st \<and> ceChunkSize st \<le> length (ceRaw st'))"
  using assms
proof (induction "length (ceSrc st)" arbitrary: st rule: less_induct)
  case less
  show ?case
  proof (cases "length (ceRaw st) < ceChunkSize st")
    case False
    with less.prems show ?thesis by (subst (2) fillRaw.simps) auto
  next
    case full: True
    show ?thesis
    proof (cases "ceSrc st \<noteq> [] \<or> ceSrcRemaining st \<le> 0")
      case True
      then obtain st1 where st1: "readFromSource st = (None, st1)" "advances st st1"
        using readFromSource_truncated [OF less.prems] by blast
      then have "fillRaw st = fillRaw st1"
        using full less.prems by (subst fillRaw.simps) (simp add: truncated_def)
      with less.hyps [of st1] st1(2) show ?thesis
        by (auto simp: advances_def same_signing_def)
    next
      case False
      with full less.prems have "stuck st" by (auto simp: stuck_def truncated_def)
      then show ?thesis by (simp add: fillRaw_stuck)
    qed
  qed
qed

lemma emitChunks_truncated:
  assumes "truncated st" "ceChunkSize st \<le> length (ceRaw st)"
  shows "truncated (emitChunks st) \<and> ceDone (emitChunks st) = ceDone st \<and> unencoded (emitChunks st) < unencoded st \<and>
    ceOutput (emitChunks st) \<noteq> []"
proof -
  have "emitChunks st = writeChunk (take (ceChunkSize st) (ceRaw st)) (st\<lparr>ceRaw := drop (ceChunkSize st) (ceRaw st)\<rparr>)"
    using assms by (auto simp: emitChunks_def truncated_def writeChunk_def Let_def)
  with assms show ?thesis
    by (auto simp: writeChunk_def Let_def truncated_def cut_off_def chunkText_def)
qed

text \<open>The state after some reads that give bytes or nothing, but no end and no error.\<close>

fun reads :: "nat \<Rightarrow> nat \<Rightarrow> encoder \<Rightarrow> encoder option" where
  "reads 0 n st = Some st"
| "reads (Suc k) n st = (case Read n st of Some ((bs, None), st') \<Rightarrow> reads k n st' | _ \<Rightarrow> None)"

lemma Read_truncated:
  assumes "truncated st" "\<not> ceDone st" "0 < n"
  shows "Read n st = None \<or> (\<exists>bs st'. Read n st = Some ((bs, None), st') \<and> truncated st' \<and> \<not> ceDone st' \<and>
    (unencoded st' < unencoded st \<or> unencoded st' = unencoded st \<and> length (ceOutput st') < length (ceOutput st)))"
proof (cases "ceOutput st = []")
  case False
  with assms show ?thesis by (auto simp: Read_def takeOutput_def truncated_def cut_off_def)
next
  case True
  consider "fillRaw st = None" | st1 where "fillRaw st = Some (None, st1)" "truncated st1" "same_signing st st1"
      "unencoded st1 \<le> unencoded st" "ceChunkSize st1 \<le> length (ceRaw st1)"
    using fillRaw_truncated [OF assms(1)] by (auto simp: same_signing_def)
  then show ?thesis
  proof cases
    case 1
    with True assms(2) show ?thesis by (simp add: Read_def)
  next
    case 2
    note e = emitChunks_truncated [OF 2(2,5)]
    have "truncated (s\<lparr>ceOutput := x\<rparr>) = truncated s" for s x by (simp add: truncated_def cut_off_def)
    with 2 e True assms(2) show ?thesis by (auto simp: Read_def Let_def takeOutput_def same_signing_def)
  qed
qed

lemma truncated_hangs:
  assumes "0 < n"
  shows "truncated st \<Longrightarrow> \<not> ceDone st \<Longrightarrow> \<exists>k st'. reads k n st = Some st' \<and> Read n st' = None"
proof (induction st rule: wf_induct_rule [OF wf_measures, of "[\<lambda>st. unencoded st, \<lambda>st. length (ceOutput st)]"])
  case (1 st)
  from Read_truncated [OF 1(2,3) assms] show ?case
  proof (elim disjE exE conjE)
    assume "Read n st = None"
    then show ?thesis by (intro exI [of _ 0] exI [of _ st]) simp
  next
    fix bs st1
    assume r: "Read n st = Some ((bs, None), st1)" "truncated st1" "\<not> ceDone st1"
      and less: "unencoded st1 < unencoded st"
    with 1(1) [of st1] obtain k st' where "reads k n st1 = Some st'" "Read n st' = None" by auto
    with r(1) show ?thesis by (intro exI [of _ "Suc k"] exI [of _ st']) simp
  next
    fix bs st1
    assume r: "Read n st = Some ((bs, None), st1)" "truncated st1" "\<not> ceDone st1"
      and less: "unencoded st1 = unencoded st" "length (ceOutput st1) < length (ceOutput st)"
    with 1(1) [of st1] obtain k st' where "reads k n st1 = Some st'" "Read n st' = None" by auto
    with r(1) show ?thesis by (intro exI [of _ "Suc k"] exI [of _ st']) simp
  qed
qed

lemma reads_drain: "reads k n st = Some st' \<Longrightarrow> Read n st' = None \<Longrightarrow> drain fuel n st = None"
proof (induction k arbitrary: st fuel)
  case 0
  then show ?case by (cases fuel) simp_all
next
  case (Suc k)
  then obtain bs st1 where "Read n st = Some ((bs, None), st1)" "reads k n st1 = Some st'"
    by (auto split: option.split_asm prod.split_asm)
  with Suc.IH [of st1] Suc.prems(2) show ?case by (cases fuel) simp_all
qed

text \<open>
  C29: when the client's body stops inside the data of a chunk, the first one or one after any number of
  complete chunks, then reading the re-encoder, with a buffer of any size, comes to a call that does not
  return: the end of the body is taken for progress, and the loop reads it again for ever.  The body is
  never read to an end.
\<close>

theorem truncated_source_hangs:
  assumes "NewAwsChunkedReEncoder (concat (map sourceChunk chunks) @ fmt_x m @ '';'' @ ext @ CRLF @ part, e)
      signingKey amzDate region seed = Some st"
    "e = EOF \<or> e = UnexpectedEOF" "list_all chunk_ok chunks" "CHR 0x0A \<notin> set ext" "length part < m" "m < 2 ^ 63" "0 < n"
  shows "(\<exists>k st'. reads k n st = Some st' \<and> Read n st' = None) \<and> (\<forall>fuel. drain fuel n st = None)"
proof -
  have st: "ceSrc st = concat (map sourceChunk chunks) @ fmt_x m @ '';'' @ ext @ CRLF @ part" "ceSrcRemaining st = 0"
    "\<not> ceSrcEOF st" "ceChunkSize st = 65536" "\<not> ceDone st" "ceSrcEnd st = e"
    using assms(1) by (auto simp: NewAwsChunkedReEncoder_def split: if_splits)
  then have "cut_off st" using assms(3-6) by (intro cut_offI [of _ "[]" chunks m ext part]) simp_all
  with st assms(2) have "truncated st" by (simp add: truncated_def)
  with truncated_hangs [OF assms(7)] st(5) reads_drain show ?thesis by blast
qed

theorem truncated_source_hangs_witness:
  "\<exists>st. NewAwsChunkedReEncoder (sourceChunk (''x'', ''hello'') @ fmt_x 10 @ '';'' @ ''x'' @ CRLF @ ''abc'', EOF)
      [] ''20260201T123456Z'' [] [] = Some st \<and> (\<exists>k st'. reads k 100 st = Some st' \<and> Read 100 st' = None)"
proof -
  have "\<exists>st. NewAwsChunkedReEncoder (concat (map sourceChunk [(''x'', ''hello'')]) @ fmt_x 10 @ '';'' @ ''x'' @ CRLF @ ''abc'', EOF)
      [] ''20260201T123456Z'' [] [] = Some st"
    by (simp add: NewAwsChunkedReEncoder_def)
  then obtain st where st: "NewAwsChunkedReEncoder (concat (map sourceChunk [(''x'', ''hello'')]) @ fmt_x 10 @ '';'' @ ''x'' @ CRLF @ ''abc'', EOF)
      [] ''20260201T123456Z'' [] [] = Some st"
    by blast
  from truncated_source_hangs [OF st, of 100] st show ?thesis by (auto simp: chunk_ok_def)
qed

end
