(* ===== verification/Signer.thy ===== *)
theory Signer
  imports Http Time Chunked "HOL-Library.Multiset"
begin

section \<open>Signing requests to a backend\<close>

text \<open>
  \<open>internal/backend/proxy/signer.go\<close>: AWS Signature Version 4 over an outgoing request.  The
  header map is an association list in the order of one iteration.
\<close>

record aws_credentials =
  awsAccessKeyID :: string
  awsSecretAccessKey :: string
  awsSessionToken :: string

record s3_signer =
  sgCredentials :: aws_credentials
  sgRegion :: string

definition NewS3Signer :: "aws_credentials \<Rightarrow> string \<Rightarrow> s3_signer" where
  "NewS3Signer credentials region = \<lparr>sgCredentials = credentials, sgRegion = region\<rparr>"

subsection \<open>The canonical request\<close>

definition shouldSignHeader :: "string \<Rightarrow> bool" where
  "shouldSignHeader name \<longleftrightarrow>
     (if name = ''authorization'' \<or> name = ''host'' then False
      else if name = ''x-amz-signature'' then False
      else if HasPrefix name ''x-amz-'' then True
      else HasPrefix name ''content-'')"

definition requestHost :: "request \<Rightarrow> string" where
  "requestHost req = (if qHost req = [] then uHost (qURL req) else qHost req)"

definition headerLine :: "string \<Rightarrow> string \<Rightarrow> string" where
  "headerLine name v = name @ '':'' @ v"

definition buildCanonicalHeaders :: "request \<Rightarrow> string" where
  "buildCanonicalHeaders req =
     (let host = requestHost req;
          hostLine = (if host \<noteq> [] then [headerLine ''host'' host] else []);
          lines = concat (map (\<lambda>(name, vals).
            (let lowerName = ToLower name in
             if \<not> shouldSignHeader lowerName then []
             else map (\<lambda>v. headerLine lowerName (TrimSpace v)) vals)) (qHeader req))
      in concat (map (\<lambda>l. l @ newline) (sort (hostLine @ lines))))"

definition signedNames :: "header \<Rightarrow> string list" where
  "signedNames h = List.map_filter (\<lambda>(name, vals).
     (let lowerName = ToLower name in
      if lowerName = ''authorization'' \<or> lowerName = ''host'' then None
      else if shouldSignHeader lowerName then Some lowerName else None)) h"

definition getSignedHeaders :: "request \<Rightarrow> string" where
  "getSignedHeaders req =
     Join (sort ((if requestHost req \<noteq> [] then [''host''] else []) @ signedNames (qHeader req))) '';''"

definition addQueryPair :: "string \<Rightarrow> (string \<times> string) list \<Rightarrow> (string \<times> string) list" where
  "addQueryPair pair params =
     (if pair = [] then params
      else case SplitN2 pair ''='' of
        [k, v] \<Rightarrow> AList.update k v params
      | parts \<Rightarrow> AList.update (hd parts) [] params)"

definition buildCanonicalQueryString :: "string \<Rightarrow> string" where
  "buildCanonicalQueryString rawQuery =
     (let params = fold addQueryPair (Split rawQuery ''&'') [];
          text = (\<lambda>k. case map_of params k of
             Some v \<Rightarrow> if v \<noteq> [] then k @ ''='' @ v else k | None \<Rightarrow> k)
      in Join (map text (sort (map fst params))) ''&'')"

definition buildCanonicalRequest :: "request \<Rightarrow> string \<Rightarrow> string" where
  "buildCanonicalRequest req payloadHash =
     (let uri = EscapedPath (qURL req) in
      qMethod req @ newline @
      (if uri = [] then ''/'' else uri) @ newline @
      (if uRawQuery (qURL req) \<noteq> [] then buildCanonicalQueryString (uRawQuery (qURL req)) else []) @ newline @
      buildCanonicalHeaders req @ newline @
      getSignedHeaders req @ newline @
      payloadHash)"

subsection \<open>Signing\<close>

definition credentialScope :: "string \<Rightarrow> string \<Rightarrow> string" where
  "credentialScope datestamp region = datestamp @ ''/'' @ region @ ''/s3/aws4_request''"

text \<open>The four derivation steps written out in \<open>SignRequest\<close>.\<close>

definition signingKeyOf :: "string \<Rightarrow> string \<Rightarrow> string \<Rightarrow> string" where
  "signingKeyOf secretKey datestamp region =
     (let kDate = hmacSHA256 (''AWS4'' @ secretKey) datestamp;
          kRegion = hmacSHA256 kDate region;
          kService = hmacSHA256 kRegion ''s3''
      in hmacSHA256 kService ''aws4_request'')"

text \<open>
  The headers set before signing, and the whole: a date shorter than eight bytes panics
  (\<^const>\<open>None\<close>).
\<close>

definition prepareHeaders :: "s3_signer \<Rightarrow> time \<Rightarrow> string \<Rightarrow> header \<Rightarrow> string \<times> header" where
  "prepareHeaders s now payloadHash h =
     (let h1 = (if hGet h ''x-amz-date'' = [] then hSet ''x-amz-date'' (format_amz now) h else h);
          p1 = (if payloadHash = [] then hGet h1 ''x-amz-content-sha256'' else payloadHash);
          p2 = (if p1 = [] then ''UNSIGNED-PAYLOAD'' else p1)
      in (p2, hSet ''x-amz-security-token'' (awsSessionToken (sgCredentials s)) (hSet ''x-amz-content-sha256'' p2 h1)))"

definition SignRequest :: "s3_signer \<Rightarrow> time \<Rightarrow> request \<Rightarrow> string \<Rightarrow> request option" where
  "SignRequest s now req payloadHash =
     (let (p, h) = prepareHeaders s now payloadHash (qHeader req);
          req1 = req\<lparr>qHeader := h\<rparr>;
          canonicalRequest = buildCanonicalRequest req1 p;
          amzDate = hGet h ''x-amz-date''
      in if length amzDate < 8 then None
         else
           (let datestamp = take 8 amzDate;
                scope = credentialScope datestamp (sgRegion s);
                stringToSign = ''AWS4-HMAC-SHA256'' @ newline @ amzDate @ newline @ scope @ newline @
                  EncodeToString (Sum256 canonicalRequest);
                kSigning = signingKeyOf (awsSecretAccessKey (sgCredentials s)) datestamp (sgRegion s);
                signature = hmacSHA256 kSigning stringToSign;
                authHeader = ''AWS4-HMAC-SHA256 Credential='' @ awsAccessKeyID (sgCredentials s) @ ''/'' @ scope @
                  '', SignedHeaders='' @ getSignedHeaders req1 @ '', Signature='' @ EncodeToString signature
            in Some (req1\<lparr>qHeader := hSet ''Authorization'' authHeader h\<rparr>)))"

text \<open>Signing for a backend client: what retrieving its credentials gives is an argument.\<close>

definition SignStreamingRequest ::
  "string + aws_credentials \<Rightarrow> string \<Rightarrow> time \<Rightarrow> request \<Rightarrow> string \<Rightarrow> string fault + request" where
  "SignStreamingRequest retrieved region now req payloadHash =
     (case retrieved of
        Inl e \<Rightarrow> Inl (Failed (''failed to retrieve credentials: '' @ e))
      | Inr creds \<Rightarrow>
          (case SignRequest (NewS3Signer creds region) now req payloadHash of
             None \<Rightarrow> Inl Panicked
           | Some r \<Rightarrow> Inr r))"

definition SignStreamingRequestWithCredentials ::
  "string + aws_credentials \<Rightarrow> string \<Rightarrow> time \<Rightarrow> request \<Rightarrow> string \<Rightarrow> string fault + request \<times> aws_credentials" where
  "SignStreamingRequestWithCredentials retrieved region now req payloadHash =
     (case retrieved of
        Inl e \<Rightarrow> Inl (Failed (''failed to retrieve credentials: '' @ e))
      | Inr creds \<Rightarrow>
          (case SignRequest (NewS3Signer creds region) now req payloadHash of
             None \<Rightarrow> Inl Panicked
           | Some r \<Rightarrow> Inr (r, creds)))"

lemma EncodeToString_chars:
  assumes "c \<in> set (EncodeToString s)"
  shows "\<exists>i < 16. c = digit_char i"
proof -
  obtain y :: char where y: "c = digit_char (of_char y div 16) \<or> c = digit_char (of_char y mod 16)"
    using assms by (auto simp: EncodeToString_def)
  have "(of_char y :: nat) div 16 < 16" "(of_char y :: nat) mod 16 < 16"
    using nat_of_char_less_256 [of y] by (simp_all add: less_mult_imp_div_less)
  with y show ?thesis by blast
qed

lemma hex_plain: "c \<in> set (EncodeToString s) \<Longrightarrow> c \<noteq> CHR '','' \<and> \<not> is_space c"
proof -
  have "\<forall>i \<in> set [0..<16]. digit_char i \<noteq> CHR '','' \<and> \<not> is_space (digit_char i)" by code_simp
  then show "c \<in> set (EncodeToString s) \<Longrightarrow> c \<noteq> CHR '','' \<and> \<not> is_space c"
    using EncodeToString_chars [of c s] by auto
qed

lemma SignRequest_keeps:
  "SignRequest s now req p = Some r \<Longrightarrow>
    qURL r = qURL req \<and> qMethod r = qMethod req \<and> qHost r = qHost req \<and> qBody r = qBody req"
  by (auto simp: SignRequest_def Let_def split: prod.split_asm if_split_asm)

subsection \<open>Independence of the map order\<close>

lemma mset_map_filter: "mset xs = mset ys \<Longrightarrow> mset (List.map_filter f xs) = mset (List.map_filter f ys)"
  by (simp add: List.map_filter_def mset_filter)

lemma mset_concat_map:
  assumes "mset xs = mset ys"
  shows "mset (concat (map f xs)) = mset (concat (map f ys))"
proof -
  have "mset (concat (map f zs)) = sum_mset (image_mset (\<lambda>x. mset (f x)) (mset zs))" for zs
    by (induction zs) auto
  with assms show ?thesis by simp
qed

lemma sort_cong: "mset xs = mset ys \<Longrightarrow> sort xs = sort (ys :: string list)"
  by (metis properties_for_sort mset_sort sorted_sort)

lemma map_of_perm:
  assumes "mset h = mset h'" "distinct (map fst h)"
  shows "map_of h = map_of h'"
proof -
  have "distinct (map fst h')" using assms by (metis mset_map mset_eq_imp_distinct_iff)
  with assms show ?thesis by (metis map_of_eqI set_map mset_eq_setD mset_map map_of_is_SomeI map_of_SomeD domIff
        weak_map_of_SomeI option.exhaust ext)
qed

lemma mset_update:
  "distinct (map fst h) \<Longrightarrow> mset (AList.update k v h) = add_mset (k, v) (filter_mset (\<lambda>p. fst p \<noteq> k) (mset h))"
proof (induction h)
  case (Cons p h)
  obtain a b where p: "p = (a, b)" by (cases p)
  show ?case
  proof (cases "a = k")
    case True
    then have "filter (\<lambda>p. fst p \<noteq> k) h = h" using Cons.prems p by (auto simp: filter_id_conv)
    then have "filter_mset (\<lambda>p. fst p \<noteq> k) (mset h) = mset h" by (metis mset_filter)
    with True p show ?thesis by simp
  next
    case False
    with Cons p show ?thesis by simp
  qed
qed simp

lemma hSet_perm:
  "mset h = mset h' \<Longrightarrow> distinct (map fst h) \<Longrightarrow> mset (hSet k v h) = mset (hSet k v h')"
proof -
  assume a: "mset h = mset h'" "distinct (map fst h)"
  then have "distinct (map fst h')" by (metis mset_map mset_eq_imp_distinct_iff)
  with a show "mset (hSet k v h) = mset (hSet k v h')" by (simp add: hSet_def mset_update)
qed

lemma hGet_perm: "mset h = mset h' \<Longrightarrow> distinct (map fst h) \<Longrightarrow> hGet h k = hGet h' k"
  using map_of_perm by (metis hGet_def hValues_def)

lemma prepareHeaders_perm:
  assumes "mset h = mset h'" "distinct (map fst h)"
  shows "fst (prepareHeaders s now p h) = fst (prepareHeaders s now p h') \<and>
    mset (snd (prepareHeaders s now p h)) = mset (snd (prepareHeaders s now p h')) \<and>
    distinct (map fst (snd (prepareHeaders s now p h)))"
proof -
  define g where "g h = (if hGet h ''x-amz-date'' = [] then hSet ''x-amz-date'' (format_amz now) h else h)" for h
  have g: "mset (g h) = mset (g h')" "distinct (map fst (g h))"
    using hGet_perm [OF assms] hSet_perm [OF assms] assms by (auto simp: g_def)
  show ?thesis
    using hGet_perm [OF g] hSet_perm [OF hSet_perm [OF g]] g
    by (simp add: prepareHeaders_def Let_def flip: g_def)
qed

lemma canonical_perm:
  assumes "mset h = mset h'"
  shows "buildCanonicalRequest (req\<lparr>qHeader := h\<rparr>) p = buildCanonicalRequest (req\<lparr>qHeader := h'\<rparr>) p"
    and "getSignedHeaders (req\<lparr>qHeader := h\<rparr>) = getSignedHeaders (req\<lparr>qHeader := h'\<rparr>)"
proof -
  have "sort (a @ signedNames h) = sort (a @ signedNames h')" for a
    using mset_map_filter [OF assms] by (intro sort_cong) (simp add: signedNames_def)
  then show g: "getSignedHeaders (req\<lparr>qHeader := h\<rparr>) = getSignedHeaders (req\<lparr>qHeader := h'\<rparr>)"
    by (simp add: getSignedHeaders_def requestHost_def)
  have "sort (a @ concat (map f h)) = sort (a @ concat (map f h'))" for a :: "string list" and f
    by (rule sort_cong) (simp only: mset_append mset_concat_map [OF assms])
  then have "buildCanonicalHeaders (req\<lparr>qHeader := h\<rparr>) = buildCanonicalHeaders (req\<lparr>qHeader := h'\<rparr>)"
    by (simp add: buildCanonicalHeaders_def requestHost_def Let_def)
  with g show "buildCanonicalRequest (req\<lparr>qHeader := h\<rparr>) p = buildCanonicalRequest (req\<lparr>qHeader := h'\<rparr>) p"
    by (simp add: buildCanonicalRequest_def)
qed

text \<open>
  C33: the signature does not depend on the order in which a Go map yields the headers: any two
  orders give the same \<open>Authorization\<close> header, or both panic on the date.
\<close>

theorem signature_order_independent:
  assumes "mset (qHeader r) = mset h'" "distinct (map fst (qHeader r))"
  shows "map_option (\<lambda>x. hGet (qHeader x) ''Authorization'') (SignRequest s now r p) =
    map_option (\<lambda>x. hGet (qHeader x) ''Authorization'') (SignRequest s now (r\<lparr>qHeader := h'\<rparr>) p)"
proof -
  let ?h = "snd (prepareHeaders s now p (qHeader r))" and ?h' = "snd (prepareHeaders s now p h')"
  note q = prepareHeaders_perm [OF assms, of s now p]
  then have "mset ?h = mset ?h'" "distinct (map fst ?h)" by auto
  note c = canonical_perm [OF this(1), of r] hGet_perm [OF this, of "''x-amz-date''"]
  show ?thesis
    unfolding SignRequest_def Let_def split_def by (simp add: c q)
qed

definition sample_request :: request where
  "sample_request = \<lparr>qMethod = ''GET'', qURL = \<lparr>uScheme = ''https'', uHost = ''h'', uPath = ''/b/k'', uRawPath = [], uRawQuery = []\<rparr>,
     qHost = ''h'', qHeader = [(''X-Amz-Date'', [''20260201T000000Z'']), (''X-Amz-Meta-A'', [''1'']), (''X-Amz-Meta-A-B'', [''2''])],
     qBody = [], qBodyErr = None, qContentLength = 0, qTrailer = []\<rparr>"

definition sample_signer :: s3_signer where
  "sample_signer = NewS3Signer \<lparr>awsAccessKeyID = ''AK'', awsSecretAccessKey = ''sk'', awsSessionToken = []\<rparr> ''us-east-1''"

theorem signature_order_independent_witness:
  "map_option (\<lambda>x. hGet (qHeader x) ''Authorization'') (SignRequest sample_signer 0 sample_request []) =
    map_option (\<lambda>x. hGet (qHeader x) ''Authorization'')
      (SignRequest sample_signer 0 (sample_request\<lparr>qHeader := rev (qHeader sample_request)\<rparr>) [])"
  by (rule signature_order_independent) (simp_all add: sample_request_def)

text \<open>
  The lines of the canonical headers are sorted as lines and the signed names as names: a name that
  another one extends with a hyphen comes first in one and second in the other.
\<close>

lemma canonical_headers_disagree:
  "buildCanonicalHeaders sample_request =
     ''host:h'' @ newline @ ''x-amz-date:20260201T000000Z'' @ newline @ ''x-amz-meta-a-b:2'' @ newline @
     ''x-amz-meta-a:1'' @ newline \<and>
   getSignedHeaders sample_request = ''host;x-amz-date;x-amz-meta-a;x-amz-meta-a-b''"
  by code_simp

end
