(* ===== verification/Verifier.thy ===== *)
theory Verifier
  imports Signer Auth Config Regex
begin

section \<open>Verifying the signature of a request\<close>

text \<open>
  \<open>internal/server/verifier.go\<close>: Signature Version 4 of incoming requests, in the
  \<open>Authorization\<close> header or in the query.  Verification sets the header with the hash of the
  payload when it is missing, so the request is part of the result.  The clock is read once.
\<close>

record verifier =
  vGetSecret :: "string \<Rightarrow> store_error + string"
  vTimeOffset :: int
  vDefaultRegion :: string

record auth_context =
  acPrincipal :: string
  acAccessKeyID :: string
  acSignatureType :: string
  acIsAuthenticated :: bool
  acTimestamp :: time

record auth_error =
  aeCode :: string
  aeMessage :: string

definition authErrorText :: "auth_error \<Rightarrow> string" where
  "authErrorText e = aeCode e @ '': '' @ aeMessage e"

definition Minute :: int where "Minute = 60 * Second"

definition NewVerifier :: "config \<Rightarrow> (string \<Rightarrow> store_error + string) \<Rightarrow> verifier" where
  "NewVerifier cfg getSecret =
     \<lparr>vGetSecret = getSecret,
      vTimeOffset = (case cfgAuth cfg of
        Some a \<Rightarrow> if aClockSkewLeeway a \<noteq> 0 then aClockSkewLeeway a else 15 * Minute | None \<Rightarrow> 15 * Minute),
      vDefaultRegion = (case cfgAuth cfg of
        Some a \<Rightarrow> if aDefaultRegion a \<noteq> [] then aDefaultRegion a else ''us-east-1'' | None \<Rightarrow> ''us-east-1'')\<rparr>"

subsection \<open>The canonical request\<close>

text \<open>An invalid byte is written as the replacement character, as ranging over a string does.\<close>

definition percent_bytes :: "string \<Rightarrow> string" where
  "percent_bytes bs = concat (map percent bs)"

function encodeRFC3986 :: "string \<Rightarrow> string" where
  "encodeRFC3986 s =
     (case s of
        [] \<Rightarrow> []
      | c # _ \<Rightarrow>
          (let w = rune_width s in
           (if unreserved c then [c]
            else if w = 1 \<and> 128 \<le> byte c then ''%EF%BF%BD''
            else percent_bytes (take w s)) @ encodeRFC3986 (drop w s)))"
  by pat_completeness auto
termination
proof (relation "measure length", goal_cases)
  case (2 s c cs w)
  then have "0 < w" using rune_width_pos [of s] by simp
  with 2 show ?case by simp
qed simp

declare encodeRFC3986.simps [simp del]

definition encodeQueryStringRFC3986 :: "url_values \<Rightarrow> string" where
  "encodeQueryStringRFC3986 query =
     (if query = [] then []
      else Join (concat (map (\<lambda>k. map (\<lambda>v. encodeRFC3986 k @ ''='' @ encodeRFC3986 v) (sort (vValues query k)))
        (sort (map fst query)))) ''&'')"

definition headerValueFor :: "request \<Rightarrow> string \<Rightarrow> string" where
  "headerValueFor r header =
     (let v = hGet (qHeader r) header in
      if v = [] \<and> header = ''host'' then (if qHost r = [] then hGet (qHeader r) ''Host'' else qHost r) else v)"

definition canonicalHeaderLine :: "request \<Rightarrow> string \<Rightarrow> string" where
  "canonicalHeaderLine r h =
     (let header = ToLower (TrimSpace h) in header @ '':'' @ TrimSpace (headerValueFor r header) @ newline)"

definition createCanonicalRequest :: "request \<Rightarrow> string \<Rightarrow> string \<Rightarrow> string" where
  "createCanonicalRequest r signedHeaders payloadHash =
     (let uri = EscapedPath (qURL r); query = AList.delete ''X-Amz-Signature'' (qQuery r) in
      qMethod r @ newline @ (if uri = [] then ''/'' else uri) @ newline @
      encodeQueryStringRFC3986 query @ newline @
      concat (map (canonicalHeaderLine r) (Split signedHeaders '';'')) @
      newline @ signedHeaders @ newline @ payloadHash)"

definition GetSigningKey :: "string \<Rightarrow> string \<Rightarrow> string \<Rightarrow> string \<Rightarrow> string" where
  "GetSigningKey secretAccessKey dateStamp region service =
     (let kDate = hmacSHA256 (''AWS4'' @ secretAccessKey) dateStamp;
          kRegion = hmacSHA256 kDate region;
          kService = hmacSHA256 kRegion service
      in hmacSHA256 kService ''aws4_request'')"

text \<open>The signature, and the request with its payload hash; a short date panics (\<^const>\<open>None\<close>).\<close>

definition computeSignatureWithRegion ::
  "request \<Rightarrow> string \<Rightarrow> string \<Rightarrow> string \<Rightarrow> string \<Rightarrow> (string fault + string) \<times> request" where
  "computeSignatureWithRegion r secretKey amzDate signedHeaders region =
     (let sha = hGet (qHeader r) ''X-Amz-Content-Sha256'';
          payloadHash = (if sha \<noteq> [] then sha else EncodeToString (Sum256 (qBody r)));
          r1 = r\<lparr>qHeader := hSet ''X-Amz-Content-Sha256'' payloadHash (qHeader r)\<rparr>;
          canonical = createCanonicalRequest r1 signedHeaders payloadHash
      in if sha = [] \<and> qBodyErr r \<noteq> None then
           (Inl (Failed (''failed to read request body: '' @ the (qBodyErr r))), r\<lparr>qBody := []\<rparr>)
         else if length amzDate < 8 then (Inl Panicked, r1)
         else
           (let dateStamp = take 8 amzDate;
                stringToSign = ''AWS4-HMAC-SHA256'' @ newline @ amzDate @ newline @ dateStamp @ ''/'' @ region @ ''/'' @
                  ''s3'' @ ''/aws4_request'' @ newline @ EncodeToString (Sum256 canonical)
            in (Inr (EncodeToString (hmacSHA256 (GetSigningKey secretKey dateStamp region ''s3'') stringToSign)), r1)))"

subsection \<open>Header signatures\<close>

definition parseParam :: "string \<Rightarrow> string \<times> string \<times> string \<Rightarrow> string \<times> string \<times> string" where
  "parseParam param0 acc =
     (let param = TrimSpace param0; (accessKeyID, signedHeaders, signature) = acc in
      if HasPrefix param ''Credential='' then (hd (Split (TrimPrefix param ''Credential='') ''/''), signedHeaders, signature)
      else if HasPrefix param ''SignedHeaders='' then (accessKeyID, TrimPrefix param ''SignedHeaders='', signature)
      else if HasPrefix param ''Signature='' then (accessKeyID, signedHeaders, TrimPrefix param ''Signature='')
      else acc)"

definition parseAuthHeader :: "string \<Rightarrow> string + string \<times> string \<times> string" where
  "parseAuthHeader authHeader =
     (case SplitN2 authHeader '' '' of
        [scheme, params] \<Rightarrow>
          (if scheme \<noteq> ''AWS4-HMAC-SHA256'' then Inl ''invalid authorization scheme''
           else
             (let (k, h, s) = fold parseParam (Split params '','') ([], [], []) in
              if k = [] \<or> h = [] \<or> s = [] then Inl ''missing required authorization components'' else Inr (k, h, s)))
      | _ \<Rightarrow> Inl ''invalid authorization scheme'')"

definition credentialRegion :: "string \<Rightarrow> string \<Rightarrow> string" where
  "credentialRegion defaultRegion authHeader =
     (if Contains authHeader ''Credential='' then
        (let credPart = hd (Split (Split authHeader ''Credential='' ! 1) '','');
             credParts = Split credPart ''/''
         in if length credParts \<ge> 4 then credParts ! 2 else defaultRegion)
      else defaultRegion)"

text \<open>An outcome: the context, an error (\<^const>\<open>Inl\<close> a panic), and the request.\<close>

type_synonym verification = "(auth_context \<times> auth_error option) option \<times> request"

definition newContext :: "time \<Rightarrow> string \<Rightarrow> auth_context" where
  "newContext now kind = \<lparr>acPrincipal = [], acAccessKeyID = [], acSignatureType = kind, acIsAuthenticated = False,
     acTimestamp = now\<rparr>"

definition failAuth :: "auth_context \<Rightarrow> string \<Rightarrow> string \<Rightarrow> (auth_context \<times> auth_error option) option" where
  "failAuth a code msg = Some (a, Some \<lparr>aeCode = code, aeMessage = msg\<rparr>)"

definition tooSkewed :: "verifier \<Rightarrow> time \<Rightarrow> time \<Rightarrow> bool" where
  "tooSkewed v now timestamp \<longleftrightarrow> timestamp < now - vTimeOffset v \<or> now + vTimeOffset v < timestamp"

text \<open>The comparison both styles end with.\<close>

definition checkSignature ::
  "auth_context \<Rightarrow> string \<Rightarrow> (string fault + string) \<times> request \<Rightarrow> verification" where
  "checkSignature a provided computed =
     (case computed of
        (Inl Panicked, r) \<Rightarrow> (None, r)
      | (Inl (Failed e), r) \<Rightarrow> (failAuth a ''InternalError'' (''Failed to compute signature: '' @ e), r)
      | (Inr expected, r) \<Rightarrow>
          (if provided \<noteq> expected then
             (failAuth a ''SignatureDoesNotMatch'' ''The authorization signature provided is invalid'', r)
           else (Some (a\<lparr>acIsAuthenticated := True\<rparr>, None), r)))"

definition verifyHeaderSignature :: "verifier \<Rightarrow> time \<Rightarrow> request \<Rightarrow> string \<Rightarrow> verification" where
  "verifyHeaderSignature v now r authHeader =
     (let a0 = newContext now ''header'' in
      case parseAuthHeader authHeader of
        Inl e \<Rightarrow> (failAuth a0 ''InvalidAuthHeader'' e, r)
      | Inr (accessKeyID, signedHeaders, providedSig) \<Rightarrow>
          (let a = a0\<lparr>acAccessKeyID := accessKeyID, acPrincipal := accessKeyID\<rparr> in
           case vGetSecret v accessKeyID of
             Inl _ \<Rightarrow> (failAuth a ''InvalidAccessKeyId'' (''Access key '' @ [CHR 0x27] @ accessKeyID @ [CHR 0x27] @ '' not found''), r)
           | Inr secretKey \<Rightarrow>
               (let amzDate = hGet (qHeader r) ''X-Amz-Date'' in
                if amzDate = [] then (failAuth a ''MissingDateHeader'' ''X-Amz-Date header is required'', r)
                else case parse_amz amzDate of
                  None \<Rightarrow> (failAuth a ''InvalidDateHeader'' (''Invalid X-Amz-Date format: '' @ amzDate), r)
                | Some timestamp \<Rightarrow>
                    (if tooSkewed v now timestamp then
                       (failAuth a ''RequestTimeTooSkewed'' ''Request timestamp expired or too far in future'', r)
                     else checkSignature a providedSig
                       (computeSignatureWithRegion r secretKey amzDate signedHeaders
                          (credentialRegion (vDefaultRegion v) authHeader))))))"

subsection \<open>Query signatures\<close>

definition verifyQuerySignature :: "verifier \<Rightarrow> time \<Rightarrow> request \<Rightarrow> verification" where
  "verifyQuerySignature v now r =
     (let a0 = newContext now ''query''; q = qQuery r; scope = vGet q ''X-Amz-Credential'' in
      if scope = [] then (failAuth a0 ''InvalidQueryStringParameter'' ''X-Amz-Credential parameter is required'', r)
      else
        (let parts = Split scope ''/'' in
         if length parts < 2 then (failAuth a0 ''InvalidQueryStringParameter'' ''Invalid X-Amz-Credential format'', r)
         else
           (let accessKeyID = hd parts;
                a = a0\<lparr>acAccessKeyID := accessKeyID, acPrincipal := accessKeyID\<rparr>;
                region = (if length parts \<ge> 4 then parts ! 2 else vDefaultRegion v)
            in case vGetSecret v accessKeyID of
                 Inl _ \<Rightarrow> (failAuth a ''InvalidAccessKeyId'' (''Access key '' @ [CHR 0x27] @ accessKeyID @ [CHR 0x27] @ '' not found''), r)
               | Inr secretKey \<Rightarrow>
                   (let amzDate = vGet q ''X-Amz-Date'' in
                    if amzDate = [] then
                      (failAuth a ''InvalidQueryStringParameter'' ''X-Amz-Date query parameter is required'', r)
                    else case parse_amz amzDate of
                      None \<Rightarrow> (failAuth a ''InvalidQueryStringParameter'' (''Invalid X-Amz-Date format: '' @ amzDate), r)
                    | Some timestamp \<Rightarrow>
                        (if tooSkewed v now timestamp then
                           (failAuth a ''RequestTimeTooSkewed'' ''Request timestamp expired or too far in future'', r)
                         else
                           (let sh = vGet q ''X-Amz-SignedHeaders'';
                                signedHeaders = (if sh = [] then ''host'' else sh)
                            in checkSignature a (vGet q ''X-Amz-Signature'')
                                 (computeSignatureWithRegion r secretKey amzDate signedHeaders region)))))))"

subsection \<open>Requests\<close>

definition VerifyRequest :: "verifier \<Rightarrow> time \<Rightarrow> request \<Rightarrow> verification" where
  "VerifyRequest v now r =
     (let authHeader = hGet (qHeader r) ''Authorization'' in
      if authHeader \<noteq> [] then verifyHeaderSignature v now r authHeader
      else if vGet (qQuery r) ''X-Amz-Signature'' \<noteq> [] then verifyQuerySignature v now r
      else (failAuth (newContext now []) ''MissingAuthenticationToken''
              ''Authorization header or X-Amz-Signature query parameter required'', r))"

text \<open>Signing with the signer of the SDK, which is a parameter.\<close>

definition verifierSignRequest ::
  "(aws_credentials \<Rightarrow> string \<Rightarrow> request \<Rightarrow> string + request) \<Rightarrow> request \<Rightarrow> backend_config \<Rightarrow> string + request" where
  "verifierSignRequest signHTTP r backendCreds =
     (case bCredentials backendCreds of
        None \<Rightarrow> Inr r
      | Some c \<Rightarrow> signHTTP \<lparr>awsAccessKeyID = cAccessKeyID c, awsSecretAccessKey = cSecretAccessKey c,
            awsSessionToken = cSessionToken c\<rparr> ''us-east-1'' r)"

end
