(* ===== verification/SignVerify.thy ===== *)
theory SignVerify
  imports Verifier
begin

section \<open>The signer against the verifier\<close>

text \<open>
  The two implementations of Signature Version 4, \<open>signer.go\<close> for requests to backends and
  \<open>verifier.go\<close> for requests of clients, checked against each other: what the one signs, the other
  accepts, as far as they agree on the canonical form; and what acceptance means.
\<close>

subsection \<open>What acceptance means\<close>

lemma checkSignature_None:
  "checkSignature a p c = (Some (ctx, None), r) \<longleftrightarrow> c = (Inr p, r) \<and> ctx = a\<lparr>acIsAuthenticated := True\<rparr>"
  by (auto simp: checkSignature_def failAuth_def split: prod.splits sum.splits fault.splits)

lemma failAuth_neq [simp]: "failAuth a c m \<noteq> Some (ctx, None)"
  by (simp add: failAuth_def)

lemma tooSkewed_iff: "tooSkewed v now ts \<longleftrightarrow> \<not> \<bar>now - ts\<bar> \<le> vTimeOffset v"
  by (auto simp: tooSkewed_def)

text \<open>
  What a request presents: the access key, date, names of signed headers, region and signature that it is
  checked with, from its headers when it has an \<open>Authorization\<close> header, and from its \<open>X-Amz-\<close> parameters
  otherwise.
\<close>

definition presented :: "verifier \<Rightarrow> request \<Rightarrow> string \<Rightarrow> string \<Rightarrow> string \<Rightarrow> string \<Rightarrow> string \<Rightarrow> bool" where
  "presented v r accessKey date headers region signature \<longleftrightarrow>
     (let auth = hGet (qHeader r) ''Authorization''; q = qQuery r;
          scope = Split (vGet q ''X-Amz-Credential'') ''/'';
          named = vGet q ''X-Amz-SignedHeaders''
      in if auth \<noteq> [] then
           parseAuthHeader auth = Inr (accessKey, headers, signature) \<and>
           date = hGet (qHeader r) ''X-Amz-Date'' \<and> region = credentialRegion (vDefaultRegion v) auth
         else
           signature = vGet q ''X-Amz-Signature'' \<and> signature \<noteq> [] \<and> 2 \<le> length scope \<and> accessKey = hd scope \<and>
           date = vGet q ''X-Amz-Date'' \<and> headers = (if named = [] then ''host'' else named) \<and>
           region = (if 4 \<le> length scope then scope ! 2 else vDefaultRegion v))"

lemma parse_amz_Nil [simp]: "parse_amz [] = None"
  by code_simp

lemma Split_Nil: "Split [] ''/'' = [[]]"
  by code_simp

lemma failAuth_cases: "failAuth a c m = Some (ctx, err) \<longleftrightarrow> ctx = a \<and> err = Some \<lparr>aeCode = c, aeMessage = m\<rparr>"
  by (auto simp: failAuth_def)

lemma VerifyRequest_marks:
  assumes "VerifyRequest v now r = (Some (ctx, err), r')"
  shows "acIsAuthenticated ctx \<longleftrightarrow> err = None"
  using assms
  by (auto simp: VerifyRequest_def verifyHeaderSignature_def verifyQuerySignature_def Let_def failAuth_cases newContext_def
      checkSignature_def split: if_splits sum.splits option.splits prod.splits fault.splits)

text \<open>
  C3: a request is let through exactly when what it presents adds up: its access key is one the store
  knows, its date is well-formed and within the allowed skew, and its signature is the one computed for
  this very request with that key's secret, that date, those signed headers and that region, all taken
  from the headers, or from the \<open>X-Amz-\<close> parameters of a request without an \<open>Authorization\<close> header; the
  context then names that access key, and it is marked authenticated then, and only then.
\<close>

theorem verified_request:
  assumes "VerifyRequest v now r = (Some (ctx, err), r')"
  shows "(acIsAuthenticated ctx \<longleftrightarrow> err = None) \<and>
    (err = None \<longleftrightarrow>
      (\<exists>accessKey date headers region signature secret ts.
         presented v r accessKey date headers region signature \<and> acAccessKeyID ctx = accessKey \<and>
         vGetSecret v accessKey = Inr secret \<and> parse_amz date = Some ts \<and> \<bar>now - ts\<bar> \<le> vTimeOffset v \<and>
         computeSignatureWithRegion r secret date headers region = (Inr signature, r')))"
proof (cases "hGet (qHeader r) ''Authorization'' = []")
  case True
  note no_header = this
  show ?thesis
  proof (cases "vGet (qQuery r) ''X-Amz-Signature'' = []")
    case True
    with no_header VerifyRequest_marks [OF assms] assms show ?thesis
      by (auto simp: VerifyRequest_def presented_def Let_def failAuth_cases)
  next
    case False
    with no_header VerifyRequest_marks [OF assms] assms show ?thesis
      by (auto simp: VerifyRequest_def verifyQuerySignature_def presented_def Let_def failAuth_cases checkSignature_None
          tooSkewed_iff newContext_def Split_Nil checkSignature_def split: if_splits sum.splits option.splits prod.splits fault.splits)
  qed
next
  case False
  with VerifyRequest_marks [OF assms] assms show ?thesis
    by (auto simp: VerifyRequest_def verifyHeaderSignature_def presented_def Let_def failAuth_cases checkSignature_None
        tooSkewed_iff newContext_def checkSignature_def split: if_splits sum.splits option.splits prod.splits fault.splits)
qed

subsection \<open>The canonical headers\<close>

text \<open>Headers as a client sends them: canonical names, each with one value, and no host entry.\<close>

definition wf_header :: "header \<Rightarrow> bool" where
  "wf_header h \<longleftrightarrow> distinct (map fst h) \<and>
     (\<forall>(k, vs) \<in> set h. list_all token_char k \<and> CanonicalKey k = k \<and> length vs = 1 \<and> k \<noteq> ''Host'')"

lemma char_case_facts:
  "lower_char (lower_char c) = lower_char c \<and> upper_char (lower_char c) = upper_char c \<and>
   token_char (lower_char c) = token_char c \<and> (lower_char c = CHR ''-'') = (c = CHR ''-'')" (is "?P c")
proof (cases "is_upper c")
  case True
  have "\<forall>n \<in> set [65..<91]. ?P (char_of n)" by code_simp
  then show ?thesis by (rule char_range) (use True in \<open>auto simp: is_upper_def less_eq_char_def less_char_def\<close>)
qed (simp add: lower_char_def)

lemma canon_chars_lower: "canon_chars up (map lower_char s) = canon_chars up s"
  by (induction s arbitrary: up) (auto simp: char_case_facts)

lemma CanonicalKey_ToLower: "list_all token_char k \<Longrightarrow> CanonicalKey (ToLower k) = CanonicalKey k"
  by (simp add: CanonicalKey_def ToLower_def list.pred_map o_def char_case_facts canon_chars_lower)

lemma ToLower_ToLower [simp]: "ToLower (ToLower k) = ToLower k"
  by (simp add: ToLower_def char_case_facts)

lemma token_facts:
  assumes "list_all token_char k"
  shows "CHR '';'' \<notin> set (ToLower k)" "CHR '','' \<notin> set (ToLower k)" "CHR '':'' \<notin> set (ToLower k)"
    "TrimSpace (ToLower k) = ToLower k" "\<forall>c \<in> set (ToLower k). \<not> is_space c"
proof -
  have sp: "\<not> token_char c" if "is_space c" for c
  proof (cases "c = CHR '' ''")
    case True
    have "\<not> token_char CHR '' ''" by code_simp
    with True show ?thesis by simp
  next
    case False
    have "\<forall>n \<in> set [9..<14]. \<not> token_char (char_of n)" by code_simp
    then show ?thesis by (rule char_range) (use that False in \<open>auto simp: is_space_def less_eq_char_def less_char_def\<close>)
  qed
  have "\<not> token_char CHR '';'' \<and> \<not> token_char CHR '','' \<and> \<not> token_char CHR '':'' \<and> \<not> token_char CHR '' ''" by code_simp
  with sp have n: "token_char c \<Longrightarrow> c \<noteq> CHR '';'' \<and> c \<noteq> CHR '','' \<and> c \<noteq> CHR '':'' \<and> c \<noteq> CHR '' '' \<and> \<not> is_space c" for c
    by metis
  have "\<forall>c \<in> set (ToLower k). token_char c" using assms by (auto simp: ToLower_def list_all_iff char_case_facts)
  with n show "CHR '';'' \<notin> set (ToLower k)" "CHR '','' \<notin> set (ToLower k)" "CHR '':'' \<notin> set (ToLower k)"
    "TrimSpace (ToLower k) = ToLower k" "\<forall>c \<in> set (ToLower k). \<not> is_space c"
    by (blast, blast, blast, intro TrimSpace_id, blast, blast)
qed

text \<open>No signed name extends another: then sorting names and sorting lines is the same.\<close>

definition unextended :: "string list \<Rightarrow> bool" where
  "unextended names \<longleftrightarrow> (\<forall>a \<in> set names. \<forall>b \<in> set names. \<not> strict_prefix a b)"

lemma append_less:
  "a < b \<Longrightarrow> \<not> prefix a b \<Longrightarrow> a @ x < b @ (y :: string)"
  by (induction a arbitrary: b; case_tac b) auto

lemma sort_map_mono:
  assumes "\<And>a b. a \<in> set xs \<Longrightarrow> b \<in> set xs \<Longrightarrow> a \<le> b \<Longrightarrow> f a \<le> f b"
  shows "sort (map f xs) = map f (sort (xs :: string list)) \<and> sorted (map f (sort xs) :: string list)"
proof -
  have "sorted (map f (sort xs))"
    unfolding sorted_map by (rule sorted_wrt_mono_rel [OF _ sorted_sort]) (use assms in auto)
  moreover have "mset (map f (sort xs)) = mset (map f xs)" by simp
  ultimately show ?thesis using properties_for_sort by metis
qed

lemma Split_Join:
  assumes "ss \<noteq> []" "\<forall>s \<in> set ss. c \<notin> set s"
  shows "Split (Join ss [c]) [c] = ss"
  using assms
proof (induction ss)
  case (Cons s ss)
  then show ?case
    by (cases ss) (auto simp: Split_byte_none Split_byte_append)
qed simp

text \<open>The names and the value of each.\<close>

definition allNames :: "request \<Rightarrow> string list" where
  "allNames req = ''host'' # signedNames (qHeader req)"

lemma signedNames_entry:
  assumes "n \<in> set (signedNames h)"
  obtains k vs where "(k, vs) \<in> set h" "n = ToLower k" "shouldSignHeader n"
  using assms by (auto simp: signedNames_def List.map_filter_def Let_def split: if_splits)

lemma hGet_entry:
  assumes "wf_header h" "(k, vs) \<in> set h"
  shows "vs = [hGet h (ToLower k)]"
proof -
  have k: "list_all token_char k" "CanonicalKey k = k" "length vs = 1" "map_of h k = Some vs"
    using assms by (auto simp: wf_header_def)
  then have "hGet h (ToLower k) = hd vs"
    by (cases vs) (simp_all add: hGet_def hValues_def CanonicalKey_ToLower)
  with k(3) show ?thesis by (cases vs) auto
qed

definition lineOf :: "request \<Rightarrow> string \<Rightarrow> string" where
  "lineOf req n = headerLine n (TrimSpace (if n = ''host'' then qHost req else hGet (qHeader req) n))"

lemma canonical_lines:
  assumes "wf_header (qHeader req)" "qHost req \<noteq> []" "TrimSpace (qHost req) = qHost req"
  shows "[headerLine ''host'' (requestHost req)] @ concat (map (\<lambda>(name, vals).
            (let lowerName = ToLower name in
             if \<not> shouldSignHeader lowerName then []
             else map (\<lambda>v. headerLine lowerName (TrimSpace v)) vals)) (qHeader req)) = map (lineOf req) (allNames req)"
proof -
  have "concat (map (\<lambda>(name, vals). (let lowerName = ToLower name in
             if \<not> shouldSignHeader lowerName then []
             else map (\<lambda>v. headerLine lowerName (TrimSpace v)) vals)) h) = map (lineOf req) (signedNames h)"
    if "set h \<subseteq> set (qHeader req)" for h
    using that
  proof (induction h)
    case (Cons p h)
    obtain k vs where p: "p = (k, vs)" by (cases p)
    then have "vs = [hGet (qHeader req) (ToLower k)]" using hGet_entry assms(1) Cons.prems by auto
    with Cons p show ?case
      by (auto simp: signedNames_def Let_def lineOf_def shouldSignHeader_def)
  qed (simp add: signedNames_def)
  from this [OF subset_refl] show ?thesis
    using assms(2,3) by (simp add: allNames_def lineOf_def requestHost_def)
qed

lemma lineOf_mono:
  assumes "unextended ns" "a \<in> set ns" "b \<in> set ns" "a \<le> b"
  shows "lineOf req a \<le> lineOf req b"
proof (cases "a = b")
  case False
  with assms have "a < b" "\<not> prefix a b" by (auto simp: unextended_def strict_prefix_def)
  from append_less [OF this] have "lineOf req a < lineOf req b" unfolding lineOf_def headerLine_def by blast
  then show ?thesis by (rule order_less_imp_le)
qed simp

lemma buildCanonicalHeaders_lines:
  assumes "wf_header (qHeader req)" "qHost req \<noteq> []" "TrimSpace (qHost req) = qHost req" "unextended (allNames req)"
  shows "buildCanonicalHeaders req = concat (map (\<lambda>n. lineOf req n @ newline) (sort (allNames req)))"
proof -
  have r: "requestHost req \<noteq> []" using assms(2) by (simp add: requestHost_def)
  have "sort (map (lineOf req) (allNames req)) = map (lineOf req) (sort (allNames req))"
    using sort_map_mono [of "allNames req" "lineOf req"] lineOf_mono [OF assms(4)] by blast
  then show ?thesis
    using canonical_lines [OF assms(1-3)] r by (simp add: buildCanonicalHeaders_def Let_def o_def)
qed

subsection \<open>The same headers in the verifier\<close>

lemma wf_hSet:
  assumes "wf_header h" "list_all token_char k" "CanonicalKey (CanonicalKey k) = CanonicalKey k" "CanonicalKey k \<noteq> ''Host''"
    "list_all token_char (CanonicalKey k)"
  shows "wf_header (hSet k v h)"
proof -
  have "set (hSet k v h) \<subseteq> insert (CanonicalKey k, [v]) (set h)"
    unfolding hSet_def by (induction h) auto
  with assms show ?thesis by (auto simp: wf_header_def dest!: subsetD)
qed

lemma literal_keys [simp]:
  "CanonicalKey ''x-amz-date'' = ''X-Amz-Date''" "CanonicalKey ''X-Amz-Date'' = ''X-Amz-Date''"
  "CanonicalKey ''x-amz-content-sha256'' = ''X-Amz-Content-Sha256''"
  "CanonicalKey ''X-Amz-Content-Sha256'' = ''X-Amz-Content-Sha256''"
  "CanonicalKey ''x-amz-security-token'' = ''X-Amz-Security-Token''"
  "CanonicalKey ''X-Amz-Security-Token'' = ''X-Amz-Security-Token''"
  "CanonicalKey ''Authorization'' = ''Authorization''" "CanonicalKey ''host'' = ''Host''" "CanonicalKey ''Host'' = ''Host''"
  "list_all token_char ''X-Amz-Date''" "list_all token_char ''X-Amz-Content-Sha256''"
  "list_all token_char ''X-Amz-Security-Token''" "list_all token_char ''x-amz-date''"
  "list_all token_char ''x-amz-content-sha256''" "list_all token_char ''x-amz-security-token''"
  "ToLower ''Authorization'' = ''authorization''" "ToLower ''host'' = ''host''" "TrimSpace ''host'' = ''host''"
  by code_simp+

lemma wf_hSet_literal:
  assumes "wf_header h"
  shows "wf_header (hSet ''x-amz-date'' v h)" "wf_header (hSet ''x-amz-content-sha256'' v h)"
    "wf_header (hSet ''x-amz-security-token'' v h)"
  by (rule wf_hSet [OF assms]; code_simp)+

lemma prepareHeaders_wf:
  assumes "wf_header h" "prepareHeaders s now p h = (p', h')"
  shows "wf_header h' \<and> hGet h' ''X-Amz-Content-Sha256'' = p'"
proof -
  have "wf_header (if b then hSet ''x-amz-date'' d h else h)" for b d
    using wf_hSet_literal(1) [OF assms(1)] assms(1) by simp
  then have "wf_header h'"
    using assms(2) by (auto simp: prepareHeaders_def Let_def intro!: wf_hSet_literal(2,3))
  moreover have "hGet h' ''X-Amz-Content-Sha256'' = p'"
    using assms(2) by (auto simp: prepareHeaders_def Let_def)
  ultimately show ?thesis by simp
qed

lemma verifier_line:
  assumes "wf_header (qHeader req)" "n \<in> set (allNames req)" "qHost req \<noteq> []"
    "qHost r = qHost req" "\<And>m. m \<in> set (allNames req) \<Longrightarrow> hGet (qHeader r) m = hGet (qHeader req) m"
    "hGet (qHeader r) ''host'' = []"
  shows "canonicalHeaderLine r n = lineOf req n @ newline"
proof (cases "n = ''host''")
  case True
  then show ?thesis using assms(3,4,6)
    by (simp add: canonicalHeaderLine_def headerValueFor_def lineOf_def headerLine_def)
next
  case False
  then have "n \<in> set (signedNames (qHeader req))" using assms(2) by (simp add: allNames_def)
  then obtain k vs where k: "(k, vs) \<in> set (qHeader req)" "n = ToLower k" by (rule signedNames_entry)
  then have t: "list_all token_char k" using assms(1) by (auto simp: wf_header_def)
  have "ToLower (TrimSpace n) = n" using token_facts(4) [OF t] k(2) by simp
  with False assms(2,5) show ?thesis
    by (simp add: canonicalHeaderLine_def headerValueFor_def lineOf_def headerLine_def)
qed

lemma signed_tokens:
  assumes "wf_header (qHeader req)" "n \<in> set (allNames req)"
  shows "CHR '';'' \<notin> set n \<and> CHR '','' \<notin> set n \<and> (\<forall>c \<in> set n. \<not> is_space c)"
proof (cases "n = ''host''")
  case True
  have "CHR '';'' \<notin> set ''host'' \<and> CHR '','' \<notin> set ''host'' \<and> (\<forall>c \<in> set ''host''. \<not> is_space c)" by code_simp
  with True show ?thesis by simp
next
  case False
  then have "n \<in> set (signedNames (qHeader req))" using assms(2) by (simp add: allNames_def)
  then obtain k vs where k: "(k, vs) \<in> set (qHeader req)" "n = ToLower k" by (rule signedNames_entry)
  then have "list_all token_char k" using assms(1) by (auto simp: wf_header_def)
  from token_facts [OF this] k(2) show ?thesis by auto
qed

lemma verifier_headers:
  assumes "wf_header (qHeader req)" "qHost req \<noteq> []" "TrimSpace (qHost req) = qHost req" "unextended (allNames req)"
    "qHost r = qHost req" "\<And>m. m \<in> set (allNames req) \<Longrightarrow> hGet (qHeader r) m = hGet (qHeader req) m"
    "hGet (qHeader r) ''host'' = []"
  shows "concat (map (canonicalHeaderLine r) (Split (getSignedHeaders req) '';'')) = buildCanonicalHeaders req"
proof -
  have "getSignedHeaders req = Join (sort (allNames req)) '';''"
    using assms(2) by (simp add: getSignedHeaders_def requestHost_def allNames_def)
  moreover have "sort (allNames req) \<noteq> []" by (metis allNames_def list.distinct(1) length_0_conv length_sort)
  then have "Split (Join (sort (allNames req)) '';'') '';'' = sort (allNames req)"
    using signed_tokens [OF assms(1)] by (intro Split_Join) auto
  moreover have "map (canonicalHeaderLine r) (sort (allNames req)) = map (\<lambda>n. lineOf req n @ newline) (sort (allNames req))"
    by (rule map_cong [OF refl]) (use verifier_line [OF assms(1) _ assms(2,5-7)] in simp)
  ultimately show ?thesis using buildCanonicalHeaders_lines [OF assms(1-4)] by (simp only:)
qed

subsection \<open>Reading the Authorization header back\<close>

text \<open>Text without separators: access keys, regions.\<close>

definition plain_id :: "string \<Rightarrow> bool" where
  "plain_id s \<longleftrightarrow> s \<noteq> [] \<and> (\<forall>c \<in> set s. c \<notin> set ''/,='' \<and> \<not> is_space c)"

lemma is_space_space [simp]: "is_space CHR '' ''"
  by (simp add: is_space_def)

lemma no_space_in: "\<forall>c \<in> set s. \<not> is_space c \<Longrightarrow> CHR '' '' \<notin> set s"
  using is_space_space by blast

lemma TrimSpace_Cons_space: "TrimSpace (CHR '' '' # s) = TrimSpace s"
  by (simp add: TrimSpace_def)

definition authHeaderText :: "string \<Rightarrow> string \<Rightarrow> string \<Rightarrow> string" where
  "authHeaderText cred sh sig =
     ''AWS4-HMAC-SHA256 Credential='' @ cred @ '', SignedHeaders='' @ sh @ '', Signature='' @ sig"

lemma hd_Split_prefix: "c \<notin> set p \<Longrightarrow> hd (Split (p @ c # t) [c]) = p"
  by (simp add: Split_byte_append)

lemma parseAuthHeader_text:
  assumes "ak \<noteq> []" "CHR ''/'' \<notin> set ak" "sh \<noteq> []" "sig \<noteq> []"
    "\<forall>c \<in> set (ak @ scope @ sh @ sig). c \<noteq> CHR '','' \<and> \<not> is_space c"
  shows "parseAuthHeader (authHeaderText (ak @ ''/'' @ scope) sh sig) = Inr (ak, sh, sig)"
proof -
  define p1 where "p1 = ''Credential='' @ ak @ ''/'' @ scope"
  define p2 where "p2 = ''SignedHeaders='' @ sh"
  define p3 where "p3 = ''Signature='' @ sig"
  have lit: "CHR '','' \<notin> set ''Credential=/SignedHeaders=Signature= '' \<and>
      (\<forall>c \<in> set ''Credential=/SignedHeaders=Signature=''. \<not> is_space c)" by code_simp
  have sp: "\<forall>c \<in> set p1. \<not> is_space c" "\<forall>c \<in> set p2. \<not> is_space c" "\<forall>c \<in> set p3. \<not> is_space c"
    using lit assms(5) by (auto simp: p1_def p2_def p3_def)
  have cm: "CHR '','' \<notin> set p1" "CHR '','' \<notin> set p2" "CHR '','' \<notin> set p3"
    using assms(5) by (auto simp: p1_def p2_def p3_def)
  have "authHeaderText (ak @ ''/'' @ scope) sh sig =
      ''AWS4-HMAC-SHA256'' @ CHR '' '' # (p1 @ CHR '','' # CHR '' '' # p2 @ CHR '','' # CHR '' '' # p3)"
    by (simp add: authHeaderText_def p1_def p2_def p3_def)
  moreover have "CHR '' '' \<notin> set ''AWS4-HMAC-SHA256''" by code_simp
  ultimately have n: "SplitN2 (authHeaderText (ak @ ''/'' @ scope) sh sig) '' '' =
      [''AWS4-HMAC-SHA256'', p1 @ CHR '','' # CHR '' '' # p2 @ CHR '','' # CHR '' '' # p3]"
    using SplitN2_byte_append by metis
  have "Split (p1 @ CHR '','' # (CHR '' '' # p2) @ CHR '','' # CHR '' '' # p3) '','' = [p1, CHR '' '' # p2, CHR '' '' # p3]"
    using cm by (subst Split_byte_append, simp, subst Split_byte_append, simp, subst Split_byte_none) auto
  then have s: "Split (p1 @ CHR '','' # CHR '' '' # p2 @ CHR '','' # CHR '' '' # p3) '','' = [p1, CHR '' '' # p2, CHR '' '' # p3]"
    by simp
  have t: "TrimSpace p1 = p1" "TrimSpace (CHR '' '' # p2) = p2" "TrimSpace (CHR '' '' # p3) = p3"
    using sp unfolding TrimSpace_Cons_space by (auto intro!: TrimSpace_id)
  have c: "parseParam p1 acc = (ak, snd acc)" for acc
    unfolding parseParam_def t Let_def using assms(2)
    by (simp add: p1_def split: prod.splits) (metis TrimPrefix_append append_Cons append_Nil hd_Split_prefix)
  have h: "parseParam (CHR '' '' # p2) (a, b, d) = (a, sh, d)" for a b d
    unfolding parseParam_def t Let_def by (simp add: p2_def) (metis TrimPrefix_append append_Cons append_Nil)
  have g: "parseParam (CHR '' '' # p3) (a, b, d) = (a, b, sig)" for a b d
    unfolding parseParam_def t Let_def by (simp add: p3_def) (metis TrimPrefix_append append_Cons append_Nil)
  show ?thesis
    unfolding parseAuthHeader_def n using assms(1,3,4) by (simp add: s c h g)
qed

text \<open>A separator that cannot start before a comma leaves the text before the comma whole.\<close>

lemma Split_first_piece:
  assumes "sep \<noteq> []" "CHR '','' \<notin> set sep" "\<not> Contains p sep" "CHR '','' \<notin> set p"
  shows "hd (Split (Split (p @ CHR '','' # t) sep ! 0) '','') = p"
proof (cases "strIndex (p @ CHR '','' # t) sep")
  case None
  then have "Split (p @ CHR '','' # t) sep ! 0 = p @ CHR '','' # t"
    using assms(1) by (subst Split.simps) simp
  with assms(4) show ?thesis by (simp add: Split_byte_append)
next
  case (Some i)
  let ?s = "p @ CHR '','' # t"
  have d: "?s = take i ?s @ sep @ drop (i + length sep) ?s" "i + length sep \<le> length ?s"
    using strIndex_Some [OF Some] by blast+
  have "length p < i"
  proof (rule ccontr)
    assume a: "\<not> length p < i"
    define u where "u = drop i p"
    have p: "p = take i p @ u" by (simp add: u_def)
    have "take i ?s = take i p" using a by simp
    with d(1) have "take i p @ (u @ CHR '','' # t) = take i p @ (sep @ drop (i + length sep) ?s)"
      using p by (metis append.assoc)
    then have "u @ CHR '','' # t = sep @ drop (i + length sep) ?s" by (simp only: same_append_eq)
    then obtain ws where "u = sep @ ws \<or> u @ ws = sep \<and> CHR '','' # t = ws @ drop (i + length sep) ?s"
      by (auto simp only: append_eq_append_conv2)
    then show False
    proof
      assume "u = sep @ ws"
      with p assms(3) show False unfolding Contains_iff by metis
    next
      assume w: "u @ ws = sep \<and> CHR '','' # t = ws @ drop (i + length sep) ?s"
      show False
      proof (cases ws)
        case Nil
        with w p assms(3) show False unfolding Contains_iff by (metis append_Nil2)
      next
        case (Cons c cs)
        with w have "CHR '','' \<in> set sep" by auto
        with assms(2) show False by simp
      qed
    qed
  qed
  then have "Split ?s sep ! 0 = p @ CHR '','' # take (i - length p - 1) t"
    using assms(1) Some by (subst Split.simps) (simp add: take_Cons')
  with assms(4) show ?thesis by (simp add: Split_byte_append)
qed

lemma Split_skip: "sep \<noteq> [] \<Longrightarrow> strIndex (a @ sep @ x) sep = Some (length a) \<Longrightarrow> Split (a @ sep @ x) sep = a # Split x sep"
  by (subst Split.simps) simp

lemma credentialRegion_text:
  assumes "plain_id ak" "plain_id rg" "\<forall>c \<in> set date. c \<notin> set ''/,=''"
  shows "credentialRegion def (authHeaderText (ak @ ''/'' @ credentialScope date rg) sh sig) = rg"
proof -
  define cred where "cred = ak @ ''/'' @ credentialScope date rg"
  have lit: "CHR '','' \<notin> set ''/s3/aws4_request'' \<and> CHR ''='' \<notin> set ''/s3/aws4_request''" by code_simp
  have parts: "c \<notin> set ak \<and> c \<notin> set date \<and> c \<notin> set rg" if "c \<in> set ''/,=''" for c
    using assms that unfolding plain_id_def by blast
  have "CHR '','' \<in> set ''/,='' \<and> CHR ''='' \<in> set ''/,='' \<and> CHR ''/'' \<in> set ''/,=''" by code_simp
  with parts have pp: "CHR '','' \<notin> set ak \<and> CHR '','' \<notin> set date \<and> CHR '','' \<notin> set rg"
    "CHR ''='' \<notin> set ak \<and> CHR ''='' \<notin> set date \<and> CHR ''='' \<notin> set rg"
    "CHR ''/'' \<notin> set ak \<and> CHR ''/'' \<notin> set date \<and> CHR ''/'' \<notin> set rg" by blast+
  have nc: "CHR '','' \<notin> set cred" "CHR ''='' \<notin> set cred"
    using pp by (simp_all add: cred_def credentialScope_def)
  let ?t = "cred @ CHR '','' # ('' SignedHeaders='' @ sh @ '', Signature='' @ sig)"
  have a: "authHeaderText cred sh sig = ''AWS4-HMAC-SHA256 '' @ ''Credential='' @ ?t"
    by (simp add: authHeaderText_def)
  have i: "strIndex (''AWS4-HMAC-SHA256 '' @ ''Credential='' @ x) ''Credential='' = Some (length ''AWS4-HMAC-SHA256 '')" for x
    by (simp only: append.simps strIndex.simps HasPrefix_Cons char.inject simp_thms if_False if_True HasPrefix_Nil
        option.map list.size) simp
  have "Split (''AWS4-HMAC-SHA256 '' @ ''Credential='' @ x) ''Credential='' ! 1 = Split x ''Credential='' ! 0" for x
    by (subst Split_skip [OF _ i]) (simp_all only: nth_Cons_Suc One_nat_def list.distinct not_False_eq_True)
  moreover have "hd (Split (Split ?t ''Credential='' ! 0) '','') = cred"
  proof (rule Split_first_piece)
    show "\<not> Contains cred ''Credential=''" using nc(2) by (auto simp: Contains_iff)
  qed (use nc in simp_all)
  ultimately have r1: "hd (Split (Split (authHeaderText cred sh sig) ''Credential='' ! 1) '','') = cred"
    unfolding a by metis
  have r2: "Contains (authHeaderText cred sh sig) ''Credential=''" unfolding a Contains_iff by blast
  have r3: "Split cred ''/'' = [ak, date, rg, ''s3'', ''aws4_request'']"
  proof -
    have "cred = ak @ CHR ''/'' # date @ CHR ''/'' # rg @ CHR ''/'' # ''s3'' @ CHR ''/'' # ''aws4_request''"
      by (simp add: cred_def credentialScope_def)
    with pp(3) show ?thesis by (simp add: Split_byte split_byte_append split_byte_none)
  qed
  show ?thesis unfolding credentialRegion_def Let_def cred_def [symmetric] r1 r3 using r2 by simp
qed

subsection \<open>What the signer signs, the verifier accepts\<close>

text \<open>The query is written in the canonical form of both.\<close>

definition canonical_query :: "request \<Rightarrow> bool" where
  "canonical_query r \<longleftrightarrow>
     (if uRawQuery (qURL r) \<noteq> [] then buildCanonicalQueryString (uRawQuery (qURL r)) else []) =
     encodeQueryStringRFC3986 (AList.delete ''X-Amz-Signature'' (qQuery r))"

lemma set_Join: "set (Join ss sep) \<subseteq> \<Union> (set ` set ss) \<union> set sep"
  by (induction ss sep rule: Join.induct) auto

lemma date_plain:
  assumes "parse_amz s = Some t" "c \<in> set (take 8 s)"
  shows "c \<notin> set ''/,='' \<and> \<not> is_space c"
proof -
  have "is_digit c"
  proof -
    have "list_all is_digit (take 4 s)" "list_all is_digit (take 2 (drop 4 s))" "list_all is_digit (take 2 (drop 6 s))"
      using assms(1) by (auto simp: parse_amz_def digits_value_def split: option.splits if_splits)
    moreover have "take 8 s = take 4 s @ take 2 (drop 4 s) @ take 2 (drop 6 s)"
    proof -
      have "take 8 s = take (4 + (2 + 2)) s" by simp
      also have "\<dots> = take 4 s @ take 2 (drop 4 s) @ take 2 (drop 6 s)"
        by (simp only: take_add drop_drop) simp
      finally show ?thesis .
    qed
    ultimately show ?thesis using assms(2) by (auto simp: list_all_iff)
  qed
  moreover have "\<forall>n \<in> set [48..<58]. char_of n \<notin> set ''/,='' \<and> \<not> is_space (char_of n)" by code_simp
  ultimately show ?thesis
    by (intro char_range [of 48 58 "\<lambda>c. c \<notin> set ''/,='' \<and> \<not> is_space c"]) (auto simp: is_digit_def less_eq_char_def less_char_def)
qed

lemma signed_headers_plain:
  assumes "wf_header (qHeader req)" "qHost req \<noteq> []"
  shows "getSignedHeaders req \<noteq> [] \<and> (\<forall>c \<in> set (getSignedHeaders req). c \<noteq> CHR '','' \<and> \<not> is_space c)"
proof -
  have g: "getSignedHeaders req = Join (sort (allNames req)) '';''"
    using assms(2) by (simp add: getSignedHeaders_def requestHost_def allNames_def)
  have ne: "Join ss sep = [] \<Longrightarrow> n \<in> set ss \<Longrightarrow> n = []" for ss sep and n :: string
    by (induction ss sep rule: Join.induct) auto
  have "''host'' \<in> set (sort (allNames req))" unfolding set_sort by (simp add: allNames_def)
  with ne have "getSignedHeaders req \<noteq> []" unfolding g by blast
  moreover have "c \<noteq> CHR '','' \<and> \<not> is_space c" if "c \<in> set (getSignedHeaders req)" for c
  proof (cases "c = CHR '';''")
    case True
    have "CHR '';'' \<noteq> CHR '','' \<and> \<not> is_space CHR '';''" by code_simp
    with True show ?thesis by simp
  next
    case False
    with that set_Join [of "sort (allNames req)" "'';''"] obtain n where "n \<in> set (allNames req)" "c \<in> set n"
      unfolding g by auto
    with signed_tokens [OF assms(1)] show ?thesis by blast
  qed
  ultimately show ?thesis by blast
qed

text \<open>The canonical request of a signed request, as the verifier sees it.\<close>

lemma canonical_agree:
  assumes "wf_header (qHeader req)" "qHost req \<noteq> []" "TrimSpace (qHost req) = qHost req" "unextended (allNames req)"
    "canonical_query req" "qMethod r = qMethod req" "qURL r = qURL req" "qHost r = qHost req"
    "\<And>m. m \<in> set (allNames req) \<Longrightarrow> hGet (qHeader r) m = hGet (qHeader req) m" "hGet (qHeader r) ''host'' = []"
  shows "createCanonicalRequest r (getSignedHeaders req) p = buildCanonicalRequest req p"
  using verifier_headers [OF assms(1-4,8-10)] assms(5-7)
  by (simp add: createCanonicalRequest_def buildCanonicalRequest_def Let_def canonical_query_def qQuery_def)

lemma signed_accepted:
  assumes "SignRequest (NewS3Signer creds rg) now0 req hash = Some r"
    "wf_header (qHeader req)" "qHost req \<noteq> []" "TrimSpace (qHost req) = qHost req"
    "unextended (''host'' # signedNames (snd (prepareHeaders (NewS3Signer creds rg) now0 hash (qHeader req))))"
    "plain_id (awsAccessKeyID creds)" "plain_id rg" "canonical_query req"
    "vGetSecret v (awsAccessKeyID creds) = Inr (awsSecretAccessKey creds)"
    "parse_amz (hGet (qHeader r) ''X-Amz-Date'') = Some ts" "\<not> tooSkewed v now ts"
  shows "\<exists>ctx r'. VerifyRequest v now r = (Some (ctx, None), r') \<and>
    acAccessKeyID ctx = awsAccessKeyID creds \<and> acIsAuthenticated ctx"
proof -
  let ?s = "NewS3Signer creds rg"
  let ?ak = "awsAccessKeyID creds"
  obtain p h where ph: "prepareHeaders ?s now0 hash (qHeader req) = (p, h)" by (cases "prepareHeaders ?s now0 hash (qHeader req)")
  note wfp = prepareHeaders_wf [OF assms(2) ph]
  define req1 where "req1 = req\<lparr>qHeader := h\<rparr>"
  define amzDate where "amzDate = hGet h ''x-amz-date''"
  define date where "date = take 8 amzDate"
  define sh where "sh = getSignedHeaders req1"
  define sts where "sts = ''AWS4-HMAC-SHA256'' @ newline @ amzDate @ newline @ credentialScope date rg @ newline @
    EncodeToString (Sum256 (buildCanonicalRequest req1 p))"
  define sig where "sig = EncodeToString (hmacSHA256 (signingKeyOf (awsSecretAccessKey creds) date rg) sts)"
  define auth where "auth = authHeaderText (?ak @ ''/'' @ credentialScope date rg) sh sig"
  have "SignRequest ?s now0 req hash =
      (if length amzDate < 8 then None else Some (req1\<lparr>qHeader := hSet ''Authorization'' auth h\<rparr>))"
    unfolding SignRequest_def ph
    unfolding Let_def prod.case NewS3Signer_def s3_signer.simps auth_def authHeaderText_def sig_def
      sts_def date_def amzDate_def sh_def req1_def
    by (simp only: append.assoc)
  then have len: "\<not> length amzDate < 8" and r: "r = req1\<lparr>qHeader := hSet ''Authorization'' auth h\<rparr>"
    using assms(1) by (simp_all only: split: if_splits) simp_all
  have "canonical_query req1 = canonical_query req" by (simp add: req1_def canonical_query_def qQuery_def)
  then have hd1: "wf_header (qHeader req1)" "qHost req1 \<noteq> []" "TrimSpace (qHost req1) = qHost req1"
    "unextended (allNames req1)" "canonical_query req1"
    using wfp assms(3-5,8) by (simp_all add: req1_def allNames_def ph)
  have dates: "hGet (qHeader r) ''X-Amz-Date'' = amzDate" "hGet (qHeader r) ''Authorization'' = auth"
    "hGet (qHeader r) ''X-Amz-Content-Sha256'' = p"
    using wfp by (simp_all add: r amzDate_def hGet_def hValues_def hSet_def)
  have nohost: "hGet h ''host'' = []"
  proof -
    have "map_of h ''Host'' = None" using wfp by (auto simp: wf_header_def map_of_eq_None_iff)
    then show ?thesis by (simp add: hGet_def hValues_def)
  qed
  note sp = signed_headers_plain [OF hd1(1,2), folded sh_def]
  have scope: "c \<noteq> CHR '','' \<and> \<not> is_space c" if "c \<in> set (credentialScope date rg)" for c
  proof -
    have "\<forall>c \<in> set ''/s3/aws4_request''. c \<noteq> CHR '','' \<and> \<not> is_space c" by code_simp
    moreover have "c \<in> set date \<or> c \<in> set rg \<or> c \<in> set ''/s3/aws4_request''"
      using that by (auto simp: credentialScope_def)
    ultimately show ?thesis
      using date_plain [OF assms(10), unfolded dates, folded date_def] assms(7) unfolding plain_id_def by auto
  qed
  have parsed: "parseAuthHeader auth = Inr (?ak, sh, sig)"
    unfolding auth_def
  proof (rule parseAuthHeader_text)
    show "?ak \<noteq> []" "CHR ''/'' \<notin> set ?ak" using assms(6) by (auto simp: plain_id_def)
    show "sh \<noteq> []" using sp by blast
    have "length sig = 64" by (simp add: sig_def)
    then show "sig \<noteq> []" by auto
    show "\<forall>c \<in> set (?ak @ credentialScope date rg @ sh @ sig). c \<noteq> CHR '','' \<and> \<not> is_space c"
      using scope sp hex_plain assms(6) unfolding sig_def plain_id_def by auto
  qed
  have region: "credentialRegion d auth = rg" for d
    unfolding auth_def using assms(6,7) date_plain [OF assms(10), unfolded dates, folded date_def]
    by (intro credentialRegion_text) auto
  define r2 where "r2 = r\<lparr>qHeader := hSet ''X-Amz-Content-Sha256'' p (qHeader r)\<rparr>"
  have keep: "hGet (qHeader r2) m = hGet (qHeader req1) m" if m: "m \<in> set (allNames req1)" for m
  proof (cases "m = ''host''")
    case True
    then show ?thesis by (simp add: r2_def r req1_def)
  next
    case False
    then have sm: "m \<in> set (signedNames (qHeader req1))" using m by (simp add: allNames_def)
    then obtain k vs where k: "(k, vs) \<in> set (qHeader req1)" "m = ToLower k" "shouldSignHeader m" by (rule signedNames_entry)
    then have "CanonicalKey m = k" using hd1(1) by (auto simp: wf_header_def CanonicalKey_ToLower)
    moreover have "k \<noteq> ''Authorization''" using k by (auto simp: shouldSignHeader_def)
    ultimately have "hGet (qHeader r2) m = (if ''X-Amz-Content-Sha256'' = k then p else hGet h m)"
      by (auto simp: r2_def r)
    moreover have "hGet h m = hGet h ''X-Amz-Content-Sha256''" if "''X-Amz-Content-Sha256'' = k"
      using \<open>CanonicalKey m = k\<close> unfolding hGet_def hValues_def that [symmetric] by (simp only: literal_keys)
    ultimately show ?thesis using wfp by (auto simp: req1_def)
  qed
  have canon: "createCanonicalRequest r2 sh p = buildCanonicalRequest req1 p"
    unfolding sh_def
    by (rule canonical_agree [OF hd1]) (use keep nohost in \<open>simp_all add: r2_def r req1_def\<close>)
  have pne: "p \<noteq> []" using ph by (auto simp: prepareHeaders_def Let_def split: if_splits)
  have comp: "computeSignatureWithRegion r (awsSecretAccessKey creds) amzDate sh rg = (Inr sig, r2)"
    using len pne canon unfolding computeSignatureWithRegion_def Let_def dates
    by (simp add: sig_def sts_def date_def credentialScope_def GetSigningKey_def signingKeyOf_def flip: r2_def)
  have "auth \<noteq> []" by (simp add: auth_def authHeaderText_def)
  moreover have "amzDate \<noteq> []" using len by auto
  ultimately show ?thesis
    using parsed region comp assms(9-11)
    by (simp add: VerifyRequest_def verifyHeaderSignature_def dates checkSignature_def)
qed

text \<open>
  C11: a request signed for a backend with some credentials is accepted by the verifier that knows their
  secret, within the allowed clock skew: both sides build the same canonical request, string to sign and
  key.  The conditions: every header has one value, a canonical name and is not \<open>Host\<close>, and the host is
  not empty and not surrounded by blanks; no signed header name extends another; access key and region
  are not empty and free of slashes, commas, equals signs and blanks; the query has a form on which
  both sides agree.
\<close>

theorem signed_request_verifies:
  assumes "SignRequest (NewS3Signer creds rg) now0 req hash = Some r"
    "wf_header (qHeader req)" "qHost req \<noteq> []" "TrimSpace (qHost req) = qHost req"
    "unextended (''host'' # signedNames (snd (prepareHeaders (NewS3Signer creds rg) now0 hash (qHeader req))))"
    "plain_id (awsAccessKeyID creds)" "plain_id rg" "canonical_query req"
    "vGetSecret v (awsAccessKeyID creds) = Inr (awsSecretAccessKey creds)"
    "parse_amz (hGet (qHeader r) ''X-Amz-Date'') = Some ts" "\<not> tooSkewed v now ts"
  shows "\<exists>ctx r'. VerifyRequest v now r = (Some (ctx, None), r') \<and>
    acAccessKeyID ctx = awsAccessKeyID creds \<and> acIsAuthenticated ctx"
  using signed_accepted [OF assms] by blast

definition plain_request :: request where
  "plain_request = sample_request\<lparr>qHeader := [(''X-Amz-Date'', [''20260201T000000Z'']), (''Content-Type'', ['' text/plain''])]\<rparr>"

definition sample_verifier :: verifier where
  "sample_verifier = \<lparr>vGetSecret = memGetSecret [(''AK'', ''sk'')], vTimeOffset = 600 * Second, vDefaultRegion = ''us-east-1''\<rparr>"

lemma sample_signed:
  "\<exists>r ts. SignRequest sample_signer 0 plain_request [] = Some r \<and> parse_amz (hGet (qHeader r) ''X-Amz-Date'') = Some ts"
proof -
  obtain ts where ts: "parse_amz ''20260201T000000Z'' = Some ts"
  proof -
    have "case parse_amz ''20260201T000000Z'' of Some _ \<Rightarrow> True | None \<Rightarrow> False" by code_simp
    then show ?thesis using that by (auto split: option.splits)
  qed
  have d: "hGet (snd (prepareHeaders sample_signer 0 [] (qHeader plain_request))) ''x-amz-date'' = ''20260201T000000Z''"
    unfolding sample_signer_def by code_simp
  then obtain r where r: "SignRequest sample_signer 0 plain_request [] = Some r"
    "hGet (qHeader r) ''X-Amz-Date'' = ''20260201T000000Z''"
    by (simp add: SignRequest_def Let_def split_def hGet_def hValues_def hSet_def)
  with ts show ?thesis by auto
qed

lemma sample_conditions:
  "wf_header (qHeader plain_request) \<and> qHost plain_request \<noteq> [] \<and> TrimSpace (qHost plain_request) = qHost plain_request \<and>
   unextended (''host'' # signedNames (snd (prepareHeaders sample_signer 0 [] (qHeader plain_request)))) \<and>
   plain_id ''AK'' \<and> plain_id ''us-east-1'' \<and> canonical_query plain_request \<and>
   vGetSecret sample_verifier ''AK'' = Inr ''sk''"
  by (intro conjI; code_simp)

lemma sample_skew: "\<not> tooSkewed sample_verifier (ts + Second) ts"
  by (simp add: tooSkewed_iff sample_verifier_def Second_def)

lemma sample_signer_new:
  "sample_signer = NewS3Signer \<lparr>awsAccessKeyID = ''AK'', awsSecretAccessKey = ''sk'', awsSessionToken = []\<rparr> ''us-east-1''"
  by (simp add: sample_signer_def)

theorem signed_request_verifies_witness:
  "\<exists>r ts ctx r'. SignRequest sample_signer 0 plain_request [] = Some r \<and>
     VerifyRequest sample_verifier (ts + Second) r = (Some (ctx, None), r') \<and> acAccessKeyID ctx = ''AK''"
proof -
  obtain r ts where r: "SignRequest sample_signer 0 plain_request [] = Some r"
    "parse_amz (hGet (qHeader r) ''X-Amz-Date'') = Some ts" using sample_signed by blast
  note c = sample_conditions [unfolded sample_signer_new]
  show ?thesis
    using signed_request_verifies [OF r(1) [unfolded sample_signer_new], of sample_verifier ts "ts + Second"]
      c r sample_skew [of ts] by auto
qed

theorem verified_request_witness:
  "\<exists>now r ctx r'. VerifyRequest sample_verifier now r = (Some (ctx, None), r') \<and> acIsAuthenticated ctx"
proof -
  obtain r ts where r: "SignRequest sample_signer 0 plain_request [] = Some r"
    "parse_amz (hGet (qHeader r) ''X-Amz-Date'') = Some ts" using sample_signed by blast
  note c = sample_conditions [unfolded sample_signer_new]
  obtain ctx r' where "VerifyRequest sample_verifier (ts + Second) r = (Some (ctx, None), r')"
    using signed_accepted [OF r(1) [unfolded sample_signer_new], of sample_verifier ts "ts + Second"]
      c r sample_skew [of ts] by auto
  from this verified_request [OF this] show ?thesis by blast
qed

text \<open>
  Where they do not agree: a parameter without a value, as in the query of every multipart
  operation, is \<open>uploads\<close> for the signer and \<open>uploads=\<close> for the verifier.
\<close>

lemma canonical_query_disagrees:
  "buildCanonicalQueryString ''uploads'' = ''uploads'' \<and> encodeQueryStringRFC3986 (Query ''uploads'') = ''uploads=''"
  by code_simp

text \<open>A header with two values is two lines for the signer and one, with the first value, for the verifier.\<close>

lemma multi_valued_headers_disagree:
  "let r = sample_request\<lparr>qHeader := [(''X-Amz-Meta-A'', [''1'', ''2''])]\<rparr> in
   buildCanonicalHeaders r = ''host:h'' @ newline @ ''x-amz-meta-a:1'' @ newline @ ''x-amz-meta-a:2'' @ newline \<and>
   concat (map (canonicalHeaderLine r) (Split (getSignedHeaders r) '';'')) =
     ''host:h'' @ newline @ ''x-amz-meta-a:1'' @ newline"
  by code_simp

end
