(* ===== verification/Cred.thy ===== *)
theory Cred
  imports Config Signer
begin

section \<open>Credentials for backends\<close>

text \<open>
  \<open>internal/backend/cred\<close>: the sources of the credentials a backend is accessed with.  What the
  AWS SDK, the file system and the JSON decoder answer is a record of functions; a missing value of
  the SDK is \<^const>\<open>None\<close>.  A credential set is the record the signer uses.  Contexts and their
  deadlines are part of those answers.
\<close>

record cred_env =
  evLoadConfig :: "string \<Rightarrow> string option"                             \<comment> \<open>error of loading the SDK configuration\<close>
  evDefaultChain :: "string + aws_credentials"
  evAbs :: "string \<Rightarrow> string + string"
  evStat :: "string \<Rightarrow> string + nat"                                  \<comment> \<open>permission bits\<close>
  evReadFile :: "string \<Rightarrow> string + string"
  evUnmarshal :: "string \<Rightarrow> string + aws_credentials"
  evSecretValue :: "string \<Rightarrow> string \<Rightarrow> string + string option \<times> string option"
  evAssumeRole :: "aws_credentials \<Rightarrow> string \<Rightarrow> string \<Rightarrow> string \<Rightarrow> int
     \<Rightarrow> string + (string option \<times> string option \<times> string option) option"

datatype provider =
    DefaultProvider
  | FileProvider string
  | SecretsManagerProvider string string
  | InlineProvider aws_credentials
  | AssumeRoleProvider provider assume_role string

subsection \<open>Making a provider\<close>

definition NewFileProvider :: "string \<Rightarrow> string + provider" where
  "NewFileProvider path = (if path = [] then Inl ''file path is required'' else Inr (FileProvider path))"

definition NewSecretsManagerProvider :: "cred_env \<Rightarrow> string \<Rightarrow> string \<Rightarrow> string + provider" where
  "NewSecretsManagerProvider env secretName region =
     (if secretName = [] then Inl ''secret_name is required''
      else case evLoadConfig env region of
        Some e \<Rightarrow> Inl (''failed to load AWS config for secrets manager: '' @ e)
      | None \<Rightarrow> Inr (SecretsManagerProvider secretName region))"

definition NewInlineProvider :: "string \<Rightarrow> string \<Rightarrow> string \<Rightarrow> provider" where
  "NewInlineProvider accessKeyID secretAccessKey sessionToken =
     InlineProvider \<lparr>awsAccessKeyID = accessKeyID, awsSecretAccessKey = secretAccessKey, awsSessionToken = sessionToken\<rparr>"

definition regionOrDefault :: "string \<Rightarrow> string" where
  "regionOrDefault region = (if region = [] then ''us-east-1'' else region)"

definition baseProvider :: "cred_env \<Rightarrow> credentials_config \<Rightarrow> string + provider" where
  "baseProvider env cfg =
     (if cType cfg = ''default'' \<or> cType cfg = [] then Inr DefaultProvider
      else if cType cfg = ''file'' then
        (if cPath cfg = [] then Inl ''file credential source requires 'path' field'' else NewFileProvider (cPath cfg))
      else if cType cfg = ''aws-secrets-manager'' then
        (if cSecretName cfg = [] then Inl ''aws-secrets-manager credential source requires 'secret_name' field''
         else NewSecretsManagerProvider env (cSecretName cfg) (regionOrDefault (cRegion cfg)))
      else if cType cfg = ''inline'' then
        Inr (NewInlineProvider (cAccessKeyID cfg) (cSecretAccessKey cfg) (cSessionToken cfg))
      else Inl (''unknown credential source type: '' @ cType cfg))"

definition NewProvider :: "cred_env \<Rightarrow> credentials_config option \<Rightarrow> string + provider" where
  "NewProvider env cfg =
     (case cfg of
        None \<Rightarrow> Inr DefaultProvider
      | Some c \<Rightarrow>
          rbind (baseProvider env c) (\<lambda>base.
            case cAssumeRole c of
              Some role \<Rightarrow>
                (if RoleARN role \<noteq> [] then Inr (AssumeRoleProvider base role (regionOrDefault (cRegion c))) else Inr base)
            | None \<Rightarrow> Inr base))"

subsection \<open>Getting credentials\<close>

text \<open>The checks that reading a JSON document ends with.\<close>

definition parseCredentialFile :: "cred_env \<Rightarrow> string \<Rightarrow> string + aws_credentials" where
  "parseCredentialFile env text =
     (case evUnmarshal env text of
        Inl e \<Rightarrow> Inl (''invalid JSON format: '' @ e)
      | Inr c \<Rightarrow>
          (if awsAccessKeyID c = [] then Inl ''access_key_id is required in credentials file''
           else if awsSecretAccessKey c = [] then Inl ''secret_access_key is required in credentials file''
           else Inr c))"

text \<open>A file others can read gives a warning, which is not modelled.\<close>

definition readAndValidateCredentialFile :: "cred_env \<Rightarrow> string \<Rightarrow> string + string" where
  "readAndValidateCredentialFile env path =
     (case evAbs env path of
        Inl e \<Rightarrow> Inl (''invalid file path: '' @ e)
      | Inr absPath \<Rightarrow>
          (case evStat env absPath of
             Inl e \<Rightarrow> Inl (''credential file not accessible: '' @ e)
           | Inr _ \<Rightarrow> rmap_err (\<lambda>e. ''failed to read credential file: '' @ e) (evReadFile env absPath)))"

definition fileGet :: "cred_env \<Rightarrow> string \<Rightarrow> string + aws_credentials" where
  "fileGet env path =
     rbind (readAndValidateCredentialFile env path) (\<lambda>text.
       rmap_err (\<lambda>e. ''failed to parse credential file: '' @ e) (parseCredentialFile env text))"

definition secretsGet :: "cred_env \<Rightarrow> string \<Rightarrow> string \<Rightarrow> string + aws_credentials" where
  "secretsGet env secretName region =
     (case evSecretValue env secretName region of
        Inl e \<Rightarrow> Inl (''failed to retrieve secret from AWS Secrets Manager: '' @ e)
      | Inr (secretString, secretBinary) \<Rightarrow>
          (case (case secretString of Some s \<Rightarrow> Some s | None \<Rightarrow> secretBinary) of
             None \<Rightarrow> Inl ''secret has no string or binary value''
           | Some s \<Rightarrow>
               (case evUnmarshal env s of
                  Inl e \<Rightarrow> Inl (''failed to parse secret as JSON: '' @ e)
                | Inr c \<Rightarrow>
                    (if awsAccessKeyID c = [] then Inl ''secret missing 'access_key_id' field''
                     else if awsSecretAccessKey c = [] then Inl ''secret missing 'secret_access_key' field''
                     else Inr c))))"

definition inlineGet :: "aws_credentials \<Rightarrow> string + aws_credentials" where
  "inlineGet c =
     (if awsAccessKeyID c = [] then Inl ''inline credentials: access_key_id is required''
      else if awsSecretAccessKey c = [] then Inl ''inline credentials: secret_access_key is required''
      else Inr c)"

text \<open>\<open>int32(roleConfig.Duration)\<close>: the nanoseconds, cut to 32 bits.\<close>

definition durationSeconds :: "int \<Rightarrow> int" where
  "durationSeconds d = (let n = sint (word_of_int d :: 32 word) in if n = 0 then 3600 else n)"

definition emptyOr :: "string option \<Rightarrow> string" where
  "emptyOr s = (case s of Some x \<Rightarrow> x | None \<Rightarrow> [])"

definition AssumeRole :: "cred_env \<Rightarrow> string + aws_credentials \<Rightarrow> assume_role \<Rightarrow> string \<Rightarrow> string + aws_credentials" where
  "AssumeRole env base role region =
     (if RoleARN role = [] then Inl ''assume_role is nil or role_arn is empty''
      else case base of
        Inl e \<Rightarrow> Inl (''failed to retrieve base credentials for role assumption: '' @ e)
      | Inr b \<Rightarrow>
          (let sessionName = (if SessionName role = [] then ''s3-router'' else SessionName role) in
           case evAssumeRole env b region (RoleARN role) sessionName (durationSeconds (aDuration role)) of
             Inl e \<Rightarrow> Inl (''failed to assume role '' @ RoleARN role @ '': '' @ e)
           | Inr None \<Rightarrow> Inl ''assumed role returned nil credentials''
           | Inr (Some (k, s, t)) \<Rightarrow>
               Inr \<lparr>awsAccessKeyID = emptyOr k, awsSecretAccessKey = emptyOr s, awsSessionToken = emptyOr t\<rparr>))"

primrec getCredentials :: "cred_env \<Rightarrow> provider \<Rightarrow> string + aws_credentials" where
  "getCredentials env DefaultProvider =
     rmap_err (\<lambda>e. ''failed to retrieve credentials from AWS SDK default chain: '' @ e) (evDefaultChain env)"
| "getCredentials env (FileProvider path) = fileGet env path"
| "getCredentials env (SecretsManagerProvider name region) = secretsGet env name region"
| "getCredentials env (InlineProvider c) = inlineGet c"
| "getCredentials env (AssumeRoleProvider base role region) =
     AssumeRole env (getCredentials env base) role region"

subsection \<open>Properties\<close>

lemma parsed_complete:
  "parseCredentialFile env t = Inr cs \<Longrightarrow> awsAccessKeyID cs \<noteq> [] \<and> awsSecretAccessKey cs \<noteq> []"
  by (auto simp: parseCredentialFile_def split: sum.split_asm if_split_asm)

lemma secret_complete:
  "secretsGet env x y = Inr cs \<Longrightarrow> awsAccessKeyID cs \<noteq> [] \<and> awsSecretAccessKey cs \<noteq> []"
  by (auto simp: secretsGet_def split: sum.split_asm if_split_asm option.split_asm)

lemma base_credentials_complete:
  assumes "baseProvider env c = Inr p" "cType c \<in> {''file'', ''aws-secrets-manager'', ''inline''}"
    "getCredentials env p = Inr cs"
  shows "awsAccessKeyID cs \<noteq> [] \<and> awsSecretAccessKey cs \<noteq> []"
proof -
  have "fileGet env x = Inr cs \<Longrightarrow> awsAccessKeyID cs \<noteq> [] \<and> awsSecretAccessKey cs \<noteq> []" for x
    using parsed_complete by (auto simp: fileGet_def)
  moreover note secret_complete [of env _ _ cs]
  moreover have "inlineGet x = Inr cs \<Longrightarrow> awsAccessKeyID cs \<noteq> [] \<and> awsSecretAccessKey cs \<noteq> []" for x
    by (auto simp: inlineGet_def split: if_splits)
  ultimately show ?thesis using assms
    by (auto simp: baseProvider_def NewFileProvider_def NewSecretsManagerProvider_def NewInlineProvider_def
        split: if_splits option.splits)
qed

lemma valid_credentials_provider:
  assumes "valid_credentials c" "evLoadConfig env (regionOrDefault (cRegion c)) = None"
  shows "\<exists>p. NewProvider env (Some c) = Inr p"
proof -
  obtain p where "baseProvider env c = Inr p"
    using assms by (auto simp: valid_credentials_def baseProvider_def NewFileProvider_def NewSecretsManagerProvider_def)
  then show ?thesis by (auto simp: NewProvider_def split: option.split)
qed

lemma byType_fields:
  "let c = fst (credentialsByType loc src errs) in cType c = iType src \<and> cAssumeRole c = None \<and>
     (iType src = ''file'' \<longrightarrow> cPath c = iCredPath src) \<and>
     (iType src = ''aws-secrets-manager'' \<longrightarrow> cSecretName c = iSecretName src)"
  by (simp add: credentialsByType_def Let_def emptyCredentials_def)

text \<open>
  C30: a credentials section that the configuration accepts always gives a provider, whether or not it
  names a role, as long as the SDK's own configuration loads: a provider of its type, wrapped in one that
  assumes the role when the section names a role with an ARN.  Every set of credentials obtained from the
  provider of its type has an access key and a secret.
\<close>

theorem accepted_credentials_provide:
  assumes "populateCredentialsConfigFromIR loc src errs = (c, errs)"
    "evLoadConfig env (regionOrDefault (cRegion c)) = None"
  shows "\<exists>base. baseProvider env c = Inr base \<and>
    NewProvider env (Some c) =
      Inr (case cAssumeRole c of
             Some role \<Rightarrow> if RoleARN role = [] then base else AssumeRoleProvider base role (regionOrDefault (cRegion c))
           | None \<Rightarrow> base) \<and>
    (cAssumeRole c = None \<longleftrightarrow> iAssumeRole src = None) \<and>
    (\<forall>cs. getCredentials env base = Inr cs \<longrightarrow> awsAccessKeyID cs \<noteq> [] \<and> awsSecretAccessKey cs \<noteq> [])"
proof -
  obtain c0 e0 where c0: "credentialsByType loc src errs = (c0, e0)" by fastforce
  have "length errs \<le> length e0" "length e0 \<le> length errs"
    using byType_le [of errs loc src] credentials_le [of loc src errs] c0 assms(1) by simp_all
  then have "valid_credentials c0" using byType_valid [of loc src errs] c0 by simp
  have same: "cType c = cType c0" "cPath c = cPath c0" "cSecretName c = cSecretName c0" "cRegion c = cRegion c0"
    "cAccessKeyID c = cAccessKeyID c0" "cSecretAccessKey c = cSecretAccessKey c0" "cSessionToken c = cSessionToken c0"
    using assms(1) c0 by (auto simp: populateCredentialsConfigFromIR_def split_def Let_def split: option.split_asm)
  have none: "cAssumeRole c0 = None"
    using byType_fields [of loc src errs] c0 by (simp add: Let_def)
  then have role: "cAssumeRole c = None \<longleftrightarrow> iAssumeRole src = None"
    using assms(1) c0 by (auto simp: populateCredentialsConfigFromIR_def split_def Let_def split: option.split_asm)
  obtain base where b: "baseProvider env c = Inr base"
    using \<open>valid_credentials c0\<close> assms(2)
    by (auto simp: baseProvider_def NewFileProvider_def NewSecretsManagerProvider_def valid_credentials_def same)
  have "cType c \<in> {''file'', ''aws-secrets-manager'', ''inline''}"
    using \<open>valid_credentials c0\<close> by (auto simp: valid_credentials_def same)
  with base_credentials_complete [OF b] b role show ?thesis
    by (auto simp: NewProvider_def split: option.split)
qed

definition inline_section :: ir_credentials where
  "inline_section = \<lparr>iType = ''inline'', iCredPath = [], iSecretName = [], iCredRegion = [], iAssumeRole = None,
     iAccessKeyID = ''AK'', iSecretAccessKey = ''sk'', iSessionToken = []\<rparr>"

definition inline_environment :: cred_env where
  "inline_environment = \<lparr>evLoadConfig = \<lambda>_. None, evDefaultChain = Inl [], evAbs = Inl, evStat = Inl, evReadFile = Inl, evUnmarshal = Inl,
     evSecretValue = \<lambda>_ _. Inl [], evAssumeRole = \<lambda>_ _ _ _ _. Inl []\<rparr>"

theorem accepted_credentials_provide_witness:
  "\<exists>p. NewProvider inline_environment (Some (fst (populateCredentialsConfigFromIR [] inline_section []))) = Inr p"
  using accepted_credentials_provide [of "[]" inline_section "[]" "fst (populateCredentialsConfigFromIR [] inline_section [])"
      inline_environment]
  by (auto simp: inline_section_def inline_environment_def populateCredentialsConfigFromIR_def credentialsByType_def
      report_def Let_def)

text \<open>An hour in nanoseconds, cut to 32 bits, is some 26 years in seconds.\<close>

lemma assume_role_duration: "durationSeconds (3600 * Second) = 817405952"
  by (simp add: durationSeconds_def Second_def)

end
