(* ===== verification/S3Ops.thy ===== *)
theory S3Ops
  imports ListObjects
begin

section \<open>The operations on a backend\<close>

text \<open>
  \<open>internal/backend/s3ops.go\<close>: the S3 operations the proxy uses, as an interface, and the wrapper that
  sends each of them through a circuit breaker.  The inputs and outputs are the fields of the SDK's
  structs that the router reads or writes; a pointer of the SDK is an option.
\<close>

subsection \<open>Errors\<close>

text \<open>
  An error of the SDK: its text, what \<open>errors.As\<close> finds in it as an API error (code and message),
  and as an HTTP response error (status).
\<close>

record aws_error =
  errText :: string
  errAPI :: "(string \<times> string) option"
  errStatus :: "nat option"

definition plainError :: "string \<Rightarrow> aws_error" where
  "plainError msg = \<lparr>errText = msg, errAPI = None, errStatus = None\<rparr>"

definition IsNonFatalS3Error :: "aws_error option \<Rightarrow> bool" where
  "IsNonFatalS3Error err =
     (case err of
        None \<Rightarrow> True
      | Some e \<Rightarrow>
          (case errAPI e of
             Some (code, _) \<Rightarrow>
               code \<in> {''NoSuchKey'', ''NoSuchBucket'', ''NotFound'', ''AccessDenied'', ''Forbidden'',
                       ''InvalidRequest'', ''BadRequest''}
           | None \<Rightarrow> False))"

subsection \<open>Inputs and outputs\<close>

text \<open>A body: the bytes it yields, and the error that ends it early, if any.\<close>

type_synonym stream = "string \<times> string option"

type_synonym metadata = "(string \<times> string) list"

record get_object_input =
  giBucket :: string
  giKey :: string
  giRange :: "string option"
  giIfMatch :: "string option"
  giIfNoneMatch :: "string option"
  giIfModifiedSince :: "time option"
  giIfUnmodifiedSince :: "time option"

record head_object_input =
  hiBucket :: string
  hiKey :: string
  hiIfMatch :: "string option"
  hiIfNoneMatch :: "string option"
  hiIfModifiedSince :: "time option"
  hiIfUnmodifiedSince :: "time option"

record head_object_output =
  hoContentType :: "string option"
  hoContentLength :: "int option"
  hoETag :: "string option"
  hoLastModified :: "time option"
  hoContentEncoding :: "string option"
  hoCacheControl :: "string option"
  hoContentDisposition :: "string option"
  hoContentLanguage :: "string option"
  hoExpiresString :: "string option"
  hoVersionId :: "string option"
  hoServerSideEncryption :: string
  hoSSEKMSKeyId :: "string option"
  hoStorageClass :: string
  hoMetadata :: metadata

record get_object_output = head_object_output +
  goContentRange :: "string option"
  goBody :: stream

datatype checksum_algorithm = Sha256 | Sha1 | Crc32 | Crc32c | Crc64nvme

record put_object_input =
  piBucket :: string
  piKey :: string
  piBody :: string
  piContentType :: "string option"
  piContentEncoding :: "string option"
  piContentMD5 :: "string option"
  piContentLength :: "int option"
  piMetadata :: metadata
  piChecksum :: "(checksum_algorithm \<times> string) option"

record put_object_output =
  poETag :: "string option"
  poVersionId :: "string option"

record object_input =
  oiBucket :: string
  oiKey :: string

record delete_objects_input =
  diBucket :: string
  diKeys :: "string list"

record delete_objects_output =
  doDeleted :: "string option list"

record get_tagging_output =
  gtTagSet :: "(string option \<times> string option) list"

record put_tagging_input =
  ptBucket :: string
  ptKey :: string
  ptTagSet :: "(string \<times> string) list"

record create_upload_input =
  cuBucket :: string
  cuKey :: string
  cuContentType :: "string option"

record create_upload_output =
  cuUploadId :: "string option"

record upload_part_input =
  upBucket :: string
  upKey :: string
  upUploadId :: string
  upPartNumber :: int
  upBody :: stream
  upContentLength :: "int option"

record upload_part_output =
  upETag :: "string option"

record complete_upload_input =
  cpBucket :: string
  cpKey :: string
  cpUploadId :: string
  cpParts :: "(int \<times> string) list"

record complete_upload_output =
  cpETag :: "string option"

record abort_upload_input =
  abBucket :: string
  abKey :: string
  abUploadId :: string

record list_parts_input =
  lpBucket :: string
  lpKey :: string
  lpUploadId :: string
  lpMaxParts :: int

record list_parts_output =
  lpParts :: "(int option \<times> string option \<times> int option) list"    \<comment> \<open>number, tag and size\<close>
  lpIsTruncated :: "bool option"

datatype directive = CopyDirective | ReplaceDirective

record copy_object_input =
  coBucket :: string
  coCopySource :: string
  coKey :: string
  coMetadataDirective :: "directive option"
  coTaggingDirective :: "directive option"
  coMetadata :: metadata
  coContentType :: "string option"

record copy_object_output =
  coResult :: "(string option \<times> time option) option"      \<comment> \<open>tag and modification time\<close>

record grantee =
  gnType :: string
  gnID :: "string option"
  gnDisplayName :: "string option"

record get_acl_output =
  gaOwner :: "(string option \<times> string option) option"
  gaGrants :: "(grantee option \<times> string) list"            \<comment> \<open>grantee and permission\<close>

record put_acl_input =
  paBucket :: string
  paKey :: string
  paACL :: string

subsection \<open>The interface\<close>

text \<open>
  An operation runs in the state \<open>'w\<close> of everything outside the router: it gives an error, an output
  or a panic, and the state after it.
\<close>

type_synonym ('w, 'i, 'o) s3_operation = "'i \<Rightarrow> 'w \<Rightarrow> (aws_error fault + 'o) \<times> 'w"

record 'w s3_operations =
  opGetObject :: "('w, get_object_input, get_object_output) s3_operation"
  opHeadObject :: "('w, head_object_input, head_object_output) s3_operation"
  opPutObject :: "('w, put_object_input, put_object_output) s3_operation"
  opDeleteObject :: "('w, object_input, unit) s3_operation"
  opDeleteObjects :: "('w, delete_objects_input, delete_objects_output) s3_operation"
  opDeleteObjectTagging :: "('w, object_input, unit) s3_operation"
  opGetObjectTagging :: "('w, object_input, get_tagging_output) s3_operation"
  opPutObjectTagging :: "('w, put_tagging_input, unit) s3_operation"
  opCreateMultipartUpload :: "('w, create_upload_input, create_upload_output) s3_operation"
  opUploadPart :: "('w, upload_part_input, upload_part_output) s3_operation"
  opCompleteMultipartUpload :: "('w, complete_upload_input, complete_upload_output) s3_operation"
  opAbortMultipartUpload :: "('w, abort_upload_input, unit) s3_operation"
  opListParts :: "('w, list_parts_input, list_parts_output) s3_operation"
  opCopyObject :: "('w, copy_object_input, copy_object_output) s3_operation"
  opGetObjectAcl :: "('w, object_input, get_acl_output) s3_operation"
  opPutObjectAcl :: "('w, put_acl_input, unit) s3_operation"
  opListObjectsV2 :: "('w, list_input, sdk_object list) s3_operation"

text \<open>What \<open>any\<close> holds in a call through the breaker, and the type assertions on it.\<close>

datatype s3_any =
    AnyGetObject get_object_output
  | AnyHeadObject head_object_output
  | AnyPutObject put_object_output
  | AnyDeleteObject unit
  | AnyDeleteObjects delete_objects_output
  | AnyDeleteObjectTagging unit
  | AnyGetObjectTagging get_tagging_output
  | AnyPutObjectTagging unit
  | AnyCreateMultipartUpload create_upload_output
  | AnyUploadPart upload_part_output
  | AnyCompleteMultipartUpload complete_upload_output
  | AnyAbortMultipartUpload unit
  | AnyListParts list_parts_output
  | AnyCopyObject copy_object_output
  | AnyGetObjectAcl get_acl_output
  | AnyPutObjectAcl unit
  | AnyListObjectsV2 "sdk_object list"

fun asGetObject :: "s3_any \<Rightarrow> get_object_output option" where
  "asGetObject (AnyGetObject x) = Some x"
| "asGetObject _ = None"

fun asHeadObject :: "s3_any \<Rightarrow> head_object_output option" where
  "asHeadObject (AnyHeadObject x) = Some x"
| "asHeadObject _ = None"

fun asPutObject :: "s3_any \<Rightarrow> put_object_output option" where
  "asPutObject (AnyPutObject x) = Some x"
| "asPutObject _ = None"

fun asDeleteObject :: "s3_any \<Rightarrow> unit option" where
  "asDeleteObject (AnyDeleteObject x) = Some x"
| "asDeleteObject _ = None"

fun asDeleteObjects :: "s3_any \<Rightarrow> delete_objects_output option" where
  "asDeleteObjects (AnyDeleteObjects x) = Some x"
| "asDeleteObjects _ = None"

fun asDeleteObjectTagging :: "s3_any \<Rightarrow> unit option" where
  "asDeleteObjectTagging (AnyDeleteObjectTagging x) = Some x"
| "asDeleteObjectTagging _ = None"

fun asGetObjectTagging :: "s3_any \<Rightarrow> get_tagging_output option" where
  "asGetObjectTagging (AnyGetObjectTagging x) = Some x"
| "asGetObjectTagging _ = None"

fun asPutObjectTagging :: "s3_any \<Rightarrow> unit option" where
  "asPutObjectTagging (AnyPutObjectTagging x) = Some x"
| "asPutObjectTagging _ = None"

fun asCreateMultipartUpload :: "s3_any \<Rightarrow> create_upload_output option" where
  "asCreateMultipartUpload (AnyCreateMultipartUpload x) = Some x"
| "asCreateMultipartUpload _ = None"

fun asUploadPart :: "s3_any \<Rightarrow> upload_part_output option" where
  "asUploadPart (AnyUploadPart x) = Some x"
| "asUploadPart _ = None"

fun asCompleteMultipartUpload :: "s3_any \<Rightarrow> complete_upload_output option" where
  "asCompleteMultipartUpload (AnyCompleteMultipartUpload x) = Some x"
| "asCompleteMultipartUpload _ = None"

fun asAbortMultipartUpload :: "s3_any \<Rightarrow> unit option" where
  "asAbortMultipartUpload (AnyAbortMultipartUpload x) = Some x"
| "asAbortMultipartUpload _ = None"

fun asListParts :: "s3_any \<Rightarrow> list_parts_output option" where
  "asListParts (AnyListParts x) = Some x"
| "asListParts _ = None"

fun asCopyObject :: "s3_any \<Rightarrow> copy_object_output option" where
  "asCopyObject (AnyCopyObject x) = Some x"
| "asCopyObject _ = None"

fun asGetObjectAcl :: "s3_any \<Rightarrow> get_acl_output option" where
  "asGetObjectAcl (AnyGetObjectAcl x) = Some x"
| "asGetObjectAcl _ = None"

fun asPutObjectAcl :: "s3_any \<Rightarrow> unit option" where
  "asPutObjectAcl (AnyPutObjectAcl x) = Some x"
| "asPutObjectAcl _ = None"

fun asListObjectsV2 :: "s3_any \<Rightarrow> (sdk_object list) option" where
  "asListObjectsV2 (AnyListObjectsV2 x) = Some x"
| "asListObjectsV2 _ = None"

subsection \<open>The circuit breaker\<close>

text \<open>
  The breaker of \<open>gobreaker\<close> is a third-party package: its \<open>Execute\<close> is a parameter.  A call through
  it wraps the output into \<open>any\<close> and asserts its type afterwards.
\<close>

type_synonym 'w guarded = "'w \<Rightarrow> (aws_error fault + s3_any) \<times> 'w"

type_synonym 'w breaker = "'w guarded \<Rightarrow> 'w guarded"

definition throughBreaker ::
  "'w breaker \<Rightarrow> ('o \<Rightarrow> s3_any) \<Rightarrow> (s3_any \<Rightarrow> 'o option) \<Rightarrow> ('w, 'i, 'o) s3_operation \<Rightarrow> ('w, 'i, 'o) s3_operation" where
  "throughBreaker cb wrap assert inner params w =
     (let (result, w') = cb (\<lambda>w0. let (r, w1) = inner params w0 in (map_sum (\<lambda>e. e) wrap r, w1)) w in
      (case result of
         Inl e \<Rightarrow> Inl e
       | Inr x \<Rightarrow> (case assert x of Some y \<Rightarrow> Inr y | None \<Rightarrow> Inl Panicked), w'))"

definition cbGetObject :: "'w breaker \<Rightarrow> 'w s3_operations \<Rightarrow> ('w, get_object_input, get_object_output) s3_operation" where
  "cbGetObject cb inner = throughBreaker cb AnyGetObject asGetObject (opGetObject inner)"

definition cbHeadObject :: "'w breaker \<Rightarrow> 'w s3_operations \<Rightarrow> ('w, head_object_input, head_object_output) s3_operation" where
  "cbHeadObject cb inner = throughBreaker cb AnyHeadObject asHeadObject (opHeadObject inner)"

definition cbPutObject :: "'w breaker \<Rightarrow> 'w s3_operations \<Rightarrow> ('w, put_object_input, put_object_output) s3_operation" where
  "cbPutObject cb inner = throughBreaker cb AnyPutObject asPutObject (opPutObject inner)"

definition cbDeleteObject :: "'w breaker \<Rightarrow> 'w s3_operations \<Rightarrow> ('w, object_input, unit) s3_operation" where
  "cbDeleteObject cb inner = throughBreaker cb AnyDeleteObject asDeleteObject (opDeleteObject inner)"

definition cbDeleteObjects :: "'w breaker \<Rightarrow> 'w s3_operations \<Rightarrow> ('w, delete_objects_input, delete_objects_output) s3_operation" where
  "cbDeleteObjects cb inner = throughBreaker cb AnyDeleteObjects asDeleteObjects (opDeleteObjects inner)"

definition cbDeleteObjectTagging :: "'w breaker \<Rightarrow> 'w s3_operations \<Rightarrow> ('w, object_input, unit) s3_operation" where
  "cbDeleteObjectTagging cb inner = throughBreaker cb AnyDeleteObjectTagging asDeleteObjectTagging (opDeleteObjectTagging inner)"

definition cbGetObjectTagging :: "'w breaker \<Rightarrow> 'w s3_operations \<Rightarrow> ('w, object_input, get_tagging_output) s3_operation" where
  "cbGetObjectTagging cb inner = throughBreaker cb AnyGetObjectTagging asGetObjectTagging (opGetObjectTagging inner)"

definition cbPutObjectTagging :: "'w breaker \<Rightarrow> 'w s3_operations \<Rightarrow> ('w, put_tagging_input, unit) s3_operation" where
  "cbPutObjectTagging cb inner = throughBreaker cb AnyPutObjectTagging asPutObjectTagging (opPutObjectTagging inner)"

definition cbCreateMultipartUpload :: "'w breaker \<Rightarrow> 'w s3_operations \<Rightarrow> ('w, create_upload_input, create_upload_output) s3_operation" where
  "cbCreateMultipartUpload cb inner = throughBreaker cb AnyCreateMultipartUpload asCreateMultipartUpload (opCreateMultipartUpload inner)"

definition cbUploadPart :: "'w breaker \<Rightarrow> 'w s3_operations \<Rightarrow> ('w, upload_part_input, upload_part_output) s3_operation" where
  "cbUploadPart cb inner = throughBreaker cb AnyUploadPart asUploadPart (opUploadPart inner)"

definition cbCompleteMultipartUpload :: "'w breaker \<Rightarrow> 'w s3_operations \<Rightarrow> ('w, complete_upload_input, complete_upload_output) s3_operation" where
  "cbCompleteMultipartUpload cb inner = throughBreaker cb AnyCompleteMultipartUpload asCompleteMultipartUpload (opCompleteMultipartUpload inner)"

definition cbAbortMultipartUpload :: "'w breaker \<Rightarrow> 'w s3_operations \<Rightarrow> ('w, abort_upload_input, unit) s3_operation" where
  "cbAbortMultipartUpload cb inner = throughBreaker cb AnyAbortMultipartUpload asAbortMultipartUpload (opAbortMultipartUpload inner)"

definition cbListParts :: "'w breaker \<Rightarrow> 'w s3_operations \<Rightarrow> ('w, list_parts_input, list_parts_output) s3_operation" where
  "cbListParts cb inner = throughBreaker cb AnyListParts asListParts (opListParts inner)"

definition cbCopyObject :: "'w breaker \<Rightarrow> 'w s3_operations \<Rightarrow> ('w, copy_object_input, copy_object_output) s3_operation" where
  "cbCopyObject cb inner = throughBreaker cb AnyCopyObject asCopyObject (opCopyObject inner)"

definition cbGetObjectAcl :: "'w breaker \<Rightarrow> 'w s3_operations \<Rightarrow> ('w, object_input, get_acl_output) s3_operation" where
  "cbGetObjectAcl cb inner = throughBreaker cb AnyGetObjectAcl asGetObjectAcl (opGetObjectAcl inner)"

definition cbPutObjectAcl :: "'w breaker \<Rightarrow> 'w s3_operations \<Rightarrow> ('w, put_acl_input, unit) s3_operation" where
  "cbPutObjectAcl cb inner = throughBreaker cb AnyPutObjectAcl asPutObjectAcl (opPutObjectAcl inner)"

definition cbListObjectsV2 :: "'w breaker \<Rightarrow> 'w s3_operations \<Rightarrow> ('w, list_input, sdk_object list) s3_operation" where
  "cbListObjectsV2 cb inner = throughBreaker cb AnyListObjectsV2 asListObjectsV2 (opListObjectsV2 inner)"

definition NewCircuitBreakerS3Operations :: "'w s3_operations \<Rightarrow> 'w breaker \<Rightarrow> 'w s3_operations" where
  "NewCircuitBreakerS3Operations inner cb =
     \<lparr>opGetObject = cbGetObject cb inner,
      opHeadObject = cbHeadObject cb inner,
      opPutObject = cbPutObject cb inner,
      opDeleteObject = cbDeleteObject cb inner,
      opDeleteObjects = cbDeleteObjects cb inner,
      opDeleteObjectTagging = cbDeleteObjectTagging cb inner,
      opGetObjectTagging = cbGetObjectTagging cb inner,
      opPutObjectTagging = cbPutObjectTagging cb inner,
      opCreateMultipartUpload = cbCreateMultipartUpload cb inner,
      opUploadPart = cbUploadPart cb inner,
      opCompleteMultipartUpload = cbCompleteMultipartUpload cb inner,
      opAbortMultipartUpload = cbAbortMultipartUpload cb inner,
      opListParts = cbListParts cb inner,
      opCopyObject = cbCopyObject cb inner,
      opGetObjectAcl = cbGetObjectAcl cb inner,
      opPutObjectAcl = cbPutObjectAcl cb inner,
      opListObjectsV2 = cbListObjectsV2 cb inner\<rparr>"
subsection \<open>Transparency of the breaker\<close>

text \<open>
  The documented behaviour of \<open>Execute\<close>: the breaker admits the call, in a generation of its own, or
  refuses it with its own error; an admitted function is run once, its error is recorded, and what it
  returned is returned.  What a breaker admits and what it records are its own.
\<close>

type_synonym ('w, 'g) admission = "'w \<Rightarrow> (aws_error + 'g) \<times> 'w"

type_synonym ('w, 'g) settlement = "'g \<Rightarrow> aws_error fault option \<Rightarrow> 'w \<Rightarrow> 'w"

definition errorOf :: "'e + 'a \<Rightarrow> 'e option" where
  "errorOf r = (case r of Inl e \<Rightarrow> Some e | Inr _ \<Rightarrow> None)"

definition guardedBy ::
  "('w, 'g) admission \<Rightarrow> ('w, 'g) settlement \<Rightarrow> ('w \<Rightarrow> (aws_error fault + 'o) \<times> 'w) \<Rightarrow> 'w \<Rightarrow> (aws_error fault + 'o) \<times> 'w" where
  "guardedBy admit settle run w =
     (case admit w of
        (Inl e, w1) \<Rightarrow> (Inl (Failed e), w1)
      | (Inr g, w1) \<Rightarrow> (let (r, w2) = run w1 in (r, settle g (errorOf r) w2)))"

definition breaker_law :: "('w, 'g) admission \<Rightarrow> ('w, 'g) settlement \<Rightarrow> 'w breaker \<Rightarrow> bool" where
  "breaker_law admit settle cb \<longleftrightarrow> (\<forall>f w. cb f w = guardedBy admit settle f w)"

text \<open>An operation guarded by that breaker, in its own type.\<close>

definition delegates ::
  "('w, 'g) admission \<Rightarrow> ('w, 'g) settlement \<Rightarrow> ('w, 'i, 'o) s3_operation \<Rightarrow> ('w, 'i, 'o) s3_operation \<Rightarrow> bool" where
  "delegates admit settle inner outer \<longleftrightarrow> (\<forall>i w. outer i w = guardedBy admit settle (inner i) w)"

text \<open>Wrapping an output and asserting its type again: the contract of each of the operations.\<close>

locale tagged_output =
  fixes wrap :: "'o \<Rightarrow> s3_any"
    and assert :: "s3_any \<Rightarrow> 'o option"
  assumes assert_wrap: "assert (wrap x) = Some x"
begin

lemma unwrap:
  "(case map_sum (\<lambda>e. e) wrap r of Inl e \<Rightarrow> Inl e
    | Inr x \<Rightarrow> (case assert x of Some y \<Rightarrow> Inr y | None \<Rightarrow> Inl Panicked)) = r"
  by (cases r) (simp_all add: assert_wrap)

lemma errorOf_map [simp]: "errorOf (map_sum (\<lambda>e. e) wrap r) = errorOf r"
  by (cases r) (simp_all add: errorOf_def)

lemma delegates_through:
  assumes "breaker_law admit settle cb"
  shows "delegates admit settle inner (throughBreaker cb wrap assert inner)"
  using assms unfolding breaker_law_def delegates_def
  by (simp add: throughBreaker_def guardedBy_def Let_def unwrap split: prod.split sum.split)

end

interpretation any_GetObject: tagged_output AnyGetObject asGetObject
  by unfold_locales simp

interpretation any_HeadObject: tagged_output AnyHeadObject asHeadObject
  by unfold_locales simp

interpretation any_PutObject: tagged_output AnyPutObject asPutObject
  by unfold_locales simp

interpretation any_DeleteObject: tagged_output AnyDeleteObject asDeleteObject
  by unfold_locales simp

interpretation any_DeleteObjects: tagged_output AnyDeleteObjects asDeleteObjects
  by unfold_locales simp

interpretation any_DeleteObjectTagging: tagged_output AnyDeleteObjectTagging asDeleteObjectTagging
  by unfold_locales simp

interpretation any_GetObjectTagging: tagged_output AnyGetObjectTagging asGetObjectTagging
  by unfold_locales simp

interpretation any_PutObjectTagging: tagged_output AnyPutObjectTagging asPutObjectTagging
  by unfold_locales simp

interpretation any_CreateMultipartUpload: tagged_output AnyCreateMultipartUpload asCreateMultipartUpload
  by unfold_locales simp

interpretation any_UploadPart: tagged_output AnyUploadPart asUploadPart
  by unfold_locales simp

interpretation any_CompleteMultipartUpload: tagged_output AnyCompleteMultipartUpload asCompleteMultipartUpload
  by unfold_locales simp

interpretation any_AbortMultipartUpload: tagged_output AnyAbortMultipartUpload asAbortMultipartUpload
  by unfold_locales simp

interpretation any_ListParts: tagged_output AnyListParts asListParts
  by unfold_locales simp

interpretation any_CopyObject: tagged_output AnyCopyObject asCopyObject
  by unfold_locales simp

interpretation any_GetObjectAcl: tagged_output AnyGetObjectAcl asGetObjectAcl
  by unfold_locales simp

interpretation any_PutObjectAcl: tagged_output AnyPutObjectAcl asPutObjectAcl
  by unfold_locales simp

interpretation any_ListObjectsV2: tagged_output AnyListObjectsV2 asListObjectsV2
  by unfold_locales simp

lemmas through_defs =
  cbGetObject_def cbHeadObject_def cbPutObject_def cbDeleteObject_def cbDeleteObjects_def cbDeleteObjectTagging_def cbGetObjectTagging_def cbPutObjectTagging_def cbCreateMultipartUpload_def cbUploadPart_def cbCompleteMultipartUpload_def cbAbortMultipartUpload_def cbListParts_def cbCopyObject_def cbGetObjectAcl_def cbPutObjectAcl_def cbListObjectsV2_def

lemmas through_laws =
  any_GetObject.delegates_through any_HeadObject.delegates_through any_PutObject.delegates_through any_DeleteObject.delegates_through any_DeleteObjects.delegates_through any_DeleteObjectTagging.delegates_through any_GetObjectTagging.delegates_through any_PutObjectTagging.delegates_through any_CreateMultipartUpload.delegates_through any_UploadPart.delegates_through any_CompleteMultipartUpload.delegates_through any_AbortMultipartUpload.delegates_through any_ListParts.delegates_through any_CopyObject.delegates_through any_GetObjectAcl.delegates_through any_PutObjectAcl.delegates_through any_ListObjectsV2.delegates_through

text \<open>
  C40: each of the seventeen operations, called through the circuit breaker, is the operation of the backend
  guarded by the breaker and nothing else: a refused call ends with the breaker's own error and does not
  reach the backend; an admitted one is run once, with the same input, in the state in which it was
  admitted, its error is what the breaker records, and its result is returned as it is.  In particular no
  operation is answered by another one, and no type assertion on a result fails.
\<close>

theorem breaker_transparent:
  assumes "breaker_law admit settle cb"
  shows "let outer = NewCircuitBreakerS3Operations inner cb in
    delegates admit settle (opGetObject inner) (opGetObject outer) \<and>
    delegates admit settle (opHeadObject inner) (opHeadObject outer) \<and>
    delegates admit settle (opPutObject inner) (opPutObject outer) \<and>
    delegates admit settle (opDeleteObject inner) (opDeleteObject outer) \<and>
    delegates admit settle (opDeleteObjects inner) (opDeleteObjects outer) \<and>
    delegates admit settle (opDeleteObjectTagging inner) (opDeleteObjectTagging outer) \<and>
    delegates admit settle (opGetObjectTagging inner) (opGetObjectTagging outer) \<and>
    delegates admit settle (opPutObjectTagging inner) (opPutObjectTagging outer) \<and>
    delegates admit settle (opCreateMultipartUpload inner) (opCreateMultipartUpload outer) \<and>
    delegates admit settle (opUploadPart inner) (opUploadPart outer) \<and>
    delegates admit settle (opCompleteMultipartUpload inner) (opCompleteMultipartUpload outer) \<and>
    delegates admit settle (opAbortMultipartUpload inner) (opAbortMultipartUpload outer) \<and>
    delegates admit settle (opListParts inner) (opListParts outer) \<and>
    delegates admit settle (opCopyObject inner) (opCopyObject outer) \<and>
    delegates admit settle (opGetObjectAcl inner) (opGetObjectAcl outer) \<and>
    delegates admit settle (opPutObjectAcl inner) (opPutObjectAcl outer) \<and>
    delegates admit settle (opListObjectsV2 inner) (opListObjectsV2 outer)"
  using assms by (simp add: NewCircuitBreakerS3Operations_def through_defs through_laws)

text \<open>A breaker that refuses every third call, in a state that counts the calls.\<close>

definition third_call_breaker :: "nat breaker" where
  "third_call_breaker f n =
     (if n mod 3 = 2 then (Inl (Failed (plainError ''circuit breaker is open'')), Suc n)
      else (let (r, n1) = f n in (r, Suc n1)))"

definition failing_operations :: "nat s3_operations" where
  "failing_operations =
     \<lparr>opGetObject = \<lambda>i w. (Inl (Failed (plainError ''GetObject'')), w),
      opHeadObject = \<lambda>i w. (Inl (Failed (plainError ''HeadObject'')), w),
      opPutObject = \<lambda>i w. (Inl (Failed (plainError ''PutObject'')), w),
      opDeleteObject = \<lambda>i w. (Inl (Failed (plainError ''DeleteObject'')), w),
      opDeleteObjects = \<lambda>i w. (Inl (Failed (plainError ''DeleteObjects'')), w),
      opDeleteObjectTagging = \<lambda>i w. (Inl (Failed (plainError ''DeleteObjectTagging'')), w),
      opGetObjectTagging = \<lambda>i w. (Inl (Failed (plainError ''GetObjectTagging'')), w),
      opPutObjectTagging = \<lambda>i w. (Inl (Failed (plainError ''PutObjectTagging'')), w),
      opCreateMultipartUpload = \<lambda>i w. (Inl (Failed (plainError ''CreateMultipartUpload'')), w),
      opUploadPart = \<lambda>i w. (Inl (Failed (plainError ''UploadPart'')), w),
      opCompleteMultipartUpload = \<lambda>i w. (Inl (Failed (plainError ''CompleteMultipartUpload'')), w),
      opAbortMultipartUpload = \<lambda>i w. (Inl (Failed (plainError ''AbortMultipartUpload'')), w),
      opListParts = \<lambda>i w. (Inl (Failed (plainError ''ListParts'')), w),
      opCopyObject = \<lambda>i w. (Inl (Failed (plainError ''CopyObject'')), w),
      opGetObjectAcl = \<lambda>i w. (Inl (Failed (plainError ''GetObjectAcl'')), w),
      opPutObjectAcl = \<lambda>i w. (Inl (Failed (plainError ''PutObjectAcl'')), w),
      opListObjectsV2 = \<lambda>i w. (Inl (Failed (plainError ''ListObjectsV2'')), w)\<rparr>"

text \<open>Operations that fail, but for a deletion that succeeds and moves the world on.\<close>

definition deleting_operations :: "nat s3_operations" where
  "deleting_operations = failing_operations\<lparr>opDeleteObject := \<lambda>i n. (Inr (), n + 10)\<rparr>"

definition third_call_admits :: "(nat, unit) admission" where
  "third_call_admits n =
     (if n mod 3 = 2 then (Inl (plainError ''circuit breaker is open''), Suc n) else (Inr (), n))"

theorem breaker_transparent_witness:
  "let outer = NewCircuitBreakerS3Operations deleting_operations third_call_breaker;
       i = \<lparr>oiBucket = ''b'', oiKey = ''k''\<rparr> in
   opDeleteObject outer i 0 = (Inr (), 11) \<and>
   opDeleteObject outer i 2 = (Inl (Failed (plainError ''circuit breaker is open'')), 3)"
proof -
  have "breaker_law third_call_admits (\<lambda>g e n. Suc n) third_call_breaker"
    by (simp add: breaker_law_def guardedBy_def third_call_admits_def third_call_breaker_def)
  from breaker_transparent [OF this, of deleting_operations] show ?thesis
    by (simp add: Let_def delegates_def guardedBy_def third_call_admits_def deleting_operations_def failing_operations_def)
qed

end
