(* ===== verification/Backend.thy ===== *)
theory Backend
  imports S3Ops Cred
begin

section \<open>Backends\<close>

text \<open>
  \<open>internal/backend/endpoint.go\<close> and \<open>internal/backend/manager.go\<close>: where the requests to a backend go,
  the clients of the backends, and their health.  The SDK's endpoint resolver, S3 client and
  HTTP client, the breaker and \<open>url.Parse\<close> are functions of a record, the platform.  Logging,
  connection pools and instrumentation are left out.
\<close>

subsection \<open>Endpoints\<close>

record sdk_endpoint_params =
  skBucket :: "string option"
  skKey :: "string option"
  skRegion :: "string option"
  skUseFIPS :: "bool option"
  skUseGlobalEndpoint :: "bool option"
  skUseDualStack :: "bool option"
  skAccelerate :: "bool option"
  skForcePathStyle :: "bool option"

type_synonym sdk_resolver = "sdk_endpoint_params \<Rightarrow> string + url \<times> header"

record resolver =
  rvTemplate :: "template option"
  rvAws :: "sdk_resolver option"

record resolved_endpoint =
  reURL :: url
  reHeaders :: header

record endpoint_params =
  epBucket :: string
  epKey :: string
  epRegion :: string
  epUseFIPS :: bool
  epUseGlobalEndpoint :: bool
  epUseDualStack :: bool
  epAccelerate :: bool
  epUsePathStyle :: bool

definition emptyOrOne :: "bool \<Rightarrow> string" where
  "emptyOrOne v = (if v then ''1'' else [])"

text \<open>The text a template gives, and the URL parsed from it.\<close>

definition endpointPlaceholders :: "endpoint_params \<Rightarrow> placeholders" where
  "endpointPlaceholders params =
     SetNamed ''key'' (epKey params)
       (SetNamed ''usePathStyle'' (emptyOrOne (epUsePathStyle params))
         (SetNamed ''dualStack'' (emptyOrOne (epUseDualStack params))
           (SetNamed ''accelerate'' (emptyOrOne (epAccelerate params))
             (SetNamed ''globalEndpoint'' (emptyOrOne (epUseGlobalEndpoint params))
               (SetNamed ''fips'' (emptyOrOne (epUseFIPS params))
                 (SetNamed ''region'' (epRegion params)
                   (SetNamed ''bucket'' (epBucket params) NewPlaceholders)))))))"

definition resolveTemplateEndpoint ::
  "(string \<Rightarrow> string + url) \<Rightarrow> template \<Rightarrow> endpoint_params \<Rightarrow> string + url" where
  "resolveTemplateEndpoint parseURL t params =
     (let endpoint = Execute t (endpointPlaceholders params);
          endpoint1 = (if \<not> HasPrefix endpoint ''http://'' \<and> \<not> HasPrefix endpoint ''https://''
                       then ''https://'' @ endpoint else endpoint)
      in parseURL endpoint1)"

text \<open>A nil resolver panics.\<close>

definition resolveSDKEndpointWithOptions ::
  "resolver \<Rightarrow> endpoint_params \<Rightarrow> string fault + resolved_endpoint" where
  "resolveSDKEndpointWithOptions rv params =
     (case rvAws rv of
        None \<Rightarrow> Inl Panicked
      | Some resolve \<Rightarrow>
          (case resolve \<lparr>skBucket = Some (epBucket params), skKey = Some (epKey params),
              skRegion = Some (epRegion params), skUseFIPS = Some (epUseFIPS params),
              skUseGlobalEndpoint = Some (epUseGlobalEndpoint params), skUseDualStack = Some (epUseDualStack params),
              skAccelerate = Some (epAccelerate params), skForcePathStyle = Some (epUsePathStyle params)\<rparr> of
             Inl e \<Rightarrow> Inl (Failed (''failed to resolve endpoint using SDK V2 with options: '' @ e))
           | Inr (u, hs) \<Rightarrow>
               Inr \<lparr>reURL = u, reHeaders = fold (\<lambda>(k, vv) h. case vv of v # _ \<Rightarrow> hSet k v h | [] \<Rightarrow> h) hs []\<rparr>))"

definition appendKey :: "string \<Rightarrow> url \<Rightarrow> url" where
  "appendKey key u =
     (let endpointPath = (if HasSuffix (EscapedPath u) ''/'' then EscapedPath u else EscapedPath u @ ''/'');
          raw = endpointPath @ key
      in u\<lparr>uRawPath := raw, uPath := (case PathUnescape raw of Some p \<Rightarrow> p | None \<Rightarrow> [])\<rparr>)"

definition ResolveEndpointURL ::
  "(string \<Rightarrow> string + url) \<Rightarrow> resolver \<Rightarrow> endpoint_params \<Rightarrow> string fault + resolved_endpoint" where
  "ResolveEndpointURL parseURL rv params =
     (case rvTemplate rv of
        Some t \<Rightarrow>
          (case resolveTemplateEndpoint parseURL t params of
             Inl e \<Rightarrow> Inl (Failed (''invalid endpoint URL after template resolution: '' @ e))
           | Inr u \<Rightarrow> Inr \<lparr>reURL = u, reHeaders = []\<rparr>)
      | None \<Rightarrow>
          (case resolveSDKEndpointWithOptions rv params of
             Inl e \<Rightarrow> Inl e
           | Inr r \<Rightarrow> Inr (if epKey params \<noteq> [] then r\<lparr>reURL := appendKey (epKey params) (reURL r)\<rparr> else r)))"

definition orFalse :: "bool option \<Rightarrow> bool" where
  "orFalse b = (case b of Some x \<Rightarrow> x | None \<Rightarrow> False)"

text \<open>The resolver as the SDK calls it: the key is left empty.\<close>

definition ResolveEndpoint ::
  "(string \<Rightarrow> string + url) \<Rightarrow> resolver \<Rightarrow> sdk_endpoint_params \<Rightarrow> string fault + url \<times> header" where
  "ResolveEndpoint parseURL rv p =
     (case ResolveEndpointURL parseURL rv
        \<lparr>epBucket = toString (skBucket p), epKey = [], epRegion = toString (skRegion p),
         epUseFIPS = orFalse (skUseFIPS p), epUseGlobalEndpoint = orFalse (skUseGlobalEndpoint p),
         epUseDualStack = orFalse (skUseDualStack p), epAccelerate = orFalse (skAccelerate p),
         epUsePathStyle = orFalse (skForcePathStyle p)\<rparr> of
        Inl e \<Rightarrow> Inl e
      | Inr r \<Rightarrow> Inr (reURL r, reHeaders r))"

definition newEndpointResolver :: "sdk_resolver \<Rightarrow> backend_config \<Rightarrow> template_error + resolver" where
  "newEndpointResolver aws bcfg =
     (if bEndpoint bcfg \<noteq> [] then
        (case Parse (bEndpoint bcfg) of
           Inl e \<Rightarrow> Inl e
         | Inr t \<Rightarrow> Inr \<lparr>rvTemplate = Some t, rvAws = None\<rparr>)
      else Inr \<lparr>rvTemplate = None, rvAws = Some aws\<rparr>)"

definition NewEndpointResolverFromTemplate :: "template option \<Rightarrow> resolver" where
  "NewEndpointResolverFromTemplate t = \<lparr>rvTemplate = t, rvAws = None\<rparr>"

subsection \<open>Clients\<close>

text \<open>
  A request of the router's own HTTP client: its body is absent, the bytes of the client's request
  with the error after them, or a re-encoder that the transport reads.
\<close>

datatype upstream_body = NoBody | BodyBytes "string \<times> read_error" | BodyEncoder encoder

record upstream =
  urRequest :: request
  urBody :: upstream_body

record health_state =
  hHealthy :: bool
  hLastCheck :: time
  hLastError :: string
  hConsecutiveFailures :: int

record 'w s3_client =
  scOperations :: "'w s3_operations"
  scHeadBucket :: "string \<Rightarrow> 'w \<Rightarrow> aws_error option \<times> 'w"

record 'w backend_client =
  bcConfig :: backend_config
  bcRegion :: string
  bcResolver :: resolver
  bcS3Client :: "'w s3_client"
  bcOperations :: "'w s3_operations"
  bcCreds :: provider
  bcDo :: "upstream \<Rightarrow> 'w \<Rightarrow> (string + stream response) \<times> 'w"
  bcHealth :: health_state

record counts =
  ctRequests :: nat
  ctTotalFailures :: nat

record breaker_settings =
  bsName :: string
  bsMaxRequests :: nat
  bsInterval :: int
  bsTimeout :: int
  bsReadyToTrip :: "counts \<Rightarrow> bool"
  bsIsSuccessful :: "aws_error option \<Rightarrow> bool"

record client_options =
  opRegion :: string
  opCreds :: provider
  opTimeout :: int
  opMaxAttempts :: nat
  opResolver :: resolver

record 'w platform =
  plCred :: cred_env
  plAwsResolver :: sdk_resolver
  plParseURL :: "string \<Rightarrow> string + url"
  plURLString :: "url \<Rightarrow> string"
  plNewS3Client :: "client_options \<Rightarrow> 'w s3_client"
  plNewBreaker :: "breaker_settings \<Rightarrow> 'w breaker"
  plNewHTTPClient :: "int \<Rightarrow> upstream \<Rightarrow> 'w \<Rightarrow> (string + stream response) \<times> 'w"

text \<open>
  \<open>failureRatio >= 0.6\<close> in floating point: the quotient of two 32-bit counts is at least 3/5 exactly
  when its rounding is at least the rounding of 0.6, for the two cannot lie within an ulp of each
  other unless they are equal.
\<close>

definition ReadyToTrip :: "counts \<Rightarrow> bool" where
  "ReadyToTrip c \<longleftrightarrow> 3 \<le> ctRequests c \<and> 3 * ctRequests c \<le> 5 * ctTotalFailures c"

datatype backend_error =
    BackendNotFound string
  | ProviderFailed string
  | EndpointFailed template_error
  | ClientFailed string backend_error

record 'w manager =
  mgClients :: "(string \<times> 'w backend_client) list"
  mgTimeout :: int
  mgDefaultRegion :: string

definition createBackendClient ::
  "'w platform \<Rightarrow> 'w manager \<Rightarrow> string \<Rightarrow> backend_config \<Rightarrow> backend_error + 'w backend_client" where
  "createBackendClient pl m cid bcfg =
     (let region = (if bRegion bcfg \<noteq> [] then bRegion bcfg else mgDefaultRegion m) in
      case NewProvider (plCred pl) (bCredentials bcfg) of
        Inl e \<Rightarrow> Inl (ProviderFailed e)
      | Inr creds \<Rightarrow>
          (case newEndpointResolver (plAwsResolver pl) bcfg of
             Inl e \<Rightarrow> Inl (EndpointFailed e)
           | Inr rv \<Rightarrow>
               (let client = plNewS3Client pl \<lparr>opRegion = region, opCreds = creds, opTimeout = bTimeout bcfg,
                      opMaxAttempts = 3, opResolver = rv\<rparr>;
                    cb = plNewBreaker pl \<lparr>bsName = ''backend-'' @ cid, bsMaxRequests = 3, bsInterval = Second,
                      bsTimeout = 10 * Second, bsReadyToTrip = ReadyToTrip, bsIsSuccessful = IsNonFatalS3Error\<rparr>
                in Inr \<lparr>bcConfig = bcfg, bcRegion = region, bcResolver = rv, bcS3Client = client,
                     bcOperations = NewCircuitBreakerS3Operations (scOperations client) cb, bcCreds = creds,
                     bcDo = plNewHTTPClient pl (mgTimeout m),
                     bcHealth = \<lparr>hHealthy = True, hLastCheck = time_of 1 1 1 0 0 0 0, hLastError = [], hConsecutiveFailures = 0\<rparr>\<rparr>)))"

text \<open>The loop of \<open>NewManager\<close> over the backends, in the order of one iteration of the map.\<close>

fun addClients :: "'w platform \<Rightarrow> backend_config list \<Rightarrow> 'w manager \<Rightarrow> backend_error + 'w manager" where
  "addClients pl [] m = Inr m"
| "addClients pl (b # bs) m =
     (case createBackendClient pl m (bID b) b of
        Inl e \<Rightarrow> Inl (ClientFailed (bID b) e)
      | Inr c \<Rightarrow> addClients pl bs (m\<lparr>mgClients := AList.update (bID b) c (mgClients m)\<rparr>))"

definition NewManager :: "'w platform \<Rightarrow> config \<Rightarrow> int \<Rightarrow> backend_error + 'w manager" where
  "NewManager pl cfg timeout =
     (let defaultRegion = (case cfgAuth cfg of
            Some a \<Rightarrow> if aDefaultRegion a \<noteq> [] then aDefaultRegion a else ''us-east-1'' | None \<Rightarrow> ''us-east-1'')
      in addClients pl (map snd (cfgBackends cfg))
           \<lparr>mgClients = [], mgTimeout = timeout, mgDefaultRegion = defaultRegion\<rparr>)"

definition GetClients :: "'w manager \<Rightarrow> (string \<times> 'w backend_client) list" where
  "GetClients m = mgClients m"

definition GetClient :: "'w manager \<Rightarrow> string \<Rightarrow> backend_error + 'w backend_client" where
  "GetClient m backendID =
     (case map_of (mgClients m) backendID of
        None \<Rightarrow> Inl (BackendNotFound backendID)
      | Some c \<Rightarrow> Inr c)"

subsection \<open>Health\<close>

definition GetHealthSnapshot :: "health_state \<Rightarrow> bool \<times> time \<times> string \<times> int" where
  "GetHealthSnapshot h = (hHealthy h, hLastCheck h, hLastError h, hConsecutiveFailures h)"

definition SetHealthy :: "time \<Rightarrow> health_state \<Rightarrow> health_state" where
  "SetHealthy now h = h\<lparr>hHealthy := True, hLastCheck := now, hConsecutiveFailures := 0, hLastError := []\<rparr>"

definition SetUnhealthy :: "time \<Rightarrow> string \<Rightarrow> health_state \<Rightarrow> health_state" where
  "SetUnhealthy now errMsg h =
     h\<lparr>hHealthy := False, hLastCheck := now, hLastError := errMsg,
       hConsecutiveFailures := hConsecutiveFailures h + 1\<rparr>"

datatype health_error = NoSuchBackend backend_error | HeadBucketFailed aws_error

definition setHealth :: "string \<Rightarrow> (health_state \<Rightarrow> health_state) \<Rightarrow> 'w manager \<Rightarrow> 'w manager" where
  "setHealth backendID f m =
     (case map_of (mgClients m) backendID of
        None \<Rightarrow> m
      | Some c \<Rightarrow> m\<lparr>mgClients := AList.update backendID (c\<lparr>bcHealth := f (bcHealth c)\<rparr>) (mgClients m)\<rparr>)"

definition HealthCheck ::
  "'w manager \<Rightarrow> time \<Rightarrow> string \<Rightarrow> 'w \<Rightarrow> health_error option \<times> 'w manager \<times> 'w" where
  "HealthCheck m now backendID w =
     (case GetClient m backendID of
        Inl e \<Rightarrow> (Some (NoSuchBackend e), m, w)
      | Inr c \<Rightarrow>
          (case scHeadBucket (bcS3Client c) (bBucket (bcConfig c)) w of
             (Some e, w') \<Rightarrow> (Some (HeadBucketFailed e), setHealth backendID (SetUnhealthy now (errText e)) m, w')
           | (None, w') \<Rightarrow> (None, setHealth backendID (SetHealthy now) m, w')))"

subsection \<open>A manager for every accepted configuration\<close>

text \<open>What is left to the environment: the SDK loads its configuration, and the endpoint is a template.\<close>

definition backend_ready :: "'w platform \<Rightarrow> backend_config \<Rightarrow> bool" where
  "backend_ready pl b \<longleftrightarrow>
     (\<forall>r. evLoadConfig (plCred pl) r = None) \<and> (bEndpoint b = [] \<or> (\<exists>t. Parse (bEndpoint b) = Inr t))"

definition effectiveRegion :: "'w manager \<Rightarrow> backend_config \<Rightarrow> string" where
  "effectiveRegion m b = (if bRegion b \<noteq> [] then bRegion b else mgDefaultRegion m)"

lemma createBackendClient_ok:
  assumes "valid_backend k b" "backend_ready pl b"
  shows "\<exists>c. createBackendClient pl m k b = Inr c \<and> bcConfig c = b \<and> bcRegion c = effectiveRegion m b \<and>
    hHealthy (bcHealth c) \<and> hConsecutiveFailures (bcHealth c) = 0"
proof -
  obtain creds where "NewProvider (plCred pl) (bCredentials b) = Inr creds"
  proof (cases "bCredentials b")
    case None
    then show ?thesis using that by (simp add: NewProvider_def)
  next
    case (Some c)
    with assms show ?thesis
      using that valid_credentials_provider [of c "plCred pl"] by (auto simp: valid_backend_def backend_ready_def)
  qed
  moreover obtain rv where "newEndpointResolver (plAwsResolver pl) b = Inr rv"
    using assms(2) that by (cases "bEndpoint b = []") (auto simp: backend_ready_def newEndpointResolver_def)
  ultimately show ?thesis by (simp add: createBackendClient_def effectiveRegion_def Let_def)
qed

lemma addClients_settings:
  "addClients pl bs m = Inr m' \<Longrightarrow> mgTimeout m' = mgTimeout m \<and> mgDefaultRegion m' = mgDefaultRegion m"
  by (induction bs arbitrary: m) (auto split: sum.splits)

lemma addClients_other:
  "addClients pl bs m = Inr m' \<Longrightarrow> k \<notin> bID ` set bs \<Longrightarrow> map_of (mgClients m') k = map_of (mgClients m) k"
  by (induction bs arbitrary: m) (auto split: sum.splits)

lemma addClients_ok:
  assumes "\<forall>b \<in> set bs. valid_backend (bID b) b \<and> backend_ready pl b" "distinct (map bID bs)"
  shows "\<exists>m'. addClients pl bs m = Inr m' \<and>
    (\<forall>b \<in> set bs. \<exists>c. map_of (mgClients m') (bID b) = Some c \<and> bcConfig c = b \<and>
       bcRegion c = effectiveRegion m b \<and> hHealthy (bcHealth c) \<and> hConsecutiveFailures (bcHealth c) = 0)"
  using assms
proof (induction bs arbitrary: m)
  case (Cons b bs)
  then obtain c where c: "createBackendClient pl m (bID b) b = Inr c"
    and ok: "bcConfig c = b \<and> bcRegion c = effectiveRegion m b \<and> hHealthy (bcHealth c) \<and>
      hConsecutiveFailures (bcHealth c) = 0"
    using createBackendClient_ok [of "bID b" b pl m] by auto
  define m1 where "m1 = m\<lparr>mgClients := AList.update (bID b) c (mgClients m)\<rparr>"
  have region: "effectiveRegion m1 = effectiveRegion m" by (rule ext) (simp add: effectiveRegion_def m1_def)
  obtain m' where m': "addClients pl bs m1 = Inr m'"
    and bs: "\<forall>b \<in> set bs. \<exists>c. map_of (mgClients m') (bID b) = Some c \<and> bcConfig c = b \<and>
       bcRegion c = effectiveRegion m b \<and> hHealthy (bcHealth c) \<and> hConsecutiveFailures (bcHealth c) = 0"
    using Cons.IH [of m1] Cons.prems region by auto
  have "map_of (mgClients m') (bID b) = Some c"
    using addClients_other [OF m', of "bID b"] Cons.prems(2) by (simp add: m1_def)
  then have "\<exists>c'. map_of (mgClients m') (bID b') = Some c' \<and> bcConfig c' = b' \<and> bcRegion c' = effectiveRegion m b' \<and>
      hHealthy (bcHealth c') \<and> hConsecutiveFailures (bcHealth c') = 0" if "b' \<in> set (b # bs)" for b'
    using that bs ok by (cases "b' = b") simp_all
  moreover have "addClients pl (b # bs) m = Inr m'"
    using c m' by (simp add: m1_def)
  ultimately show ?case by blast
qed simp

text \<open>
  C31: starting the router on an accepted configuration, whose backends have different names, cannot
  fail for a reason the configuration decides, except for an endpoint that is not a template: then
  every backend gets a client under its name, with its own region or else the default one, and
  counts as healthy.
\<close>

theorem manager_of_accepted_config:
  assumes "PopulateFromIR read src = Inr cfg" "distinct (map fst (cfgBackends cfg))"
    "\<forall>(k, b) \<in> set (cfgBackends cfg). backend_ready pl b"
  shows "\<exists>m. NewManager pl cfg timeout = Inr m \<and>
    (\<forall>(k, b) \<in> set (cfgBackends cfg). \<exists>c. GetClient m k = Inr c \<and> bcConfig c = b \<and>
       bcRegion c = (if bRegion b \<noteq> [] then bRegion b
                     else case cfgAuth cfg of
                       Some a \<Rightarrow> if aDefaultRegion a \<noteq> [] then aDefaultRegion a else ''us-east-1''
                     | None \<Rightarrow> ''us-east-1'') \<and> hHealthy (bcHealth c))"
proof -
  define m0 :: "'a manager" where "m0 = \<lparr>mgClients = [], mgTimeout = timeout, mgDefaultRegion =
      (case cfgAuth cfg of Some a \<Rightarrow> if aDefaultRegion a \<noteq> [] then aDefaultRegion a else ''us-east-1''
       | None \<Rightarrow> ''us-east-1'')\<rparr>"
  have valid: "\<forall>(k, b) \<in> set (cfgBackends cfg). valid_backend k b"
    using populate_valid [OF assms(1)] by (simp add: valid_config_def)
  then have names: "map (\<lambda>x. bID (snd x)) (cfgBackends cfg) = map fst (cfgBackends cfg)"
    by (auto simp: valid_backend_def)
  have "\<forall>b \<in> set (map snd (cfgBackends cfg)). valid_backend (bID b) b \<and> backend_ready pl b"
    using valid assms(3) by (auto simp: valid_backend_def)
  moreover have "distinct (map bID (map snd (cfgBackends cfg)))"
    using assms(2) by (simp add: comp_def names)
  ultimately obtain m where m: "addClients pl (map snd (cfgBackends cfg)) m0 = Inr m"
    and c: "\<forall>b \<in> set (map snd (cfgBackends cfg)). \<exists>c. map_of (mgClients m) (bID b) = Some c \<and> bcConfig c = b \<and>
       bcRegion c = effectiveRegion m0 b \<and> hHealthy (bcHealth c) \<and> hConsecutiveFailures (bcHealth c) = 0"
    using addClients_ok [of "map snd (cfgBackends cfg)" pl m0] by blast
  have "NewManager pl cfg timeout = Inr m"
    using m by (simp add: NewManager_def m0_def)
  moreover have "\<forall>(k, b) \<in> set (cfgBackends cfg). \<exists>c. GetClient m k = Inr c \<and> bcConfig c = b \<and>
      bcRegion c = effectiveRegion m0 b \<and> hHealthy (bcHealth c)"
    using c valid by (fastforce simp: GetClient_def valid_backend_def)
  moreover have "effectiveRegion m0 b = (if bRegion b \<noteq> [] then bRegion b
      else case cfgAuth cfg of Some a \<Rightarrow> if aDefaultRegion a \<noteq> [] then aDefaultRegion a else ''us-east-1''
        | None \<Rightarrow> ''us-east-1'')" for b
    by (simp add: effectiveRegion_def m0_def)
  ultimately show ?thesis by simp
qed

subsection \<open>The health of a backend\<close>

text \<open>
  The state a series of health checks leads to; between two checks the world outside may change in
  any way.  The trace records which backend was checked, when, and with what result.
\<close>

type_synonym check = "string \<times> time \<times> health_error option"

inductive health_run :: "'w manager \<Rightarrow> check list \<Rightarrow> 'w manager \<Rightarrow> bool" where
  Start: "health_run m [] m"
| Check: "health_run m tr m1 \<Longrightarrow> HealthCheck m1 now k w = (err, m2, w') \<Longrightarrow>
    health_run m (tr @ [(k, now, err)]) m2"

inductive_cases health_run_snocE: "health_run m (tr @ [c]) m'"

text \<open>The abstract health: the outcomes of the checks of one backend, oldest first.\<close>

definition outcomes :: "string \<Rightarrow> check list \<Rightarrow> (time \<times> health_error option) list" where
  "outcomes k tr = List.map_filter (\<lambda>(k', now, err). if k' = k then Some (now, err) else None) tr"

definition failingSince :: "(time \<times> health_error option) list \<Rightarrow> nat" where
  "failingSince os = length (takeWhile (\<lambda>(_, err). err \<noteq> None) (rev os))"

definition shows_health :: "(time \<times> health_error option) list \<Rightarrow> health_state \<Rightarrow> bool" where
  "shows_health os h \<longleftrightarrow>
     hConsecutiveFailures h = int (failingSince os) \<and>
     hHealthy h = (failingSince os = 0) \<and>
     (os \<noteq> [] \<longrightarrow> hLastCheck h = fst (last os)) \<and>
     (hHealthy h \<longrightarrow> hLastError h = []) \<and>
     (\<forall>t e. os \<noteq> [] \<and> last os = (t, Some (HeadBucketFailed e)) \<longrightarrow> hLastError h = errText e)"

lemma outcomes_Nil [simp]: "outcomes k [] = []"
  by (simp add: outcomes_def List.map_filter_def)

lemma outcomes_snoc [simp]:
  "outcomes k (tr @ [(k', now, err)]) = outcomes k tr @ (if k' = k then [(now, err)] else [])"
  by (simp add: outcomes_def List.map_filter_def)

lemma failingSince_Nil [simp]: "failingSince [] = 0"
  by (simp add: failingSince_def)

lemma failingSince_snoc [simp]:
  "failingSince (os @ [(now, err)]) = (if err = None then 0 else Suc (failingSince os))"
  by (simp add: failingSince_def)

lemma shows_health_check:
  assumes "shows_health os h"
  shows "shows_health (os @ [(now, None)]) (SetHealthy now h)"
    and "shows_health (os @ [(now, Some (HeadBucketFailed e))]) (SetUnhealthy now (errText e) h)"
  using assms by (auto simp: shows_health_def SetHealthy_def SetUnhealthy_def)

lemma setHealth_clients:
  "map_of (mgClients (setHealth k f m)) k' =
     (case map_of (mgClients m) k' of
        Some c \<Rightarrow> Some (if k' = k then c\<lparr>bcHealth := f (bcHealth c)\<rparr> else c) | None \<Rightarrow> None)"
  by (auto simp: setHealth_def split: option.split)

lemma HealthCheck_client:
  assumes "HealthCheck m now k w = (err, m', w')" "map_of (mgClients m) k' = Some c" "shows_health os (bcHealth c)"
  shows "\<exists>c'. map_of (mgClients m') k' = Some c' \<and>
    shows_health (os @ (if k = k' then [(now, err)] else [])) (bcHealth c')"
  using assms shows_health_check
  by (auto simp: HealthCheck_def GetClient_def setHealth_clients split: option.splits prod.splits)

lemma health_run_clients:
  "health_run m tr m' \<Longrightarrow> map_of (mgClients m) k = Some c \<Longrightarrow> shows_health [] (bcHealth c) \<Longrightarrow>
     \<exists>c'. map_of (mgClients m') k = Some c' \<and> shows_health (outcomes k tr) (bcHealth c')"
proof (induction rule: health_run.induct)
  case (Check m tr m1 now k' w err m2 w')
  then obtain c1 where "map_of (mgClients m1) k = Some c1" "shows_health (outcomes k tr) (bcHealth c1)" by auto
  from HealthCheck_client [OF Check.hyps(2) this] show ?case by auto
qed auto

lemma health_run_known:
  "health_run m tr m' \<Longrightarrow> map_of (mgClients m') k = Some c' \<Longrightarrow> \<exists>c. map_of (mgClients m) k = Some c"
proof (induction arbitrary: c' rule: health_run.induct)
  case (Check m tr m1 now k' w err m2 w')
  then show ?case
    by (auto simp: HealthCheck_def GetClient_def setHealth_clients split: option.splits prod.splits)
qed auto

lemma createBackendClient_healthy:
  "createBackendClient pl m k b = Inr c \<Longrightarrow> shows_health [] (bcHealth c)"
  by (auto simp: createBackendClient_def shows_health_def Let_def split: sum.splits)

lemma addClients_healthy:
  assumes "addClients pl bs m = Inr m'" "\<forall>k c. map_of (mgClients m) k = Some c \<longrightarrow> shows_health [] (bcHealth c)"
  shows "\<forall>k c. map_of (mgClients m') k = Some c \<longrightarrow> shows_health [] (bcHealth c)"
  using assms
proof (induction bs arbitrary: m)
  case (Cons b bs)
  from Cons.prems(1) obtain c where c: "createBackendClient pl m (bID b) b = Inr c"
    and r: "addClients pl bs (m\<lparr>mgClients := AList.update (bID b) c (mgClients m)\<rparr>) = Inr m'"
    by (auto split: sum.splits)
  have "\<forall>k c'. map_of (mgClients (m\<lparr>mgClients := AList.update (bID b) c (mgClients m)\<rparr>)) k = Some c' \<longrightarrow>
      shows_health [] (bcHealth c')"
    using Cons.prems(2) createBackendClient_healthy [OF c] by simp
  with r show ?case by (rule Cons.IH)
qed simp

text \<open>
  C25: the health a backend reports is an account of its own checks, whatever happened to the other
  backends in between: it counts the failures since its last success, the backend is healthy exactly
  when there is none, and a healthy backend reports no error.
\<close>

theorem health_accounts_checks:
  assumes "NewManager pl cfg timeout = Inr m0" "health_run m0 tr m" "GetClient m k = Inr c"
  shows "case GetHealthSnapshot (bcHealth c) of (healthy, lastCheck, lastError, failures) \<Rightarrow>
    failures = int (length (takeWhile (\<lambda>(_, err). err \<noteq> None) (rev (outcomes k tr)))) \<and>
    healthy = (failures = 0) \<and> (healthy \<longrightarrow> lastError = []) \<and>
    (outcomes k tr \<noteq> [] \<longrightarrow> lastCheck = fst (last (outcomes k tr)))"
proof -
  from assms(3) have c: "map_of (mgClients m) k = Some c"
    by (simp add: GetClient_def split: option.splits)
  from health_run_known [OF assms(2) this] obtain c0 where c0: "map_of (mgClients m0) k = Some c0" ..
  moreover from this have "shows_health [] (bcHealth c0)"
    using addClients_healthy assms(1) unfolding NewManager_def Let_def by fastforce
  ultimately have "shows_health (outcomes k tr) (bcHealth c)"
    using health_run_clients [OF assms(2)] c by fastforce
  then show ?thesis
    by (simp add: shows_health_def failingSince_def GetHealthSnapshot_def)
qed

text \<open>A platform whose backends never answer, and a configuration with one backend.\<close>

definition dead_platform :: "nat platform" where
  "dead_platform = \<lparr>plCred = inline_environment, plAwsResolver = \<lambda>_. Inl ''no resolver'', plParseURL = \<lambda>_. Inl ''no URL'',
     plURLString = (\<lambda>u. uScheme u @ ''://'' @ uHost u @ EscapedPath u),
     plNewS3Client = \<lambda>_. \<lparr>scOperations = failing_operations, scHeadBucket = \<lambda>b n. (Some (plainError ''timeout''), Suc n)\<rparr>,
     plNewBreaker = \<lambda>_. third_call_breaker, plNewHTTPClient = \<lambda>t u n. (Inl ''timeout'', Suc n)\<rparr>"

definition dead_backend :: backend_config where
  "dead_backend = \<lparr>bID = ''b1'', bEndpoint = [], bRegion = [], bBucket = ''phys'', bPrefix = ''p/'', bTimeout = 0,
     bRetries = 0, bUsePathStyle = False, bUseFIPS = False, bUseGlobalEndpoint = False, bUseDualStack = False,
     bAccelerate = False, bCredentials = None\<rparr>"

definition dead_config :: config where
  "dead_config = \<lparr>cfgBackends = [(''b1'', dead_backend)], cfgBuckets = [], cfgFeatures = [], cfgCredentialsStore = None,
     cfgServer = None, cfgAuth = None, cfgVirtualHosts = None\<rparr>"

theorem health_accounts_checks_witness:
  "\<exists>m0 m c. NewManager dead_platform dead_config 0 = Inr m0 \<and>
     health_run m0 [(''b1'', 7, Some (HeadBucketFailed (plainError ''timeout'')))] m \<and> GetClient m ''b1'' = Inr c \<and>
     hConsecutiveFailures (bcHealth c) = 1 \<and> \<not> hHealthy (bcHealth c)"
proof -
  obtain m0 c0 where m0: "NewManager dead_platform dead_config 0 = Inr m0" and c0: "GetClient m0 ''b1'' = Inr c0"
    and head: "scHeadBucket (bcS3Client c0) = (\<lambda>b n. (Some (plainError ''timeout''), Suc n))"
    by (simp add: NewManager_def dead_config_def dead_backend_def createBackendClient_def NewProvider_def
        newEndpointResolver_def GetClient_def dead_platform_def Let_def that)
  obtain m1 where m1: "HealthCheck m0 7 ''b1'' 0 = (Some (HeadBucketFailed (plainError ''timeout'')), m1, 1)"
    by (simp add: HealthCheck_def c0 head that)
  have run: "health_run m0 [(''b1'', 7, Some (HeadBucketFailed (plainError ''timeout'')))] m1"
    using Check [OF Start m1] by simp
  have "map_of (mgClients m0) ''b1'' = Some c0" using c0 by (simp add: GetClient_def split: option.splits)
  moreover from this have "shows_health [] (bcHealth c0)"
    using addClients_healthy m0 unfolding NewManager_def Let_def by fastforce
  ultimately obtain c where c: "GetClient m1 ''b1'' = Inr c"
    using HealthCheck_client [OF m1] by (fastforce simp: GetClient_def)
  from health_accounts_checks [OF m0 run c] show ?thesis
    using m0 run c by (auto simp: GetHealthSnapshot_def outcomes_def List.map_filter_def)
qed

lemma sample_ir_accepted:
  "\<exists>cfg b. PopulateFromIR (\<lambda>_. Inl []) sample_ir = Inr cfg \<and> cfgBackends cfg = [(''b1'', b)] \<and> bEndpoint b = [] \<and>
     bRegion b = ''us-east-1''"
proof -
  have "case PopulateFromIR (\<lambda>_. Inl []) sample_ir of
      Inr cfg \<Rightarrow> map (\<lambda>(k, b). (k, bEndpoint b, bRegion b)) (cfgBackends cfg) = [(''b1'', [], ''us-east-1'')]
    | Inl _ \<Rightarrow> False" by code_simp
  then show ?thesis by (auto split: sum.splits)
qed

theorem manager_of_accepted_config_witness:
  "\<exists>cfg m c. PopulateFromIR (\<lambda>_. Inl []) sample_ir = Inr cfg \<and> NewManager dead_platform cfg 0 = Inr m \<and>
     GetClient m ''b1'' = Inr c \<and> bcRegion c = ''us-east-1''"
proof -
  obtain cfg b where cfg: "PopulateFromIR (\<lambda>_. Inl []) sample_ir = Inr cfg" and b: "cfgBackends cfg = [(''b1'', b)]"
    "bEndpoint b = []" "bRegion b = ''us-east-1''" using sample_ir_accepted by blast
  have "\<forall>(k, b) \<in> set (cfgBackends cfg). backend_ready dead_platform b"
    using b by (simp add: backend_ready_def dead_platform_def inline_environment_def)
  from manager_of_accepted_config [OF cfg _ this, of 0] cfg b show ?thesis by auto
qed

subsection \<open>The path of an upload\<close>

lemma unescape_append:
  "unescape m a = Some x \<Longrightarrow> unescape m (a @ b) = map_option ((@) x) (unescape m b)"
proof (induction m a arbitrary: x rule: unescape.induct)
  case (1 m)
  then show ?case by (cases "unescape m b") auto
next
  case (2 m c s)
  show ?case
  proof (cases "c = CHR ''%''")
    case True
    with "2.prems" obtain p q r y z t where s: "s = p # q # r" and v: "unhex p = Some y" "unhex q = Some z"
      and r: "unescape m r = Some t" and x: "x = char_of (16 * y + z) # t"
      by (auto split: list.splits option.splits)
    from "2.IH"(1) [OF True s refl refl v r] v r x s True show ?thesis
      by (cases "unescape m b") auto
  next
    case False
    with "2.prems" obtain t where r: "unescape m s = Some t"
      and x: "x = (if c = CHR ''+'' \<and> m = EncodeQueryComponent then CHR '' '' else c) # t" by auto
    from "2.IH"(2) [OF False r] x False show ?thesis by (cases "unescape m b") auto
  qed
qed

lemma unescape_mode: "unescape EncodePathSegment s = unescape EncodePath s"
  by (induction "EncodePath" s rule: unescape.induct) (auto split: list.splits option.splits)

lemma validEncoded_escape: "validEncoded (escape EncodePath s)"
proof -
  have "unreserved (hex_upper d)" if "d < 16" for d
  proof -
    have "list_all (\<lambda>d. unreserved (hex_upper d)) [0..<16]" by code_simp
    with that show ?thesis by (simp add: list_all_iff)
  qed
  then have "\<not> shouldEscape EncodePath (hex_upper d)" if "d < 16" for d
    using that by (simp add: shouldEscape_def)
  moreover have "of_char c div 16 < (16 :: nat)" for c :: char
    using nat_of_char_less_256 [of c] by (simp add: less_mult_imp_div_less)
  ultimately have "validEncoded (escape_char EncodePath c)" for c
    by (auto simp: validEncoded_def escape_char_def percent_def)
  then show ?thesis
    by (induction s) (simp_all add: escape_def validEncoded_def)
qed

lemma validEncoded_EscapedPath: "validEncoded (EscapedPath u)"
proof -
  have "validEncoded ''*''" by code_simp
  then show ?thesis using validEncoded_escape by (simp add: EscapedPath_def)
qed

lemma unescape_EscapedPath: "unescape EncodePath (EscapedPath u) = Some (uPath u)"
  using unescape_escape by (auto simp: EscapedPath_def)

definition withSlash :: "string \<Rightarrow> string" where
  "withSlash p = (if HasSuffix p ''/'' then p else p @ ''/'')"

lemma unescape_withSlash: "unescape EncodePath (withSlash (EscapedPath u)) =
    Some (if HasSuffix (EscapedPath u) ''/'' then uPath u else uPath u @ ''/'')"
  using unescape_append [OF unescape_EscapedPath, of u "''/''"]
  by (simp add: withSlash_def unescape_EscapedPath)

lemma appendKey_path:
  "EscapedPath (appendKey key u) =
     (case PathUnescape key of
        None \<Rightarrow> []
      | Some k \<Rightarrow> if validEncoded key then withSlash (EscapedPath u) @ key else EscapedPath (appendKey key u))"
proof -
  have raw: "uRawPath (appendKey key u) = withSlash (EscapedPath u) @ key"
    by (simp add: appendKey_def withSlash_def Let_def)
  have path: "uPath (appendKey key u) =
      (case unescape EncodePath (withSlash (EscapedPath u) @ key) of Some p \<Rightarrow> p | None \<Rightarrow> [])"
    by (simp add: appendKey_def withSlash_def PathUnescape_def unescape_mode Let_def)
  have un: "unescape EncodePath (withSlash (EscapedPath u) @ key) = map_option ((@) (the (unescape EncodePath
      (withSlash (EscapedPath u))))) (unescape EncodePath key)"
    by (rule unescape_append) (simp add: unescape_withSlash)
  have "validEncoded (withSlash (EscapedPath u))"
    using validEncoded_EscapedPath by (simp add: withSlash_def validEncoded_def shouldEscape_def unreserved_def is_digit_def
        is_lower_def is_upper_def less_eq_char_def)
  moreover have "withSlash (EscapedPath u) \<noteq> []" by (auto simp: withSlash_def HasSuffix_iff)
  ultimately show ?thesis
    by (cases "unescape EncodePath key")
      (auto simp: EscapedPath_def [of "appendKey key u"] raw path un PathUnescape_def unescape_mode
        validEncoded_def escape_def)
qed

text \<open>
  C39: for an endpoint of the SDK an upload goes to the path of the endpoint followed by the key as it
  was escaped by the client, so that the backend unescapes it to the same object; when the key is
  not a valid escape, the path is empty and the whole of it is lost.
\<close>

theorem upload_path:
  assumes "rvTemplate rv = None" "resolveSDKEndpointWithOptions rv params = Inr r" "epKey params \<noteq> []"
  shows "\<exists>r'. ResolveEndpointURL parseURL rv params = Inr r' \<and> reHeaders r' = reHeaders r \<and>
    (case PathUnescape (epKey params) of
       None \<Rightarrow> EscapedPath (reURL r') = []
     | Some k \<Rightarrow> validEncoded (epKey params) \<longrightarrow>
         EscapedPath (reURL r') = withSlash (EscapedPath (reURL r)) @ epKey params \<and>
         uPath (reURL r') = (if HasSuffix (EscapedPath (reURL r)) ''/'' then uPath (reURL r) else uPath (reURL r) @ ''/'') @ k)"
proof -
  define r' where "r' = r\<lparr>reURL := appendKey (epKey params) (reURL r)\<rparr>"
  have "ResolveEndpointURL parseURL rv params = Inr r'"
    using assms by (simp add: ResolveEndpointURL_def r'_def)
  moreover have "uPath (reURL r') = (if HasSuffix (EscapedPath (reURL r)) ''/'' then uPath (reURL r)
      else uPath (reURL r) @ ''/'') @ k" if "PathUnescape (epKey params) = Some k" for k
    using unescape_append [OF unescape_withSlash, of "reURL r" "epKey params"] that
    by (auto simp: r'_def appendKey_def withSlash_def PathUnescape_def unescape_mode Let_def)
  ultimately show ?thesis
    using appendKey_path [of "epKey params" "reURL r"]
    by (auto simp: r'_def split: option.splits)
qed

definition path_style_endpoint :: resolver where
  "path_style_endpoint = \<lparr>rvTemplate = None, rvAws = Some (\<lambda>p. Inr (\<lparr>uScheme = ''https'', uHost = ''s3.amazonaws.com'',
     uPath = ''/'' @ toString (skBucket p), uRawPath = [], uRawQuery = []\<rparr>, []))\<rparr>"

definition endpoint_for :: "string \<Rightarrow> endpoint_params" where
  "endpoint_for key = \<lparr>epBucket = ''data'', epKey = key, epRegion = ''us-east-1'', epUseFIPS = False,
     epUseGlobalEndpoint = False, epUseDualStack = False, epAccelerate = False, epUsePathStyle = True\<rparr>"

theorem upload_path_witness:
  "(\<exists>r. ResolveEndpointURL Inl path_style_endpoint (endpoint_for ''a%20b'') = Inr r \<and>
      EscapedPath (reURL r) = ''/data/a%20b'') \<and>
   (\<exists>r. ResolveEndpointURL Inl path_style_endpoint (endpoint_for ''100%/b'') = Inr r \<and> EscapedPath (reURL r) = [])"
proof -
  define u :: url where "u = \<lparr>uScheme = ''https'', uHost = ''s3.amazonaws.com'', uPath = ''/data'', uRawPath = [],
    uRawQuery = []\<rparr>"
  have r: "resolveSDKEndpointWithOptions path_style_endpoint (endpoint_for k) = Inr \<lparr>reURL = u, reHeaders = []\<rparr>" for k
    by (simp add: resolveSDKEndpointWithOptions_def path_style_endpoint_def endpoint_for_def toString_def u_def)
  have keys: "epKey (endpoint_for k) = k" "rvTemplate path_style_endpoint = None" for k
    by (simp_all add: endpoint_for_def path_style_endpoint_def)
  have "withSlash (EscapedPath u) = ''/data/''" unfolding u_def by code_simp
  moreover have "PathUnescape ''a%20b'' = Some ''a b''" "PathUnescape ''100%/b'' = None" "validEncoded ''a%20b''"
    by code_simp+
  ultimately show ?thesis
    using upload_path [OF keys(2) r, of "''a%20b''" Inl] upload_path [OF keys(2) r, of "''100%/b''" Inl]
    by (auto simp: keys(1))
qed

end
