(* ===== verification/Streaming.thy ===== *)
theory Streaming
  imports Backend Routing Signer BucketOps
begin

section \<open>Streaming uploads\<close>

text \<open>
  \<open>internal/backend/proxy/streaming.go\<close>: uploads that are sent to the backend as they are read, over
  the router's own HTTP client, with a signature of the router.  A body in the aws-chunked encoding
  is re-encoded on the way.  Maps of headers are folded in the order of the association list.  The text of a number parsing error is
  left out of the message of the request's error.
\<close>

subsection \<open>Requests to the proxy\<close>

record request_context =
  rcBucket :: string
  rcObjectKey :: string
  rcOperation :: operation
  rcHeaders :: header
  rcPrincipal :: string
  rcMethod :: string
  rcTime :: time
  rcRequest :: request
  rcQueryParams :: url_values

datatype proxy_error =
    AwsError aws_error
  | Plain string
  | BackendFailure backend_error

text \<open>
  The body of the request, as a source of bytes.  An error is its text; the one of \<open>net/http\<close> for a body that
  is shorter than announced is \<open>io.ErrUnexpectedEOF\<close>, which the re-encoder looks for.
\<close>

definition bodySource :: "request \<Rightarrow> string \<times> read_error" where
  "bodySource r = (qBody r, case qBodyErr r of
        None \<Rightarrow> EOF
      | Some e \<Rightarrow> if e = ''unexpected EOF'' then UnexpectedEOF else SourceError e)"

text \<open>A decision of the matcher always has a backend here; without one the code panics.\<close>

definition finalKeyOf :: "'w backend_client \<Rightarrow> decision \<Rightarrow> string" where
  "finalKeyOf bc d = bPrefix (bcConfig bc) @ dRewrittenKey d"

subsection \<open>Headers\<close>

definition copyHeader :: "string \<Rightarrow> header \<Rightarrow> header \<Rightarrow> header" where
  "copyHeader name src dst = (if hGet src name \<noteq> [] then hSet name (hGet src name) dst else dst)"

definition copyMatching :: "(string \<Rightarrow> bool) \<Rightarrow> header \<Rightarrow> header \<Rightarrow> header" where
  "copyMatching matches src dst =
     fold (\<lambda>(key, vals) h. case vals of v # _ \<Rightarrow> if matches key then hSet key v h else h | [] \<Rightarrow> h) src dst"

definition isMetadata :: "string \<Rightarrow> bool" where
  "isMetadata key \<longleftrightarrow> 11 < length key \<and> EqualFold (take 11 key) ''X-Amz-Meta-''"

definition isChecksum :: "string \<Rightarrow> bool" where
  "isChecksum key \<longleftrightarrow> HasPrefix (ToLower key) ''x-amz-checksum-''"

text \<open>The length of the request, when \<open>Content-Length\<close> is set and a number.\<close>

definition copyContentLength :: "header \<Rightarrow> request \<Rightarrow> request" where
  "copyContentLength src req =
     (let cl = hGet src ''Content-Length'' in
      if cl \<noteq> [] then
        (let req1 = req\<lparr>qHeader := hSet ''Content-Length'' cl (qHeader req)\<rparr> in
         case ParseInt cl 10 of Some n \<Rightarrow> req1\<lparr>qContentLength := n\<rparr> | None \<Rightarrow> req1)
      else req)"

definition copyPutObjectHeaders :: "request \<Rightarrow> request_context \<Rightarrow> request" where
  "copyPutObjectHeaders req rc =
     (let src = rcHeaders rc;
          req1 = req\<lparr>qHeader := copyHeader ''Content-Encoding'' src (copyHeader ''Content-Type'' src (qHeader req))\<rparr>;
          req2 = copyContentLength src req1;
          h3 = copyHeader ''x-amz-content-sha256'' src (copyHeader ''Content-MD5'' src (qHeader req2));
          h4 = copyMatching isChecksum src (copyMatching isMetadata src h3);
          h5 = fold (\<lambda>name. copyHeader name src)
                 [''x-amz-storage-class'', ''x-amz-acl'', ''Cache-Control'', ''Content-Disposition'',
                  ''Content-Language'', ''Expires''] h4
      in req2\<lparr>qHeader := h5\<rparr>)"

definition copyUploadPartHeaders :: "request \<Rightarrow> request_context \<Rightarrow> request" where
  "copyUploadPartHeaders req rc =
     (let src = rcHeaders rc;
          req1 = copyContentLength src req;
          h2 = copyHeader ''x-amz-content-sha256'' src (copyHeader ''Content-MD5'' src (qHeader req1))
      in req1\<lparr>qHeader := copyMatching isChecksum src h2\<rparr>)"

definition copyAwsChunkedHeaders :: "request \<Rightarrow> request_context \<Rightarrow> request" where
  "copyAwsChunkedHeaders req rc =
     (let src = rcHeaders rc;
          h1 = copyMatching isMetadata src (copyHeader ''Content-Type'' src (qHeader req));
          h2 = copyMatching (\<lambda>key. 15 < length key \<and> EqualFold (take 15 key) ''X-Amz-Checksum-'') src h1
      in req\<lparr>qHeader := fold (\<lambda>name. copyHeader name src)
           [''x-amz-checksum-algorithm'', ''x-amz-storage-class'', ''x-amz-acl'', ''Cache-Control'',
            ''Content-Disposition''] h2\<rparr>)"

subsection \<open>Eligibility\<close>

definition isStreamingEligible :: "request_context \<Rightarrow> bool \<Rightarrow> bool" where
  "isStreamingEligible rc isCopyOperation \<longleftrightarrow>
     (if hGet (rcHeaders rc) ''Content-Length'' = [] then False
      else if hGet (rcHeaders rc) ''x-amz-trailer'' \<noteq> [] then False
      else \<not> isCopyOperation)"

definition isAwsChunkedEligible :: "request_context \<Rightarrow> bool \<Rightarrow> bool" where
  "isAwsChunkedEligible rc isCopyOperation \<longleftrightarrow>
     (let hasAwsChunkedEncoding = IsAwsChunked (hGet (rcHeaders rc) ''Content-Encoding'');
          hasStreamingPayload = HasPrefix (hGet (rcHeaders rc) ''x-amz-content-sha256'') ''STREAMING-''
      in if \<not> hasAwsChunkedEncoding \<and> \<not> hasStreamingPayload then False
         else if hGet (rcHeaders rc) ''Content-Length'' = [] then False
         else if hGet (rcHeaders rc) ''x-amz-decoded-content-length'' = [] then False
         else \<not> isCopyOperation)"

subsection \<open>The request to the backend\<close>

definition endpointParams :: "'w backend_client \<Rightarrow> string \<Rightarrow> endpoint_params" where
  "endpointParams bc key =
     \<lparr>epBucket = bBucket (bcConfig bc), epKey = key, epRegion = bcRegion bc,
      epUseFIPS = bUseFIPS (bcConfig bc), epUseGlobalEndpoint = bUseGlobalEndpoint (bcConfig bc),
      epUseDualStack = bUseDualStack (bcConfig bc), epAccelerate = bAccelerate (bcConfig bc),
      epUsePathStyle = bUsePathStyle (bcConfig bc)\<rparr>"

text \<open>
  \<open>http.NewRequestWithContext(ctx, PUT, u.String(), body)\<close>: the URL is parsed again, the host loses
  an empty port, and the length of a stream is unknown (0).
\<close>

definition newPutRequest :: "'w platform \<Rightarrow> url \<Rightarrow> string + request" where
  "newPutRequest pl u =
     rmap_err (\<lambda>e. ''failed to create upstream request: '' @ e)
       (rbind (plParseURL pl (plURLString pl u)) (\<lambda>u1.
          let u2 = u1\<lparr>uHost := TrimSuffix (uHost u1) '':''\<rparr> in
          Inr \<lparr>qMethod = ''PUT'', qURL = u2, qHost = uHost u2, qHeader = [], qBody = [], qBodyErr = None,
            qContentLength = 0, qTrailer = []\<rparr>))"

text \<open>The headers of the endpoint are stored under the keys they have.\<close>

definition applyEndpointHeaders :: "header \<Rightarrow> request \<Rightarrow> request" where
  "applyEndpointHeaders hs req = req\<lparr>qHeader := fold (\<lambda>(k, v). AList.update k v) hs (qHeader req)\<rparr>"

text \<open>Resolving the endpoint and making the request, with a query when it is given.\<close>

definition upstreamRequest ::
  "'w platform \<Rightarrow> 'w backend_client \<Rightarrow> string \<Rightarrow> string \<Rightarrow> string option \<Rightarrow> proxy_error fault + request" where
  "upstreamRequest pl bc key resolveMsg query =
     (case ResolveEndpointURL (plParseURL pl) (bcResolver bc) (endpointParams bc key) of
        Inl Panicked \<Rightarrow> Inl Panicked
      | Inl (Failed e) \<Rightarrow> Inl (Failed (Plain (resolveMsg @ '': '' @ e)))
      | Inr re \<Rightarrow>
          (let u = (case query of None \<Rightarrow> reURL re | Some q \<Rightarrow> (reURL re)\<lparr>uRawQuery := q\<rparr>) in
           case newPutRequest pl u of
             Inl e \<Rightarrow> Inl (Failed (Plain e))
           | Inr req \<Rightarrow> Inr (applyEndpointHeaders (reHeaders re) req)))"

definition partQuery :: "string \<Rightarrow> string \<Rightarrow> string" where
  "partQuery uploadID partNumber = ''uploadId='' @ QueryEscape uploadID @ ''&partNumber='' @ partNumber"

definition payloadHashOf :: "request_context \<Rightarrow> string" where
  "payloadHashOf rc =
     (let h = hGet (rcHeaders rc) ''x-amz-content-sha256'' in if h = [] then ''UNSIGNED-PAYLOAD'' else h)"

text \<open>The error body is read in full before it is passed on.\<close>

definition peekS3ErrorResponseResponse :: "stream response \<Rightarrow> proxy_error fault + stream response" where
  "peekS3ErrorResponseResponse resp =
     (case snd (rsBody resp) of
        Some e \<Rightarrow> Inl (Failed (Plain e))
      | None \<Rightarrow> Inr resp)"

type_synonym 'w outcome = "(proxy_error fault + stream response) \<times> 'w"

text \<open>Signing and sending a stream; errors of the backend are read.\<close>

definition sendStream ::
  "'w platform \<Rightarrow> time \<Rightarrow> 'w backend_client \<Rightarrow> request_context \<Rightarrow> request \<Rightarrow> 'w \<Rightarrow> 'w outcome" where
  "sendStream pl now bc rc req w =
     (case SignStreamingRequest (getCredentials (plCred pl) (bcCreds bc)) (bcRegion bc) now req (payloadHashOf rc) of
        Inl Panicked \<Rightarrow> (Inl Panicked, w)
      | Inl (Failed e) \<Rightarrow> (Inl (Failed (Plain (''failed to sign request: '' @ e))), w)
      | Inr sreq \<Rightarrow>
          (case bcDo bc \<lparr>urRequest = sreq, urBody = BodyBytes (bodySource (rcRequest rc))\<rparr> w of
             (Inl e, w1) \<Rightarrow> (Inl (Failed (Plain (''failed to execute upstream request: '' @ e))), w1)
           | (Inr resp, w1) \<Rightarrow>
               (if 400 \<le> rsStatus resp then (peekS3ErrorResponseResponse resp, w1) else (Inr resp, w1))))"

definition streamingPutObject ::
  "'w platform \<Rightarrow> time \<Rightarrow> 'w backend_client \<Rightarrow> request_context \<Rightarrow> decision \<Rightarrow> 'w \<Rightarrow> 'w outcome" where
  "streamingPutObject pl now bc rc d w =
     (case upstreamRequest pl bc (finalKeyOf bc d) ''failed to resolve endpoint URL'' None of
        Inl e \<Rightarrow> (Inl e, w)
      | Inr req \<Rightarrow> sendStream pl now bc rc (copyPutObjectHeaders req rc) w)"

definition streamingUploadPart ::
  "'w platform \<Rightarrow> time \<Rightarrow> 'w backend_client \<Rightarrow> request_context \<Rightarrow> decision \<Rightarrow> string \<Rightarrow> string \<Rightarrow> 'w \<Rightarrow> 'w outcome" where
  "streamingUploadPart pl now bc rc d uploadID partNumber w =
     (case upstreamRequest pl bc (finalKeyOf bc d) ''failed to resolve endpoint URL'' (Some (partQuery uploadID partNumber)) of
        Inl e \<Rightarrow> (Inl e, w)
      | Inr req \<Rightarrow> sendStream pl now bc rc (copyUploadPartHeaders req rc) w)"

subsection \<open>aws-chunked uploads\<close>

definition chunkedHeaders :: "string \<Rightarrow> int \<Rightarrow> request \<Rightarrow> request" where
  "chunkedHeaders decodedContentLength n req =
     req\<lparr>qHeader := hSet ''Content-Length'' (fmt_int n)
           (hSet ''x-amz-decoded-content-length'' decodedContentLength
             (hSet ''Content-Encoding'' ''aws-chunked'' (qHeader req))),
         qContentLength := n\<rparr>"

text \<open>The answer of the transport, as the two operations pass it on.\<close>

definition upstreamAnswer :: "(string + stream response) \<times> 'w \<Rightarrow> 'w outcome" where
  "upstreamAnswer r =
     (case r of
        (Inl e, w1) \<Rightarrow> (Inl (Failed (Plain (''upstream request failed: '' @ e))), w1)
      | (Inr resp, w1) \<Rightarrow> (Inr resp, w1))"

text \<open>
  From a request that is signed: the signature seeds the encoder that becomes its body.  The checks
  before keep the constructor of the encoder from panicking.
\<close>

definition sendReEncoded ::
  "'w platform \<Rightarrow> time \<Rightarrow> 'w backend_client \<Rightarrow> request_context \<Rightarrow> request \<Rightarrow> 'w \<Rightarrow> 'w outcome" where
  "sendReEncoded pl now bc rc req w =
     (case SignStreamingRequestWithCredentials (getCredentials (plCred pl) (bcCreds bc)) (bcRegion bc) now req
         ''STREAMING-AWS4-HMAC-SHA256-PAYLOAD'' of
        Inl Panicked \<Rightarrow> (Inl Panicked, w)
      | Inl (Failed e) \<Rightarrow> (Inl (Failed (Plain (''failed to sign request: '' @ e))), w)
      | Inr (sreq, creds) \<Rightarrow>
          (let seedSignature = ExtractSeedSignature (hGet (qHeader sreq) ''Authorization'');
               amzDate = hGet (qHeader sreq) ''x-amz-date''
           in if seedSignature = [] then
                (Inl (Failed (Plain ''failed to extract seed signature from backend Authorization header'')), w)
              else if amzDate = [] \<or> length amzDate < 8 then
                (Inl (Failed (Plain ''invalid x-amz-date header after signing: must be at least 8 characters'')), w)
              else
                (let signingKey = DeriveSigningKey (awsSecretAccessKey creds) (take 8 amzDate) (bcRegion bc) ''s3'' in
                 case NewAwsChunkedReEncoder (bodySource (rcRequest rc)) signingKey amzDate (bcRegion bc) seedSignature of
                   None \<Rightarrow> (Inl Panicked, w)
                 | Some enc \<Rightarrow>
                     upstreamAnswer (bcDo bc \<lparr>urRequest = sreq, urBody = BodyEncoder enc\<rparr> w))))"

definition streamingAwsChunkedPutObject ::
  "'w platform \<Rightarrow> time \<Rightarrow> 'w backend_client \<Rightarrow> request_context \<Rightarrow> decision \<Rightarrow> 'w \<Rightarrow> 'w outcome" where
  "streamingAwsChunkedPutObject pl now bc rc d w =
     (let decodedContentLength = hGet (rcHeaders rc) ''x-amz-decoded-content-length'' in
      case ParseInt decodedContentLength 10 of
        None \<Rightarrow> (Inl (Failed (Plain ''invalid x-amz-decoded-content-length'')), w)
      | Some decodedLen \<Rightarrow>
          (let n = CalculateReEncodedContentLength decodedLen (64 * 1024) in
           case upstreamRequest pl bc (finalKeyOf bc d) ''failed to resolve endpoint'' None of
             Inl e \<Rightarrow> (Inl e, w)
           | Inr req \<Rightarrow>
               sendReEncoded pl now bc rc (copyAwsChunkedHeaders (chunkedHeaders decodedContentLength n req) rc) w))"

definition streamingAwsChunkedUploadPart ::
  "'w platform \<Rightarrow> time \<Rightarrow> 'w backend_client \<Rightarrow> request_context \<Rightarrow> decision \<Rightarrow> string \<Rightarrow> string \<Rightarrow> 'w \<Rightarrow> 'w outcome" where
  "streamingAwsChunkedUploadPart pl now bc rc d uploadID partNumber w =
     (let decodedContentLength = hGet (rcHeaders rc) ''x-amz-decoded-content-length'' in
      case ParseInt decodedContentLength 10 of
        None \<Rightarrow> (Inl (Failed (Plain ''invalid x-amz-decoded-content-length'')), w)
      | Some decodedLen \<Rightarrow>
          (let n = CalculateReEncodedContentLength decodedLen (64 * 1024) in
           case upstreamRequest pl bc (finalKeyOf bc d) ''failed to resolve endpoint''
               (Some (partQuery uploadID partNumber)) of
             Inl e \<Rightarrow> (Inl e, w)
           | Inr req \<Rightarrow> sendReEncoded pl now bc rc (chunkedHeaders decodedContentLength n req) w))"

subsection \<open>What reaches the backend\<close>

text \<open>The headers that describe an aws-chunked body survive the copying of headers and the signature.\<close>

definition bodyHeaders :: "string list" where
  "bodyHeaders = [''x-amz-decoded-content-length'', ''Content-Encoding'']"

lemma lower_canonical: "ToLower (CanonicalKey k) = ToLower k"
proof -
  have "lower_char (upper_char c) = lower_char c" (is "?P c") for c
  proof (cases "is_lower c")
    case True
    have "\<forall>n \<in> set [97..<123]. ?P (char_of n)" by code_simp
    then show ?thesis by (rule char_range) (use True in \<open>auto simp: is_lower_def less_eq_char_def less_char_def\<close>)
  qed (simp add: upper_char_def)
  moreover have "lower_char (lower_char c) = lower_char c" (is "?P c") for c
  proof (cases "is_upper c")
    case True
    have "\<forall>n \<in> set [65..<91]. ?P (char_of n)" by code_simp
    then show ?thesis by (rule char_range) (use True in \<open>auto simp: is_upper_def less_eq_char_def less_char_def\<close>)
  qed (simp add: lower_char_def)
  ultimately have "map lower_char (canon_chars up s) = map lower_char s" for up s
    by (induction up s rule: canon_chars.induct) auto
  then show ?thesis by (simp add: CanonicalKey_def ToLower_def)
qed

lemma prefix_not_body:
  assumes "ToLower (take n key) = p" "n \<le> length key" "name \<in> set bodyHeaders" "p \<in> {''x-amz-meta-'', ''x-amz-checksum-''}"
    "n = length p"
  shows "CanonicalKey key \<noteq> CanonicalKey name"
proof
  assume "CanonicalKey key = CanonicalKey name"
  then have "ToLower key = ToLower name" by (metis lower_canonical)
  moreover have "take n (ToLower key) = p" using assms(1) by (simp add: ToLower_def take_map)
  ultimately have "take n (ToLower name) = p" by simp
  moreover have "\<forall>name \<in> set bodyHeaders. \<forall>p \<in> set [''x-amz-meta-'', ''x-amz-checksum-'']. take (length p) (ToLower name) \<noteq> p"
    by code_simp
  moreover have "p \<in> set [''x-amz-meta-'', ''x-amz-checksum-'']" using assms(4) by simp
  ultimately show False using assms(3) unfolding assms(5) by blast
qed

lemma copyMatching_other:
  "(\<And>key. matches key \<Longrightarrow> CanonicalKey key \<noteq> CanonicalKey name) \<Longrightarrow>
    hGet (copyMatching matches src dst) name = hGet dst name"
  unfolding copyMatching_def by (induction src arbitrary: dst) (auto split: list.split)

lemma copyHeader_other: "CanonicalKey n \<noteq> CanonicalKey name \<Longrightarrow> hGet (copyHeader n src dst) name = hGet dst name"
  by (simp add: copyHeader_def)

lemma other_names:
  "\<forall>name \<in> set bodyHeaders. \<forall>n \<in> set [''Content-Type'', ''x-amz-checksum-algorithm'', ''x-amz-storage-class'', ''x-amz-acl'',
      ''Cache-Control'', ''Content-Disposition'', ''Content-Length'', ''Authorization'', ''x-amz-date'', ''x-amz-content-sha256'',
      ''x-amz-security-token'', ''host'', ''Host'', ''X-Amz-Date'', ''X-Amz-Content-Sha256'', ''X-Amz-Security-Token''].
     CanonicalKey n \<noteq> CanonicalKey name"
  by code_simp

lemma copyAwsChunkedHeaders_body:
  assumes "name \<in> set bodyHeaders"
  shows "hGet (qHeader (copyAwsChunkedHeaders req rc)) name = hGet (qHeader req) name"
proof -
  have low: "ToLower ''X-Amz-Meta-'' = ''x-amz-meta-''" "ToLower ''X-Amz-Checksum-'' = ''x-amz-checksum-''" by code_simp+
  have "CanonicalKey key \<noteq> CanonicalKey name" if "isMetadata key" for key
    using that assms low by (intro prefix_not_body [of 11]) (auto simp: isMetadata_def EqualFold_def)
  moreover have "CanonicalKey key \<noteq> CanonicalKey name" if "15 < length key \<and> EqualFold (take 15 key) ''X-Amz-Checksum-''" for key
    using that assms low by (intro prefix_not_body [of 15]) (auto simp: EqualFold_def)
  ultimately show ?thesis
    using other_names assms by (simp add: copyAwsChunkedHeaders_def Let_def copyMatching_other copyHeader_other)
qed

lemma SignRequest_body:
  assumes "SignRequest s now req p = Some r" "name \<in> set bodyHeaders"
  shows "hGet (qHeader r) name = hGet (qHeader req) name"
proof -
  note k = other_names [THEN bspec, OF assms(2), THEN bspec]
  have k: "CanonicalKey ''x-amz-date'' \<noteq> CanonicalKey name" "CanonicalKey ''x-amz-content-sha256'' \<noteq> CanonicalKey name"
    "CanonicalKey ''x-amz-security-token'' \<noteq> CanonicalKey name" "CanonicalKey ''Authorization'' \<noteq> CanonicalKey name"
    by (rule k, simp)+
  let ?h = "snd (prepareHeaders s now p (qHeader req))"
  obtain auth where "qHeader r = hSet ''Authorization'' auth ?h"
    using assms(1) unfolding SignRequest_def Let_def split_def by (auto split: if_split_asm)
  moreover have "hGet ?h name = hGet (qHeader req) name"
    unfolding prepareHeaders_def Let_def snd_conv by (simp only: hGet_hSet k if_False if_distrib [of "\<lambda>h. hGet h name"] if_cancel)
  ultimately show ?thesis by (simp only: hGet_hSet k if_False)
qed

lemma SignRequest_content_length: "SignRequest s now req p = Some r \<Longrightarrow> qContentLength r = qContentLength req"
  by (auto simp: SignRequest_def Let_def split_def split: if_splits)

lemma sendReEncoded_cases:
  "(\<exists>e. sendReEncoded pl now bc rc req w = (Inl e, w)) \<or>
   (\<exists>sreq (creds :: aws_credentials) enc. sendReEncoded pl now bc rc req w =
        upstreamAnswer (bcDo bc \<lparr>urRequest = sreq, urBody = BodyEncoder enc\<rparr> w) \<and>
      qContentLength sreq = qContentLength req \<and>
      (qURL sreq = qURL req \<and> qMethod sreq = qMethod req \<and> qHost sreq = qHost req) \<and>
      (\<forall>name \<in> set bodyHeaders. hGet (qHeader sreq) name = hGet (qHeader req) name) \<and>
      NewAwsChunkedReEncoder (bodySource (rcRequest rc))
        (DeriveSigningKey (awsSecretAccessKey creds) (take 8 (hGet (qHeader sreq) ''x-amz-date'')) (bcRegion bc) ''s3'')
        (hGet (qHeader sreq) ''x-amz-date'') (bcRegion bc)
        (ExtractSeedSignature (hGet (qHeader sreq) ''Authorization'')) = Some enc)"
proof (cases "SignStreamingRequestWithCredentials (getCredentials (plCred pl) (bcCreds bc)) (bcRegion bc) now req
    ''STREAMING-AWS4-HMAC-SHA256-PAYLOAD''")
  case (Inl e)
  then show ?thesis by (cases e) (simp_all add: sendReEncoded_def)
next
  case (Inr sc)
  obtain sreq creds where sc: "sc = (sreq, creds)" by (cases sc)
  have len: "qContentLength sreq = qContentLength req"
    using Inr SignRequest_content_length
    by (fastforce simp: sc SignStreamingRequestWithCredentials_def split: sum.splits option.splits)
  have goal: "qURL sreq = qURL req \<and> qMethod sreq = qMethod req \<and> qHost sreq = qHost req"
    using Inr SignRequest_keeps
    by (fastforce simp: sc SignStreamingRequestWithCredentials_def split: sum.splits option.splits)
  have heads: "\<forall>name \<in> set bodyHeaders. hGet (qHeader sreq) name = hGet (qHeader req) name"
    using Inr SignRequest_body
    by (fastforce simp: sc SignStreamingRequestWithCredentials_def split: sum.splits option.splits)
  let ?date = "hGet (qHeader sreq) ''x-amz-date''"
  let ?seed = "ExtractSeedSignature (hGet (qHeader sreq) ''Authorization'')"
  let ?enc = "NewAwsChunkedReEncoder (bodySource (rcRequest rc))
    (DeriveSigningKey (awsSecretAccessKey creds) (take 8 ?date) (bcRegion bc) ''s3'') ?date (bcRegion bc) ?seed"
  have eq: "sendReEncoded pl now bc rc req w =
      (if ?seed = [] then (Inl (Failed (Plain ''failed to extract seed signature from backend Authorization header'')), w)
       else if ?date = [] \<or> length ?date < 8 then
         (Inl (Failed (Plain ''invalid x-amz-date header after signing: must be at least 8 characters'')), w)
       else case ?enc of None \<Rightarrow> (Inl Panicked, w)
         | Some enc \<Rightarrow> upstreamAnswer (bcDo bc \<lparr>urRequest = sreq, urBody = BodyEncoder enc\<rparr> w))"
    by (simp add: sendReEncoded_def Inr sc Let_def)
  show ?thesis
  proof (cases "?seed = [] \<or> ?date = [] \<or> length ?date < 8 \<or> ?enc = None")
    case True
    then show ?thesis unfolding eq by auto
  next
    case False
    then obtain enc where enc: "?enc = Some enc" by blast
    then have run: "sendReEncoded pl now bc rc req w =
        upstreamAnswer (bcDo bc \<lparr>urRequest = sreq, urBody = BodyEncoder enc\<rparr> w)"
      using False unfolding eq by simp
    show ?thesis
      by (rule disjI2, rule exI [of _ sreq], rule exI [of _ creds], rule exI [of _ enc]) (simp add: run len goal heads enc)
  qed
qed

text \<open>
  The request and the encoder agree: draining the encoder ends with the bytes the announced length
  counts, those bytes carry the payload, and the headers give its size and its encoding.
\<close>

definition carriesPayload :: "upstream \<Rightarrow> string \<Rightarrow> bool" where
  "carriesPayload u data \<longleftrightarrow>
     hGet (qHeader (urRequest u)) ''x-amz-decoded-content-length'' = fmt_d (length data) \<and>
     hGet (qHeader (urRequest u)) ''Content-Encoding'' = ''aws-chunked'' \<and>
     (\<exists>enc key scope out. urBody u = BodyEncoder enc \<and> qContentLength (urRequest u) = int (length out) \<and>
        out = encodeAll (signChunk key (hGet (qHeader (urRequest u)) ''x-amz-date'') scope) 65536
          (ExtractSeedSignature (hGet (qHeader (urRequest u)) ''Authorization'')) data \<and>
        (\<forall>n fuel. 0 < n \<longrightarrow> length out < fuel \<longrightarrow> drain fuel n enc = Some out))"

text \<open>The upload of a client: its body is a well-formed aws-chunked text and its headers tell the size.\<close>

definition uploadOf :: "request_context \<Rightarrow> string \<Rightarrow> bool" where
  "uploadOf rc data \<longleftrightarrow>
     (\<exists>chunks ext trailers e. bodySource (rcRequest rc) = (sourceText chunks ext trailers, e) \<and>
        list_all chunk_ok chunks \<and> CHR 0x0A \<notin> set ext \<and> (\<forall>t \<in> set trailers. trailer_ok t) \<and>
        payload chunks = data) \<and>
     hGet (rcHeaders rc) ''x-amz-decoded-content-length'' = fmt_d (length data) \<and>
     (\<forall>sign prev. (\<forall>p c. length (sign p c) = 64) \<longrightarrow> length (encodeAll sign 65536 prev data) < 2 ^ 63)"

lemma sendReEncoded_carries:
  assumes "uploadOf rc data" "qContentLength req = CalculateReEncodedContentLength (int (length data)) 65536"
    "hGet (qHeader req) ''x-amz-decoded-content-length'' = fmt_d (length data)" "hGet (qHeader req) ''Content-Encoding'' = ''aws-chunked''"
  shows "(\<exists>e. sendReEncoded pl now bc rc req w = (Inl e, w)) \<or>
    (\<exists>u. sendReEncoded pl now bc rc req w = upstreamAnswer (bcDo bc u w) \<and> carriesPayload u data)"
  using sendReEncoded_cases [of pl now bc rc req w]
proof (elim disjE exE conjE)
  fix sreq :: request and creds :: aws_credentials and enc
  let ?date = "hGet (qHeader sreq) ''x-amz-date''"
  let ?seed = "ExtractSeedSignature (hGet (qHeader sreq) ''Authorization'')"
  assume run: "sendReEncoded pl now bc rc req w = upstreamAnswer (bcDo bc \<lparr>urRequest = sreq, urBody = BodyEncoder enc\<rparr> w)"
    and len: "qContentLength sreq = qContentLength req"
    and heads: "\<forall>name \<in> set bodyHeaders. hGet (qHeader sreq) name = hGet (qHeader req) name"
    and enc: "NewAwsChunkedReEncoder (bodySource (rcRequest rc))
        (DeriveSigningKey (awsSecretAccessKey creds) (take 8 ?date) (bcRegion bc) ''s3'') ?date (bcRegion bc) ?seed = Some enc"
  from assms(1) obtain chunks ext trailers e where b: "bodySource (rcRequest rc) = (sourceText chunks ext trailers, e)"
    "list_all chunk_ok chunks" "CHR 0x0A \<notin> set ext" "\<forall>t \<in> set trailers. trailer_ok t" "payload chunks = data"
    by (auto simp: uploadOf_def)
  define key where "key = DeriveSigningKey (awsSecretAccessKey creds) (take 8 ?date) (bcRegion bc) ''s3''"
  define scope where "scope = take 8 ?date @ ''/'' @ bcRegion bc @ ''/s3/aws4_request''"
  define out where "out = encodeAll (signChunk key ?date scope) 65536 ?seed data"
  have "length out < 2 ^ 63"
    using assms(1) length_signChunk unfolding uploadOf_def out_def by blast
  then have "CalculateReEncodedContentLength (int (length data)) 65536 = int (length out)"
    using announced_length [of 65536 key ?date scope ?seed data] by (simp add: out_def)
  moreover have "drain fuel n enc = Some out" if "0 < n" "length out < fuel" for n fuel
    using drained_output [OF b(2-4) enc [unfolded b(1)] that(1) _ that(2)] b(5) by (simp add: out_def key_def scope_def)
  ultimately have "carriesPayload \<lparr>urRequest = sreq, urBody = BodyEncoder enc\<rparr> data"
    unfolding carriesPayload_def using len assms(2-4) heads
    by (intro conjI exI [of _ enc] exI [of _ key] exI [of _ scope] exI [of _ out]) (simp_all add: out_def bodyHeaders_def)
  with run show ?thesis by blast
qed blast

lemma copyMatching_content_length [simp]: "qContentLength (copyAwsChunkedHeaders req rc) = qContentLength req"
  by (simp add: copyAwsChunkedHeaders_def Let_def)

text \<open>
  C10: an aws-chunked upload, as an object or as a part, whose body is a well-formed aws-chunked text and whose
  \<open>x-amz-decoded-content-length\<close> truly is the length of the payload: when it reaches the backend, it carries
  the client's payload.  The length announced for it is the length of what the transport reads from the
  encoder, which is the payload in chunks signed from the signature of that very request, and its headers
  name the size of the payload and the encoding, whatever headers the client sends along.  Otherwise
  nothing is sent and the operation fails.  The encoded length is below 2^63.
\<close>

theorem upload_carries_payload:
  assumes "uploadOf rc data" "length data < 2 ^ 63"
    "run = streamingAwsChunkedPutObject pl now bc rc d w \<or>
     run = streamingAwsChunkedUploadPart pl now bc rc d uploadID partNumber w"
  shows "(\<exists>e. run = (Inl e, w)) \<or>
    (\<exists>u. run = upstreamAnswer (bcDo bc u w) \<and> carriesPayload u data)"
proof -
  have n: "ParseInt (fmt_d (length data)) 10 = Some (int (length data))"
    using assms(2) ParseInt_fmt [of 10 "length data"] by (simp add: fmt_d_def)
  have h: "hGet (rcHeaders rc) ''x-amz-decoded-content-length'' = fmt_d (length data)" using assms(1) by (simp add: uploadOf_def)
  have k: "\<forall>name \<in> set bodyHeaders. CanonicalKey ''Content-Length'' \<noteq> CanonicalKey name"
    "CanonicalKey ''Content-Encoding'' \<noteq> CanonicalKey ''x-amz-decoded-content-length''"
    using other_names by simp code_simp
  have b: "hGet (qHeader (chunkedHeaders (fmt_d (length data)) i req)) ''x-amz-decoded-content-length'' = fmt_d (length data) \<and>
      hGet (qHeader (chunkedHeaders (fmt_d (length data)) i req)) ''Content-Encoding'' = ''aws-chunked''" for i req
    using k by (auto simp: chunkedHeaders_def bodyHeaders_def)
  let ?n = "CalculateReEncodedContentLength (int (length data)) 65536"
  have "qContentLength (chunkedHeaders (fmt_d (length data)) ?n req) = ?n" for req by (simp add: chunkedHeaders_def)
  with b have sent: "(\<exists>e. sendReEncoded pl now bc rc req' w = (Inl e, w)) \<or>
      (\<exists>u. sendReEncoded pl now bc rc req' w = upstreamAnswer (bcDo bc u w) \<and> carriesPayload u data)"
    if "req' = chunkedHeaders (fmt_d (length data)) ?n req \<or>
      req' = copyAwsChunkedHeaders (chunkedHeaders (fmt_d (length data)) ?n req) rc" for req req'
    using that by (intro sendReEncoded_carries [OF assms(1)]) (auto simp: copyAwsChunkedHeaders_body bodyHeaders_def)
  from assms(3) show ?thesis
  proof
    assume "run = streamingAwsChunkedPutObject pl now bc rc d w"
    with sent [OF disjI2 [OF refl]] show ?thesis
      by (simp add: streamingAwsChunkedPutObject_def n h Let_def split: sum.split)
  next
    assume "run = streamingAwsChunkedUploadPart pl now bc rc d uploadID partNumber w"
    with sent [OF disjI1 [OF refl]] show ?thesis
      by (simp add: streamingAwsChunkedUploadPart_def n h Let_def split: sum.split)
  qed
qed

definition sample_upload :: request_context where
  "sample_upload = \<lparr>rcBucket = ''media'', rcObjectKey = ''a'', rcOperation = NoOperation,
     rcHeaders = [(''X-Amz-Decoded-Content-Length'', [''11'']), (''Content-Encoding'', [''aws-chunked'']),
       (''Content-Length'', [''200''])],
     rcPrincipal = ''AK'', rcMethod = ''PUT'', rcTime = 0,
     rcRequest = sample_request\<lparr>qBody := sourceText [(''chunk-signature=ab'', ''hello''), (''x'', '' world'')] [] []\<rparr>,
     rcQueryParams = []\<rparr>"

definition dead_client :: "nat backend_client" where
  "dead_client = \<lparr>bcConfig = dead_backend, bcRegion = ''us-east-1'', bcResolver = path_style_endpoint,
     bcS3Client = \<lparr>scOperations = failing_operations, scHeadBucket = \<lambda>b n. (None, n)\<rparr>,
     bcOperations = failing_operations, bcCreds = DefaultProvider,
     bcDo = \<lambda>u n. (Inr \<lparr>rsStatus = 200, rsHeader = [], rsBody = ([], None)\<rparr>, Suc n),
     bcHealth = \<lparr>hHealthy = True, hLastCheck = 0, hLastError = [], hConsecutiveFailures = 0\<rparr>\<rparr>"

lemma sample_upload_ok: "uploadOf sample_upload ''hello world''"
  unfolding uploadOf_def
proof (intro conjI allI impI)
  show "\<exists>chunks ext trailers e. bodySource (rcRequest sample_upload) = (sourceText chunks ext trailers, e) \<and>
      list_all chunk_ok chunks \<and> CHR 0x0A \<notin> set ext \<and> (\<forall>t \<in> set trailers. trailer_ok t) \<and>
      payload chunks = ''hello world''"
    by (rule exI [of _ "[(''chunk-signature=ab'', ''hello''), (''x'', '' world'')]"], rule exI [of _ "[]"],
        rule exI [of _ "[]"], rule exI [of _ EOF])
      (simp add: bodySource_def sample_upload_def sample_request_def chunk_ok_def payload_def)
  show "hGet (rcHeaders sample_upload) ''x-amz-decoded-content-length'' = fmt_d (length ''hello world'')"
    unfolding sample_upload_def by code_simp
next
  fix sign :: signer and prev
  assume sig: "\<forall>p c. length (sign p c) = 64"
  then show "length (encodeAll sign 65536 prev ''hello world'') < 2 ^ 63"
    by (simp add: encodeAll.simps [of sign 65536 prev] encodeAll.simps [of sign 65536 _ "[]"] Let_def
        chunkText_def finalText_def CRLF_def fmt_x_def digits_base.simps)
qed

text \<open>A backend that answers: URLs are parsed, its credentials are in the configuration, and every upload is counted.\<close>

definition live_platform :: "nat platform" where
  "live_platform = dead_platform\<lparr>plParseURL := \<lambda>_. Inr \<lparr>uScheme = ''https'', uHost = ''s3.amazonaws.com'', uPath = ''/phys/p/a'',
     uRawPath = [], uRawQuery = []\<rparr>\<rparr>"

definition live_client :: "nat backend_client" where
  "live_client = dead_client\<lparr>bcCreds :=
     InlineProvider \<lparr>awsAccessKeyID = ''AK'', awsSecretAccessKey = ''sk'', awsSessionToken = []\<rparr>\<rparr>"

definition sample_target :: decision where
  "sample_target = \<lparr>dBackend = Some dead_backend, dRewrittenKey = ''a'', dOriginalKey = ''a'', dRouteIndex = 0\<rparr>"

definition live_request :: request where
  "live_request = copyAwsChunkedHeaders (chunkedHeaders ''11'' (CalculateReEncodedContentLength 11 65536)
     \<lparr>qMethod = ''PUT'', qURL = \<lparr>uScheme = ''https'', uHost = ''s3.amazonaws.com'', uPath = ''/phys/p/a'', uRawPath = [], uRawQuery = []\<rparr>,
       qHost = ''s3.amazonaws.com'', qHeader = [], qBody = [], qBodyErr = None, qContentLength = 0, qTrailer = []\<rparr>) sample_upload"

lemma strIndex_append:
  assumes "strIndex (p @ butlast sep) sep = None" "sep \<noteq> []"
  shows "strIndex (p @ sep @ x) sep = Some (length p)"
  using assms
proof (induction p)
  case Nil
  then show ?case by (cases sep) (auto simp: HasPrefix_iff)
next
  case (Cons c p)
  have "\<not> HasPrefix ((c # p) @ butlast sep) sep" "strIndex (p @ butlast sep) sep = None"
    using Cons.prems by (auto split: if_splits)
  moreover have "HasPrefix ((c # p) @ butlast sep) sep" if "HasPrefix ((c # p) @ sep @ x) sep"
  proof -
    from that have "sep = take (length sep) ((c # p) @ sep @ x)" by (auto simp: HasPrefix_iff)
    also have "\<dots> = take (length sep) ((c # p) @ butlast sep)"
      using Cons.prems(2) by (cases sep rule: rev_cases) auto
    finally have "(c # p) @ butlast sep = sep @ drop (length sep) ((c # p) @ butlast sep)" by (metis append_take_drop_id)
    then show ?thesis by (metis HasPrefix_iff)
  qed
  ultimately show ?case using Cons.IH Cons.prems(2) by auto
qed
definition live_signer :: s3_signer where
  "live_signer = NewS3Signer \<lparr>awsAccessKeyID = ''AK'', awsSecretAccessKey = ''sk'', awsSessionToken = []\<rparr> ''us-east-1''"

definition live_time :: time where
  "live_time = 946684800 * Second"

lemma live_request_made:
  "upstreamRequest live_platform live_client (finalKeyOf live_client sample_target) ''failed to resolve endpoint'' None =
     Inr \<lparr>qMethod = ''PUT'', qURL = \<lparr>uScheme = ''https'', uHost = ''s3.amazonaws.com'', uPath = ''/phys/p/a'', uRawPath = [], uRawQuery = []\<rparr>,
       qHost = ''s3.amazonaws.com'', qHeader = [], qBody = [], qBodyErr = None, qContentLength = 0, qTrailer = []\<rparr> \<and>
   ParseInt ''11'' 10 = Some 11"
  by code_simp

lemma live_headers:
  "let h = snd (prepareHeaders live_signer live_time ''STREAMING-AWS4-HMAC-SHA256-PAYLOAD'' (qHeader live_request));
       sep = ''Signature='' in
   hGet h ''x-amz-date'' = ''20000101T000000Z'' \<and>
   strIndex ((''AWS4-HMAC-SHA256 Credential='' @ ''AK'' @ ''/'' @ credentialScope ''20000101'' ''us-east-1'' @
      '', SignedHeaders='' @ getSignedHeaders (live_request\<lparr>qHeader := h\<rparr>) @ '', '') @ butlast sep) sep = None"
  by code_simp

lemma ExtractSeedSignature_of:
  assumes "strIndex (p @ butlast ''Signature='') ''Signature='' = None"
  shows "ExtractSeedSignature (p @ ''Signature='' @ EncodeToString x) = EncodeToString x"
proof -
  have "CHR '','' \<notin> set (EncodeToString x)" "TrimSpace (EncodeToString x) = EncodeToString x"
    using hex_plain TrimSpace_id by blast+
  moreover have "strIndex (p @ ''Signature='' @ EncodeToString x) ''Signature='' = Some (length p)"
    by (rule strIndex_append [OF assms]) simp
  ultimately show ?thesis by (simp add: ExtractSeedSignature_def Let_def IndexByte_None [THEN iffD2])
qed

lemma live_signed:
  "\<exists>r x. SignRequest live_signer live_time live_request ''STREAMING-AWS4-HMAC-SHA256-PAYLOAD'' = Some r \<and>
     hGet (qHeader r) ''x-amz-date'' = ''20000101T000000Z'' \<and>
     ExtractSeedSignature (hGet (qHeader r) ''Authorization'') = EncodeToString (hmacSHA256 (fst x) (snd x))"
proof -
  define h where "h = snd (prepareHeaders live_signer live_time ''STREAMING-AWS4-HMAC-SHA256-PAYLOAD'' (qHeader live_request))"
  have h: "hGet h ''x-amz-date'' = ''20000101T000000Z''"
    "strIndex ((''AWS4-HMAC-SHA256 Credential='' @ ''AK'' @ ''/'' @ credentialScope ''20000101'' ''us-east-1'' @
      '', SignedHeaders='' @ getSignedHeaders (live_request\<lparr>qHeader := h\<rparr>) @ '', '') @ butlast ''Signature='') ''Signature='' = None"
    using live_headers unfolding Let_def h_def by blast+
  have c: "CanonicalKey ''Authorization'' \<noteq> CanonicalKey ''x-amz-date''" by code_simp
  obtain p h' where ph: "prepareHeaders live_signer live_time ''STREAMING-AWS4-HMAC-SHA256-PAYLOAD'' (qHeader live_request) = (p, h')"
    by fastforce
  then have "h' = h" by (simp add: h_def)
  note e = ExtractSeedSignature_of [OF h(2)]
  have l: "sgRegion live_signer = ''us-east-1''" "awsAccessKeyID (sgCredentials live_signer) = ''AK''"
    by (simp_all add: live_signer_def NewS3Signer_def)
  show ?thesis
    using h(1) c e by (simp add: SignRequest_def Let_def ph \<open>h' = h\<close> l) blast
qed


lemma live_credentials:
  "SignStreamingRequestWithCredentials (getCredentials (plCred live_platform) (bcCreds live_client)) (bcRegion live_client) now req h =
     (case SignRequest live_signer now req h of None \<Rightarrow> Inl Panicked
      | Some r \<Rightarrow> Inr (r, \<lparr>awsAccessKeyID = ''AK'', awsSecretAccessKey = ''sk'', awsSessionToken = []\<rparr>))"
  by (simp add: SignStreamingRequestWithCredentials_def live_client_def dead_client_def inlineGet_def live_signer_def)

lemma live_upload_sent:
  "snd (streamingAwsChunkedPutObject live_platform live_time live_client sample_upload sample_target 0) = 1"
proof -
  obtain r x where r: "SignRequest live_signer live_time live_request ''STREAMING-AWS4-HMAC-SHA256-PAYLOAD'' = Some r"
    "hGet (qHeader r) ''x-amz-date'' = ''20000101T000000Z''"
    "ExtractSeedSignature (hGet (qHeader r) ''Authorization'') = EncodeToString (hmacSHA256 (fst x) (snd x))"
    using live_signed by blast
  have "EncodeToString (hmacSHA256 (fst x) (snd x)) \<noteq> []"
    using length_EncodeToString [of "hmacSHA256 (fst x) (snd x)"] by (auto simp flip: length_0_conv)
  with r have "snd (sendReEncoded live_platform live_time live_client sample_upload live_request 0) = 1"
    by (simp add: sendReEncoded_def live_credentials Let_def NewAwsChunkedReEncoder_def upstreamAnswer_def)
      (simp add: live_client_def dead_client_def)
  moreover have "hGet (rcHeaders sample_upload) ''x-amz-decoded-content-length'' = ''11''"
    unfolding sample_upload_def by code_simp
  ultimately show ?thesis
    using live_request_made by (simp add: streamingAwsChunkedPutObject_def Let_def live_request_def)
qed

theorem upload_carries_payload_witness:
  "\<exists>u. streamingAwsChunkedPutObject live_platform live_time live_client sample_upload sample_target 0 =
      upstreamAnswer (bcDo live_client u 0) \<and> carriesPayload u ''hello world''"
  using upload_carries_payload [OF sample_upload_ok _ disjI1 [OF refl], of live_platform live_time live_client sample_target 0]
    live_upload_sent by auto

text \<open>The number of a part is not escaped: it can add parameters to the query of the upload.\<close>

lemma part_number_injects: "vHas (Query (partQuery ''id'' ''1&acl'')) ''acl''"
  by code_simp

end
