(* ===== verification/Executor.thy ===== *)
theory Executor
  imports Streaming
begin

section \<open>Executing a request at its backend\<close>

text \<open>
  \<open>internal/backend/proxy/executor.go\<close>: every S3 operation on objects, from the request and the
  routing decision to the input of the SDK, and from the SDK's output or error to a response.

  An XML body of a response is the Go value it is marshalled from; decoding the XML bodies of requests is
  a record of functions.  The state outside is threaded through the operations; the matcher, whose
  cache is updated by a look-up, is threaded through those that use it.  A dereferenced nil pointer
  is a panic.
\<close>

subsection \<open>Responses\<close>

record part_entry =
  ptNumber :: int
  ptETag :: string
  ptSize :: int

record grant_entry =
  gxXMLNS :: string
  gxType :: string
  gxID :: string
  gxDisplayName :: string
  gxPermission :: string

datatype proxy_document =
    S3ErrorXml string string
  | TaggingXml string "(string \<times> string) list"
  | InitiateXml string string string
  | CompleteXml string string string string
  | ListPartsXml string string string int bool "part_entry list"
  | DeleteResultXml "string list"
  | CopyResultXml string string
  | AclXml string string string "grant_entry list"

datatype proxy_body = Raw stream | Document proxy_document

type_synonym proxy_response = "proxy_body response"

definition emptyResponse :: "nat \<Rightarrow> proxy_response" where
  "emptyResponse status = \<lparr>rsStatus = status, rsHeader = [], rsBody = Raw ([], None)\<rparr>"

definition documentResponse :: "nat \<Rightarrow> proxy_document \<Rightarrow> proxy_response" where
  "documentResponse status doc =
     \<lparr>rsStatus = status, rsHeader = hSet ''Content-Type'' ''application/xml'' [], rsBody = Document doc\<rparr>"

type_synonym 'w proxied = "(proxy_error fault + proxy_response) \<times> 'w"

subsection \<open>Keys\<close>

definition hexValue :: "char \<Rightarrow> nat" where
  "hexValue c =
     (if is_digit c then of_char c - 48
      else if CHR ''A'' \<le> c \<and> c \<le> CHR ''F'' then of_char c - 55
      else if CHR ''a'' \<le> c \<and> c \<le> CHR ''f'' then of_char c - 87
      else 255)"

fun conservativePathUnescape :: "string \<Rightarrow> string" where
  "conservativePathUnescape [] = []"
| "conservativePathUnescape (c # s) =
     (if c = CHR ''%'' then
        (case s of
           h # l # r \<Rightarrow>
             (if hexValue h \<noteq> 255 \<and> hexValue l \<noteq> 255
              then char_of (16 * hexValue h + hexValue l) # conservativePathUnescape r
              else CHR ''%'' # conservativePathUnescape s)
         | _ \<Rightarrow> CHR ''%'' # conservativePathUnescape s)
      else c # conservativePathUnescape s)"

definition objectKeyOf :: "'w backend_client \<Rightarrow> decision \<Rightarrow> string" where
  "objectKeyOf bc d = conservativePathUnescape (finalKeyOf bc d)"

subsection \<open>Errors of the backend\<close>

text \<open>The status and the code an API error is answered with.\<close>

definition statusOfCode :: "string \<Rightarrow> nat \<times> string" where
  "statusOfCode code =
     (if code = ''NoSuchKey'' then (404, code)
      else if code = ''NoSuchBucket'' then (404, code)
      else if code = ''NotFound'' then (404, ''NoSuchKey'')
      else if code = ''AccessDenied'' then (403, code)
      else if code = ''InvalidArgument'' then (400, code)
      else if code = ''MalformedXML'' then (400, code)
      else if code = ''PreconditionFailed'' then (412, code)
      else if code = ''Conflict'' then (409, code)
      else if code = ''NotModified'' then (304, code)
      else (0, code))"

definition statusOfHTTP :: "nat option \<Rightarrow> string \<Rightarrow> nat \<times> string" where
  "statusOfHTTP status code =
     (if status = Some 404 then (404, ''NoSuchKey'')
      else if status = Some 403 then (403, ''AccessDenied'')
      else if status = Some 412 then (412, ''PreconditionFailed'')
      else if status = Some 304 then (304, ''NotModified'')
      else (0, code))"

definition awsErrorToHTTPResponse :: "aws_error \<Rightarrow> proxy_error + proxy_response" where
  "awsErrorToHTTPResponse err =
     (let (apiCode, message) = (case errAPI err of Some (c, m) \<Rightarrow> (c, m) | None \<Rightarrow> ([], errText err));
          (status1, code1) = (if errAPI err = None then (0, []) else statusOfCode apiCode);
          (status, code) = (if status1 = 0 then statusOfHTTP (errStatus err) code1 else (status1, code1))
      in if status = 0 then Inl (AwsError err)
         else Inr (documentResponse status (S3ErrorXml code message)))"

text \<open>An operation of the backend, what its error becomes, and what is done with its output.\<close>

definition callBackend ::
  "('w, 'i, 'o) s3_operation \<Rightarrow> 'i \<Rightarrow> ('o \<Rightarrow> proxy_error fault + proxy_response) \<Rightarrow> 'w \<Rightarrow> 'w proxied" where
  "callBackend operation input respond w =
     (case operation input w of
        (Inl Panicked, w1) \<Rightarrow> (Inl Panicked, w1)
      | (Inl (Failed e), w1) \<Rightarrow> (rmap_err Failed (awsErrorToHTTPResponse e), w1)
      | (Inr output, w1) \<Rightarrow> (respond output, w1))"

definition nonEmpty :: "string \<Rightarrow> string option" where
  "nonEmpty s = (if s = [] then None else Some s)"

definition setOptional :: "string \<Rightarrow> string option \<Rightarrow> header \<Rightarrow> header" where
  "setOptional name v h = (case v of Some x \<Rightarrow> hSet name x h | None \<Rightarrow> h)"

subsection \<open>Reading objects\<close>

definition conditionTime :: "header \<Rightarrow> string \<Rightarrow> time option" where
  "conditionTime h name = (let v = hGet h name in if v = [] then None else parse_http v)"

text \<open>The headers of an object; metadata keys are stored in lower case, not canonicalised.\<close>

definition objectHeaders :: "string option \<Rightarrow> 'a head_object_output_scheme \<Rightarrow> header" where
  "objectHeaders contentRange output =
     (let h1 = setOptional ''Content-Range'' contentRange
            (setOptional ''Content-Length'' (map_option fmt_int (hoContentLength output))
              (setOptional ''Content-Type'' (hoContentType output) []));
          h2 = setOptional ''Last-Modified'' (map_option format_http (hoLastModified output))
            (setOptional ''ETag'' (hoETag output) h1);
          h3 = setOptional ''Content-Language'' (hoContentLanguage output)
            (setOptional ''Content-Disposition'' (hoContentDisposition output)
              (setOptional ''Cache-Control'' (hoCacheControl output)
                (setOptional ''Content-Encoding'' (hoContentEncoding output) h2)));
          h4 = setOptional ''x-amz-version-id'' (hoVersionId output)
            (setOptional ''Expires'' (hoExpiresString output) h3);
          h5 = setOptional ''x-amz-storage-class'' (nonEmpty (hoStorageClass output))
            (setOptional ''x-amz-server-side-encryption-aws-kms-key-id'' (hoSSEKMSKeyId output)
              (setOptional ''x-amz-server-side-encryption'' (nonEmpty (hoServerSideEncryption output)) h4));
          h6 = hSet ''Accept-Ranges'' ''bytes'' h5
      in fold (\<lambda>(k, v). AList.update (''x-amz-meta-'' @ ToLower k) [v]) (hoMetadata output) h6)"

definition executeGetObject :: "'w backend_client \<Rightarrow> request_context \<Rightarrow> decision \<Rightarrow> 'w \<Rightarrow> 'w proxied" where
  "executeGetObject bc rc d w =
     (let h = rcHeaders rc;
          input = \<lparr>giBucket = bBucket (bcConfig bc), giKey = objectKeyOf bc d,
            giRange = nonEmpty (hGet h ''Range''), giIfMatch = nonEmpty (hGet h ''If-Match''),
            giIfNoneMatch = nonEmpty (hGet h ''If-None-Match''),
            giIfModifiedSince = conditionTime h ''If-Modified-Since'',
            giIfUnmodifiedSince = conditionTime h ''If-Unmodified-Since''\<rparr>
      in callBackend (opGetObject (bcOperations bc)) input
           (\<lambda>output. Inr \<lparr>rsStatus = (if goContentRange output \<noteq> None then 206 else 200),
              rsHeader = objectHeaders (goContentRange output) output, rsBody = Raw (goBody output)\<rparr>) w)"

definition executeHeadObject :: "'w backend_client \<Rightarrow> request_context \<Rightarrow> decision \<Rightarrow> 'w \<Rightarrow> 'w proxied" where
  "executeHeadObject bc rc d w =
     (let h = rcHeaders rc;
          input = \<lparr>hiBucket = bBucket (bcConfig bc), hiKey = objectKeyOf bc d,
            hiIfMatch = nonEmpty (hGet h ''If-Match''), hiIfNoneMatch = nonEmpty (hGet h ''If-None-Match''),
            hiIfModifiedSince = conditionTime h ''If-Modified-Since'',
            hiIfUnmodifiedSince = conditionTime h ''If-Unmodified-Since''\<rparr>
      in callBackend (opHeadObject (bcOperations bc)) input
           (\<lambda>output. Inr \<lparr>rsStatus = 200, rsHeader = objectHeaders None output, rsBody = Raw ([], None)\<rparr>) w)"

subsection \<open>Writing objects\<close>

definition readErrorText :: "request \<Rightarrow> string" where
  "readErrorText r =
     (case qBodyErr r of Some e \<Rightarrow> e | None \<Rightarrow> if qBody r = [] then ''EOF'' else ''unexpected EOF'')"

text \<open>
  The body of the announced length is read into a slice of that length; \<open>make\<close> panics when the length is
  over the 2^48 bytes a heap can have.  What happens when there is less memory than that is not modelled.
\<close>

definition readRequestBody :: "request \<Rightarrow> string fault + string" where
  "readRequestBody r =
     (if 0 \<le> qContentLength r then
        (let n = nat (qContentLength r) in
         if 2 ^ 48 < qContentLength r then Inl Panicked
         else if n \<le> length (qBody r) then Inr (take n (qBody r))
         else Inl (Failed (''failed to read request body: '' @ readErrorText r)))
      else case qBodyErr r of
        Some e \<Rightarrow> Inl (Failed (''failed to read request body: '' @ e))
      | None \<Rightarrow> Inr (qBody r))"

text \<open>A length that is only announced makes the router panic.\<close>

lemma announced_length_panics: "2 ^ 48 < qContentLength r \<Longrightarrow> readRequestBody r = Inl Panicked"
  by (simp add: readRequestBody_def)

text \<open>The metadata of an upload: keys lose the prefix and keep their case.\<close>

definition metadataOf :: "header \<Rightarrow> metadata" where
  "metadataOf h =
     fold (\<lambda>(key, vals) m. case vals of v # _ \<Rightarrow> if isMetadata key then AList.update (drop 11 key) v m else m | [] \<Rightarrow> m)
       h []"

text \<open>The checksum the trailer announces; an unknown type is passed over.\<close>

definition checksumTrailers :: "(string \<times> checksum_algorithm) list" where
  "checksumTrailers = [(''x-amz-checksum-sha256'', Sha256), (''x-amz-checksum-sha1'', Sha1),
     (''x-amz-checksum-crc32'', Crc32), (''x-amz-checksum-crc32c'', Crc32c), (''x-amz-checksum-crc64nvme'', Crc64nvme)]"

definition trailerChecksum :: "string \<Rightarrow> header \<Rightarrow> string + (checksum_algorithm \<times> string) option" where
  "trailerChecksum kind trailer =
     (case map_of checksumTrailers kind of
        None \<Rightarrow> Inr None
      | Some alg \<Rightarrow>
          (let h = hGet trailer kind in
           if h = [] then Inl (''unexpected payload; '' @ kind @ '' is not available'') else Inr (Some (alg, h))))"

definition putHeaders :: "put_object_output \<Rightarrow> bool \<Rightarrow> header" where
  "putHeaders output version =
     (let h = setOptional ''ETag'' (poETag output) [] in
      if version then setOptional ''x-amz-version-id'' (poVersionId output) h else h)"

definition defaultPutObject :: "'w backend_client \<Rightarrow> request_context \<Rightarrow> decision \<Rightarrow> 'w \<Rightarrow> 'w proxied" where
  "defaultPutObject bc rc d w =
     (let h = rcHeaders rc;
          trailerChecksumType = ToLower (hGet h ''x-amz-trailer'')
      in case readRequestBody (rcRequest rc) of
        Inl Panicked \<Rightarrow> (Inl Panicked, w)
      | Inl (Failed e) \<Rightarrow> (Inl (Failed (Plain e)), w)
      | Inr b \<Rightarrow>
          (let input = \<lparr>piBucket = bBucket (bcConfig bc), piKey = objectKeyOf bc d, piBody = b,
                 piContentType = nonEmpty (hGet h ''Content-Type''),
                 piContentEncoding = nonEmpty (hGet h ''Content-Encoding''),
                 piContentMD5 = nonEmpty (hGet h ''Content-MD5''), piContentLength = None,
                 piMetadata = metadataOf h, piChecksum = None\<rparr>
           in if trailerChecksumType \<noteq> [] then
                (case trailerChecksum trailerChecksumType (qTrailer (rcRequest rc)) of
                   Inl e \<Rightarrow> (Inl (Failed (Plain e)), w)
                 | Inr c \<Rightarrow>
                     callBackend (opPutObject (bcOperations bc)) (input\<lparr>piChecksum := c\<rparr>)
                       (\<lambda>output. Inr ((emptyResponse 200)\<lparr>rsHeader := putHeaders output True\<rparr>)) w)
              else
                callBackend (opPutObject (bcOperations bc))
                  (input\<lparr>piContentLength := (let cl = hGet h ''Content-Length'' in if cl = [] then None else ParseInt cl 10)\<rparr>)
                  (\<lambda>output. Inr ((emptyResponse 200)\<lparr>rsHeader := putHeaders output False\<rparr>)) w))"

definition executeDeleteObject :: "'w backend_client \<Rightarrow> request_context \<Rightarrow> decision \<Rightarrow> 'w \<Rightarrow> 'w proxied" where
  "executeDeleteObject bc rc d w =
     callBackend (opDeleteObject (bcOperations bc)) \<lparr>oiBucket = bBucket (bcConfig bc), oiKey = objectKeyOf bc d\<rparr>
       (\<lambda>_. Inr (emptyResponse 204)) w"

subsection \<open>Tagging\<close>

text \<open>The key of these two operations is not unescaped.\<close>

definition executeDeleteObjectTagging :: "'w backend_client \<Rightarrow> request_context \<Rightarrow> decision \<Rightarrow> 'w \<Rightarrow> 'w proxied" where
  "executeDeleteObjectTagging bc rc d w =
     callBackend (opDeleteObjectTagging (bcOperations bc)) \<lparr>oiBucket = bBucket (bcConfig bc), oiKey = finalKeyOf bc d\<rparr>
       (\<lambda>_. Inr (emptyResponse 204)) w"

fun derefTags :: "(string option \<times> string option) list \<Rightarrow> (string \<times> string) list option" where
  "derefTags [] = Some []"
| "derefTags ((Some k, Some v) # ts) = map_option (Cons (k, v)) (derefTags ts)"
| "derefTags (_ # ts) = None"

definition s3Namespace :: string where
  "s3Namespace = ''http://s3.amazonaws.com/doc/2006-03-01/''"

definition executeGetObjectTagging :: "'w backend_client \<Rightarrow> request_context \<Rightarrow> decision \<Rightarrow> 'w \<Rightarrow> 'w proxied" where
  "executeGetObjectTagging bc rc d w =
     callBackend (opGetObjectTagging (bcOperations bc)) \<lparr>oiBucket = bBucket (bcConfig bc), oiKey = finalKeyOf bc d\<rparr>
       (\<lambda>output. case derefTags (gtTagSet output) of
          None \<Rightarrow> Inl Panicked
        | Some tags \<Rightarrow> Inr (documentResponse 200 (TaggingXml s3Namespace tags))) w"

text \<open>Decoding the XML bodies of requests.\<close>

record xml_codec =
  xmTagging :: "string \<Rightarrow> string + (string \<times> string) list"
  xmCompleteUpload :: "string \<Rightarrow> string + (int \<times> string) list"
  xmDelete :: "string \<Rightarrow> string + string list"

definition executePutObjectTagging ::
  "xml_codec \<Rightarrow> 'w backend_client \<Rightarrow> request_context \<Rightarrow> decision \<Rightarrow> 'w \<Rightarrow> 'w proxied" where
  "executePutObjectTagging xml bc rc d w =
     (case readRequestBody (rcRequest rc) of
        Inl Panicked \<Rightarrow> (Inl Panicked, w)
      | Inl (Failed e) \<Rightarrow> (Inl (Failed (Plain (''failed to read request body: '' @ e))), w)
      | Inr body \<Rightarrow>
          (case xmTagging xml body of
             Inl e \<Rightarrow> (Inl (Failed (Plain (''failed to parse tagging XML: '' @ e))), w)
           | Inr tagSet \<Rightarrow>
               callBackend (opPutObjectTagging (bcOperations bc))
                 \<lparr>ptBucket = bBucket (bcConfig bc), ptKey = objectKeyOf bc d, ptTagSet = tagSet\<rparr>
                 (\<lambda>_. Inr (emptyResponse 200)) w))"

subsection \<open>Multipart uploads\<close>

definition uploadIdOf :: "request_context \<Rightarrow> string" where
  "uploadIdOf rc = vGet (rcQueryParams rc) ''uploadId''"

definition executeCreateMultipartUpload :: "'w backend_client \<Rightarrow> request_context \<Rightarrow> decision \<Rightarrow> 'w \<Rightarrow> 'w proxied" where
  "executeCreateMultipartUpload bc rc d w =
     callBackend (opCreateMultipartUpload (bcOperations bc))
       \<lparr>cuBucket = bBucket (bcConfig bc), cuKey = objectKeyOf bc d,
        cuContentType = nonEmpty (hGet (rcHeaders rc) ''Content-Type'')\<rparr>
       (\<lambda>output. case cuUploadId output of
          None \<Rightarrow> Inl Panicked
        | Some u \<Rightarrow> Inr (documentResponse 200 (InitiateXml (rcBucket rc) (rcObjectKey rc) u))) w"

text \<open>
  \<open>fmt.Sscanf(s, "%d", &n)\<close> into an integer of the given width: leading spaces, a sign and digits; what
  follows is ignored, and on a failure the variable keeps its value.
\<close>

definition scanInt :: "nat \<Rightarrow> string \<Rightarrow> int option" where
  "scanInt width s =
     (let t = dropWhile (\<lambda>c. is_space c \<and> c \<noteq> CHR 0x0A) s;
          sign = (case t of c # _ \<Rightarrow> if c = CHR ''-'' \<or> c = CHR ''+'' then [c] else [] | [] \<Rightarrow> []);
          ds = takeWhile is_digit (drop (length sign) t)
      in if ds = [] then None
         else case ParseInt (sign @ ds) 10 of
           None \<Rightarrow> None
         | Some n \<Rightarrow> if - (2 ^ (width - 1)) \<le> n \<and> n < 2 ^ (width - 1) then Some n else None)"

definition bufferedUploadPart ::
  "'w backend_client \<Rightarrow> request_context \<Rightarrow> decision \<Rightarrow> string \<Rightarrow> string \<Rightarrow> 'w \<Rightarrow> 'w proxied" where
  "bufferedUploadPart bc rc d uploadID partNumber w =
     (let cl = hGet (rcHeaders rc) ''Content-Length'' in
      callBackend (opUploadPart (bcOperations bc))
        \<lparr>upBucket = bBucket (bcConfig bc), upKey = objectKeyOf bc d, upUploadId = uploadID,
         upPartNumber = (case scanInt 32 partNumber of Some n \<Rightarrow> n | None \<Rightarrow> 0),
         upBody = (qBody (rcRequest rc), qBodyErr (rcRequest rc)),
         upContentLength = (if cl = [] then None else ParseInt cl 10)\<rparr>
        (\<lambda>output. Inr ((emptyResponse 200)\<lparr>rsHeader := setOptional ''ETag'' (upETag output) []\<rparr>)) w)"

text \<open>A response of the streaming paths, as one of the proxy.\<close>

definition streamed :: "'w outcome \<Rightarrow> 'w proxied" where
  "streamed r = (map_sum (\<lambda>e. e)
     (\<lambda>resp. \<lparr>rsStatus = rsStatus resp, rsHeader = rsHeader resp, rsBody = Raw (rsBody resp)\<rparr>) (fst r), snd r)"

definition executeUploadPart ::
  "'w platform \<Rightarrow> time \<Rightarrow> 'w backend_client \<Rightarrow> request_context \<Rightarrow> decision \<Rightarrow> 'w \<Rightarrow> 'w proxied" where
  "executeUploadPart pl now bc rc d w =
     (let uploadID = uploadIdOf rc; partNumber = vGet (rcQueryParams rc) ''partNumber'' in
      if uploadID = [] \<or> partNumber = [] then
        (Inl (Failed (Plain ''missing uploadId or partNumber query parameters'')), w)
      else if isAwsChunkedEligible rc False then
        streamed (streamingAwsChunkedUploadPart pl now bc rc d uploadID partNumber w)
      else if isStreamingEligible rc False then
        streamed (streamingUploadPart pl now bc rc d uploadID partNumber w)
      else bufferedUploadPart bc rc d uploadID partNumber w)"

text \<open>\<open>io.ReadAll\<close> of at most 1 MB.\<close>

definition maxXMLSize :: nat where "maxXMLSize = 1 * 1024 * 1024"

definition readLimited :: "nat \<Rightarrow> request \<Rightarrow> string + string" where
  "readLimited n r =
     (case qBodyErr r of
        Some e \<Rightarrow> if length (qBody r) < n then Inl e else Inr (take n (qBody r))
      | None \<Rightarrow> Inr (take n (qBody r)))"

definition executeCompleteMultipartUpload ::
  "xml_codec \<Rightarrow> 'w backend_client \<Rightarrow> request_context \<Rightarrow> decision \<Rightarrow> 'w \<Rightarrow> 'w proxied" where
  "executeCompleteMultipartUpload xml bc rc d w =
     (let uploadID = uploadIdOf rc in
      if uploadID = [] then (Inl (Failed (Plain ''missing uploadId query parameter'')), w)
      else case readLimited maxXMLSize (rcRequest rc) of
        Inl e \<Rightarrow> (Inl (Failed (Plain e)), w)
      | Inr b \<Rightarrow>
          (case xmCompleteUpload xml b of
             Inl e \<Rightarrow> (Inl (Failed (Plain (''failed to parse CompleteMultipartUpload request: '' @ e))), w)
           | Inr parts \<Rightarrow>
               callBackend (opCompleteMultipartUpload (bcOperations bc))
                 \<lparr>cpBucket = bBucket (bcConfig bc), cpKey = objectKeyOf bc d, cpUploadId = uploadID, cpParts = parts\<rparr>
                 (\<lambda>output. case cpETag output of
                    None \<Rightarrow> Inl Panicked
                  | Some etag \<Rightarrow> Inr (documentResponse 200 (CompleteXml
                      (''https://'' @ rcBucket rc @ ''.s3.amazonaws.com/'' @ rcObjectKey rc)
                      (rcBucket rc) (rcObjectKey rc) etag))) w))"

definition executeAbortMultipartUpload :: "'w backend_client \<Rightarrow> request_context \<Rightarrow> decision \<Rightarrow> 'w \<Rightarrow> 'w proxied" where
  "executeAbortMultipartUpload bc rc d w =
     (let uploadID = uploadIdOf rc in
      if uploadID = [] then (Inl (Failed (Plain ''missing uploadId query parameter'')), w)
      else callBackend (opAbortMultipartUpload (bcOperations bc))
        \<lparr>abBucket = bBucket (bcConfig bc), abKey = objectKeyOf bc d, abUploadId = uploadID\<rparr>
        (\<lambda>_. Inr (emptyResponse 204)) w)"

definition maxPartsOf :: "url_values \<Rightarrow> int" where
  "maxPartsOf q =
     (case vValues q ''max-parts'' of
        [] \<Rightarrow> 1000
      | v # _ \<Rightarrow>
          (let mp = (case scanInt 64 v of Some n \<Rightarrow> n | None \<Rightarrow> 0) in
           if 0 < mp \<and> mp \<le> 1000 then mp else 1000))"

fun derefParts :: "(int option \<times> string option \<times> int option) list \<Rightarrow> part_entry list option" where
  "derefParts [] = Some []"
| "derefParts ((Some n, Some e, Some z) # ps) =
     map_option (Cons \<lparr>ptNumber = n, ptETag = e, ptSize = z\<rparr>) (derefParts ps)"
| "derefParts (_ # ps) = None"

definition executeListParts :: "'w backend_client \<Rightarrow> request_context \<Rightarrow> decision \<Rightarrow> 'w \<Rightarrow> 'w proxied" where
  "executeListParts bc rc d w =
     (let uploadID = uploadIdOf rc; maxParts = maxPartsOf (rcQueryParams rc) in
      if uploadID = [] then (Inl (Failed (Plain ''missing uploadId query parameter'')), w)
      else callBackend (opListParts (bcOperations bc))
        \<lparr>lpBucket = bBucket (bcConfig bc), lpKey = objectKeyOf bc d, lpUploadId = uploadID, lpMaxParts = maxParts\<rparr>
        (\<lambda>output. case derefParts (lpParts output) of
           None \<Rightarrow> Inl Panicked
         | Some parts \<Rightarrow> Inr (documentResponse 200 (ListPartsXml (rcBucket rc) (rcObjectKey rc) uploadID maxParts
             (lpIsTruncated output = Some True) parts))) w)"

subsection \<open>Access control lists\<close>

definition grantOf :: "grantee option \<times> string \<Rightarrow> grant_entry" where
  "grantOf g =
     (case fst g of
        None \<Rightarrow> \<lparr>gxXMLNS = [], gxType = [], gxID = [], gxDisplayName = [], gxPermission = snd g\<rparr>
      | Some x \<Rightarrow> \<lparr>gxXMLNS = ''http://www.w3.org/2001/XMLSchema-instance'', gxType = gnType x, gxID = toString (gnID x),
          gxDisplayName = toString (gnDisplayName x), gxPermission = snd g\<rparr>)"

definition executeGetObjectAcl :: "'w backend_client \<Rightarrow> request_context \<Rightarrow> decision \<Rightarrow> 'w \<Rightarrow> 'w proxied" where
  "executeGetObjectAcl bc rc d w =
     callBackend (opGetObjectAcl (bcOperations bc)) \<lparr>oiBucket = bBucket (bcConfig bc), oiKey = objectKeyOf bc d\<rparr>
       (\<lambda>output.
          let (ownerID, ownerName) = (case gaOwner output of
                None \<Rightarrow> ([], []) | Some (i, n) \<Rightarrow> (toString i, toString n))
          in Inr (documentResponse 200 (AclXml s3Namespace ownerID ownerName (map grantOf (gaGrants output))))) w"

definition executePutObjectAcl :: "'w backend_client \<Rightarrow> request_context \<Rightarrow> decision \<Rightarrow> 'w \<Rightarrow> 'w proxied" where
  "executePutObjectAcl bc rc d w =
     callBackend (opPutObjectAcl (bcOperations bc))
       \<lparr>paBucket = bBucket (bcConfig bc), paKey = objectKeyOf bc d, paACL = hGet (rcHeaders rc) ''x-amz-acl''\<rparr>
       (\<lambda>_. Inr (emptyResponse 200)) w"

subsection \<open>Batch deletion\<close>

text \<open>The executor; the order of its iterations over a map of backends is a function.\<close>

record ('w, 'c) executor =
  exPlatform :: "'w platform"
  exXml :: xml_codec
  exCacheOps :: "'c cache_ops"
  exOrder :: "string list \<Rightarrow> string list"
  exManager :: "'w manager"
  exMatcher :: "'c matcher option"

type_synonym ('w, 'c) routed = "'w proxied \<times> 'c matcher option"

definition NewExecutor ::
  "'w platform \<Rightarrow> xml_codec \<Rightarrow> 'c cache_ops \<Rightarrow> (string list \<Rightarrow> string list) \<Rightarrow> 'w manager \<Rightarrow> ('w, 'c) executor" where
  "NewExecutor pl xml ops order m =
     \<lparr>exPlatform = pl, exXml = xml, exCacheOps = ops, exOrder = order, exManager = m, exMatcher = None\<rparr>"

definition SetMatcher :: "'c matcher \<Rightarrow> ('w, 'c) executor \<Rightarrow> ('w, 'c) executor" where
  "SetMatcher m ex = ex\<lparr>exMatcher := Some m\<rparr>"

record key_mapping =
  kmVirtualKey :: string
  kmRewrittenKey :: string
  kmBackendID :: string
  kmPhysicalKey :: string

text \<open>
  The mapping of one key: its own decision, or the decision of the request when there is no route or
  the backend is unknown.  A decision without a backend panics.
\<close>

definition mapKey ::
  "('w, 'c) executor \<Rightarrow> 'w backend_client \<Rightarrow> request_context \<Rightarrow> decision \<Rightarrow> string \<Rightarrow> 'c matcher
     \<Rightarrow> (unit fault + key_mapping) \<times> 'c matcher" where
  "mapKey ex bc rc decision key m =
     (case Match (exCacheOps ex) m (rcBucket rc) key ''DELETE'' of
        (Inl Panicked, m1) \<Rightarrow> (Inl Panicked, m1)
      | (r, m1) \<Rightarrow>
          (let kd = (case r of Inr d \<Rightarrow> d | Inl _ \<Rightarrow> decision) in
           case dBackend kd of
             None \<Rightarrow> (Inl Panicked, m1)
           | Some b \<Rightarrow>
               (let (kd1, client) = (case GetClient (exManager ex) (bID b) of
                      Inr c \<Rightarrow> (kd, c) | Inl _ \<Rightarrow> (decision, bc))
                in case dBackend kd1 of
                     None \<Rightarrow> (Inl Panicked, m1)
                   | Some b1 \<Rightarrow>
                       (Inr \<lparr>kmVirtualKey = key, kmRewrittenKey = dRewrittenKey kd1, kmBackendID = bID b1,
                             kmPhysicalKey = bPrefix (bcConfig client) @ dRewrittenKey kd1\<rparr>, m1))))"

fun mapKeys ::
  "('w, 'c) executor \<Rightarrow> 'w backend_client \<Rightarrow> request_context \<Rightarrow> decision \<Rightarrow> string list \<Rightarrow> 'c matcher
     \<Rightarrow> (unit fault + key_mapping list) \<times> 'c matcher" where
  "mapKeys ex bc rc decision [] m = (Inr [], m)"
| "mapKeys ex bc rc decision (k # ks) m =
     (case mapKey ex bc rc decision k m of
        (Inl e, m1) \<Rightarrow> (Inl e, m1)
      | (Inr km, m1) \<Rightarrow>
          (case mapKeys ex bc rc decision ks m1 of
             (Inl e, m2) \<Rightarrow> (Inl e, m2)
           | (Inr kms, m2) \<Rightarrow> (Inr (km # kms), m2)))"

text \<open>\<open>keysByBackend\<close>, keyed by backend.\<close>

definition groupKeys :: "key_mapping list \<Rightarrow> (string \<times> key_mapping list) list" where
  "groupKeys kms = fold (\<lambda>km g. AList.update (kmBackendID km)
     ((case map_of g (kmBackendID km) of Some l \<Rightarrow> l | None \<Rightarrow> []) @ [km]) g) kms []"

text \<open>The virtual keys of what a backend deleted; a later key takes the place of an equal physical one.\<close>

fun deletedKeys :: "(string \<Rightarrow> string) \<Rightarrow> string option list \<Rightarrow> string list option" where
  "deletedKeys virtualKey [] = Some []"
| "deletedKeys virtualKey (None # ds) = None"
| "deletedKeys virtualKey (Some d # ds) =
     map_option (Cons (let v = virtualKey d in if v = [] then d else v)) (deletedKeys virtualKey ds)"

definition physicalToVirtual :: "key_mapping list \<Rightarrow> string \<Rightarrow> string" where
  "physicalToVirtual kms p =
     toString (map_of (rev (map (\<lambda>km. (kmPhysicalKey km, kmVirtualKey km)) kms)) p)"

definition deleteInput :: "'w backend_client \<Rightarrow> string list \<Rightarrow> delete_objects_input" where
  "deleteInput bc keys = \<lparr>diBucket = bBucket (bcConfig bc), diKeys = keys\<rparr>"

fun deleteGroups ::
  "('w, 'c) executor \<Rightarrow> (string \<times> key_mapping list) list \<Rightarrow> 'w \<Rightarrow> (unit fault + string list) \<times> 'w" where
  "deleteGroups ex [] w = (Inr [], w)"
| "deleteGroups ex ((b, kms) # gs) w =
     (case GetClient (exManager ex) b of
        Inl _ \<Rightarrow> deleteGroups ex gs w
      | Inr client \<Rightarrow>
          (case opDeleteObjects (bcOperations client) (deleteInput client (map kmPhysicalKey kms)) w of
             (Inl Panicked, w1) \<Rightarrow> (Inl Panicked, w1)
           | (Inl (Failed _), w1) \<Rightarrow> deleteGroups ex gs w1
           | (Inr output, w1) \<Rightarrow>
               (case deletedKeys (physicalToVirtual kms) (doDeleted output) of
                  None \<Rightarrow> (Inl Panicked, w1)
                | Some ds \<Rightarrow>
                    (case deleteGroups ex gs w1 of
                       (Inl e, w2) \<Rightarrow> (Inl e, w2)
                     | (Inr rest_ds, w2) \<Rightarrow> (Inr (ds @ rest_ds), w2)))))"

fun derefKeys :: "string option list \<Rightarrow> string list option" where
  "derefKeys [] = Some []"
| "derefKeys (None # ks) = None"
| "derefKeys (Some k # ks) = map_option (Cons k) (derefKeys ks)"

definition executeDeleteObjectsSingleBackend ::
  "'w backend_client \<Rightarrow> decision \<Rightarrow> string list \<Rightarrow> 'w \<Rightarrow> 'w proxied" where
  "executeDeleteObjectsSingleBackend bc d keys w =
     callBackend (opDeleteObjects (bcOperations bc))
       (deleteInput bc (map (\<lambda>k. if dRewrittenKey d = [] then bPrefix (bcConfig bc) @ k else objectKeyOf bc d) keys))
       (\<lambda>output. case derefKeys (doDeleted output) of
          None \<Rightarrow> Inl Panicked
        | Some ds \<Rightarrow> Inr (documentResponse 200 (DeleteResultXml (map (\<lambda>k. TrimPrefix k (bPrefix (bcConfig bc))) ds)))) w"

definition emptyDeleteResult :: proxy_response where
  "emptyDeleteResult = \<lparr>rsStatus = 200, rsHeader = hSet ''Content-Type'' ''application/xml'' [],
     rsBody = Raw (''<?xml version='' @ [CHR 0x22] @ ''1.0'' @ [CHR 0x22] @ '' encoding='' @ [CHR 0x22] @ ''UTF-8'' @
       [CHR 0x22] @ ''?><DeleteResult></DeleteResult>'', None)\<rparr>"

definition orderedGroups :: "('w, 'c) executor \<Rightarrow> (string \<times> key_mapping list) list \<Rightarrow> (string \<times> key_mapping list) list" where
  "orderedGroups ex g =
     map (\<lambda>b. (b, case map_of g b of Some l \<Rightarrow> l | None \<Rightarrow> [])) (exOrder ex (map fst g))"

definition executeDeleteObjects ::
  "('w, 'c) executor \<Rightarrow> 'w backend_client \<Rightarrow> request_context \<Rightarrow> decision \<Rightarrow> 'w \<Rightarrow> ('w, 'c) routed" where
  "executeDeleteObjects ex bc rc d w =
     (let r = rcRequest rc in
      case qBodyErr r of
        Some e \<Rightarrow> ((Inl (Failed (Plain (''failed to read request body: '' @ e))), w), exMatcher ex)
      | None \<Rightarrow>
          (case xmDelete (exXml ex) (qBody r) of
             Inl e \<Rightarrow> ((Inl (Failed (Plain (''failed to parse delete request: '' @ e))), w), exMatcher ex)
           | Inr keys \<Rightarrow>
               (if keys = [] then ((Inr emptyDeleteResult, w), exMatcher ex)
                else case exMatcher ex of
                  None \<Rightarrow> (executeDeleteObjectsSingleBackend bc d keys w, None)
                | Some m \<Rightarrow>
                    (case mapKeys ex bc rc d keys m of
                       (Inl _, m1) \<Rightarrow> ((Inl Panicked, w), Some m1)
                     | (Inr kms, m1) \<Rightarrow>
                         (case deleteGroups ex (orderedGroups ex (groupKeys kms)) w of
                            (Inl _, w1) \<Rightarrow> ((Inl Panicked, w1), Some m1)
                          | (Inr ds, w1) \<Rightarrow> ((Inr (documentResponse 200 (DeleteResultXml ds)), w1), Some m1))))))"

subsection \<open>Copying\<close>

definition directiveOf :: "string \<Rightarrow> directive option" where
  "directiveOf v =
     (if v = [] then None
      else if EqualFold v ''COPY'' then Some CopyDirective
      else if EqualFold v ''REPLACE'' then Some ReplaceDirective
      else None)"

text \<open>
  Where the source of a copy is: the client's text when there is no matcher, no route or no backend;
  its physical place when it is at the backend of the destination; otherwise an error, which no status
  is known for (\<open>awsErrorToHTTPResponse\<close> returns it as it is).
\<close>

definition copySourceOf ::
  "('w, 'c) executor \<Rightarrow> decision \<Rightarrow> string \<Rightarrow> (proxy_error fault + string) \<times> 'c matcher option" where
  "copySourceOf ex d copySource =
     (case SplitN2 (TrimPrefix copySource ''/'') ''/'' of
        [sourceBucket, sourceKey] \<Rightarrow>
          (case exMatcher ex of
             None \<Rightarrow> (Inr copySource, None)
           | Some m \<Rightarrow>
               (case Match (exCacheOps ex) m sourceBucket sourceKey ''GET'' of
                  (Inl Panicked, m1) \<Rightarrow> (Inl Panicked, Some m1)
                | (Inl (Failed _), m1) \<Rightarrow> (Inr copySource, Some m1)
                | (Inr sd, m1) \<Rightarrow>
                    (case (dBackend sd, dBackend d) of
                       (Some sb, Some db) \<Rightarrow>
                         (case GetClient (exManager ex) (bID sb) of
                            Inl _ \<Rightarrow> (Inr copySource, Some m1)
                          | Inr sc \<Rightarrow>
                              (if bID sb \<noteq> bID db then
                                 (Inl (Failed (AwsError (plainError
                                     (''copy source and destination must be in the same backend (source: '' @ bID sb @
                                      '', dest: '' @ bID db @ '')'')))), Some m1)
                               else
                                 (Inr (''/'' @ bBucket (bcConfig sc) @ ''/'' @ bPrefix (bcConfig sc) @ dRewrittenKey sd), Some m1)))
                     | _ \<Rightarrow> (Inl Panicked, Some m1))))
      | _ \<Rightarrow> (Inl (Failed (Plain (''invalid x-amz-copy-source format: '' @ copySource))), exMatcher ex))"

definition executeCopyObject ::
  "('w, 'c) executor \<Rightarrow> 'w backend_client \<Rightarrow> request_context \<Rightarrow> decision \<Rightarrow> string \<Rightarrow> 'w \<Rightarrow> ('w, 'c) routed" where
  "executeCopyObject ex bc rc d copySource w =
     (case copySourceOf ex d copySource of
        (Inl e, m1) \<Rightarrow> ((Inl e, w), m1)
      | (Inr finalCopySource, m1) \<Rightarrow>
          (let h = rcHeaders rc;
               input = \<lparr>coBucket = bBucket (bcConfig bc), coCopySource = finalCopySource, coKey = finalKeyOf bc d,
                 coMetadataDirective = directiveOf (hGet h ''x-amz-metadata-directive''),
                 coTaggingDirective = directiveOf (hGet h ''x-amz-tagging-directive''),
                 coMetadata = metadataOf h, coContentType = nonEmpty (hGet h ''Content-Type'')\<rparr>
           in (callBackend (opCopyObject (bcOperations bc)) input
                 (\<lambda>output. case coResult output of
                    Some (Some etag, lastModified) \<Rightarrow>
                      Inr (documentResponse 200 (CopyResultXml etag (toString (map_option format_rfc3339 lastModified))))
                  | _ \<Rightarrow> Inl Panicked) w, m1)))"

subsection \<open>Dispatching\<close>

definition executePutObject ::
  "('w, 'c) executor \<Rightarrow> time \<Rightarrow> 'w backend_client \<Rightarrow> request_context \<Rightarrow> decision \<Rightarrow> 'w \<Rightarrow> ('w, 'c) routed" where
  "executePutObject ex now bc rc d w =
     (let copySource = hGet (rcHeaders rc) ''x-amz-copy-source'' in
      if copySource \<noteq> [] then executeCopyObject ex bc rc d copySource w
      else if isAwsChunkedEligible rc False then
        (streamed (streamingAwsChunkedPutObject (exPlatform ex) now bc rc d w), exMatcher ex)
      else if isStreamingEligible rc False then
        (streamed (streamingPutObject (exPlatform ex) now bc rc d w), exMatcher ex)
      else (defaultPutObject bc rc d w, exMatcher ex))"

definition executePost ::
  "('w, 'c) executor \<Rightarrow> 'w backend_client \<Rightarrow> request_context \<Rightarrow> decision \<Rightarrow> 'w \<Rightarrow> ('w, 'c) routed" where
  "executePost ex bc rc d w =
     (if rcOperation rc = DeleteObjects then executeDeleteObjects ex bc rc d w
      else if rcOperation rc = CreateMultipartUpload then (executeCreateMultipartUpload bc rc d w, exMatcher ex)
      else if rcOperation rc = CompleteMultipartUpload then
        (executeCompleteMultipartUpload (exXml ex) bc rc d w, exMatcher ex)
      else ((Inl (Failed (Plain ''POST operations not supported'')), w), exMatcher ex))"

definition executeListObjectsV2 :: "'w \<Rightarrow> 'w proxied" where
  "executeListObjectsV2 w = (Inl (Failed (Plain ''ListObjectsV2 operations not yet fully implemented'')), w)"

definition ExecuteRequest ::
  "('w, 'c) executor \<Rightarrow> time \<Rightarrow> request_context \<Rightarrow> decision \<Rightarrow> 'w \<Rightarrow> ('w, 'c) routed" where
  "ExecuteRequest ex now rc d w =
     (let keep = (\<lambda>r. (r, exMatcher ex)); tagging = vHas (rcQueryParams rc) ''tagging''; meth = ToUpper (rcMethod rc) in
      case dBackend d of
        None \<Rightarrow> keep (Inl Panicked, w)
      | Some b \<Rightarrow>
          (case GetClient (exManager ex) (bID b) of
             Inl e \<Rightarrow> keep (Inl (Failed (BackendFailure e)), w)
           | Inr bc \<Rightarrow>
               (if meth = ''GET'' then
                  (if rcOperation rc = ListObjectsV2 then keep (executeListObjectsV2 w)
                   else if rcOperation rc = ListParts then keep (executeListParts bc rc d w)
                   else if rcOperation rc = GetObjectAcl then keep (executeGetObjectAcl bc rc d w)
                   else if tagging then keep (executeGetObjectTagging bc rc d w)
                   else keep (executeGetObject bc rc d w))
                else if meth = ''HEAD'' then keep (executeHeadObject bc rc d w)
                else if meth = ''PUT'' then
                  (if rcOperation rc = PutObjectAcl then keep (executePutObjectAcl bc rc d w)
                   else if rcOperation rc = UploadPart then keep (executeUploadPart (exPlatform ex) now bc rc d w)
                   else if tagging then keep (executePutObjectTagging (exXml ex) bc rc d w)
                   else executePutObject ex now bc rc d w)
                else if meth = ''DELETE'' then
                  (if rcOperation rc = AbortMultipartUpload then keep (executeAbortMultipartUpload bc rc d w)
                   else if tagging then keep (executeDeleteObjectTagging bc rc d w)
                   else keep (executeDeleteObject bc rc d w))
                else if meth = ''POST'' then executePost ex bc rc d w
                else keep (Inl (Failed (Plain (''unsupported operation: '' @ rcMethod rc))), w))))"

end
