(* ===== verification/ExecutorFacts.thy ===== *)
theory ExecutorFacts
  imports Executor "HOL-Library.Multiset"
begin

section \<open>Properties of the executor\<close>

text \<open>
  What the operations of \<^theory_text>\<open>Executor\<close> do to keys, batches and copies.
\<close>

subsection \<open>Keys\<close>

lemma hexValue_hex_upper: "d < 16 \<Longrightarrow> hexValue (hex_upper d) = d"
  by (auto simp: hexValue_def hex_upper_def is_digit_def less_eq_char_def)

lemma conservativePathUnescape_percent:
  "conservativePathUnescape (percent c @ s) = c # conservativePathUnescape s"
proof -
  define a where "a = (of_char c :: nat) div 16"
  define b where "b = (of_char c :: nat) mod 16"
  have "of_char c < (256 :: nat)" by (rule nat_of_char_less_256)
  then have lt: "a < 16" "b < 16" by (simp_all add: a_def b_def less_mult_imp_div_less)
  have "16 * a + b = of_char c" by (simp add: a_def b_def)
  then have "char_of (16 * a + b) = c" by simp
  then show ?thesis using lt by (simp add: percent_def hexValue_hex_upper flip: a_def b_def)
qed

lemma conservativePathUnescape_plain:
  "CHR ''%'' \<notin> set p \<Longrightarrow> conservativePathUnescape (p @ s) = p @ conservativePathUnescape s"
  by (induction p) auto

lemma shouldEscape_percent: "shouldEscape m CHR ''%''"
  by (auto simp: shouldEscape_def unreserved_def is_digit_def is_lower_def is_upper_def less_eq_char_def)

lemma conservativePathUnescape_escape:
  assumes "m \<noteq> EncodeQueryComponent"
  shows "conservativePathUnescape (escape m s @ t) = s @ conservativePathUnescape t"
proof (induction s)
  case (Cons c s)
  have "conservativePathUnescape (escape_char m c @ u) = c # conservativePathUnescape u" for u
  proof (cases "shouldEscape m c")
    case True
    then show ?thesis using assms conservativePathUnescape_percent by (simp add: escape_char_def)
  next
    case False
    then have "c \<noteq> CHR ''%''" using shouldEscape_percent by auto
    then show ?thesis using False assms by (simp add: escape_char_def)
  qed
  with Cons show ?case by (simp add: escape_def)
qed (simp add: escape_def)

text \<open>Tags are written to the unescaped key, and read and removed at the escaped one.\<close>

lemma tagging_keys_disagree:
  assumes "bPrefix (bcConfig bc) = []" "dRewrittenKey d = ''a%20b''"
  shows "objectKeyOf bc d = ''a b'' \<and> finalKeyOf bc d = ''a%20b''"
proof -
  have "conservativePathUnescape ''a%20b'' = ''a b''" by code_simp
  with assms show ?thesis by (simp only: objectKeyOf_def finalKeyOf_def append_Nil)
qed

subsection \<open>Batch deletion\<close>

lemma mapKey_virtual: "mapKey ex bc rc d k m = (Inr km, m1) \<Longrightarrow> kmVirtualKey km = k"
  by (auto simp: mapKey_def Let_def split: prod.splits sum.splits option.splits fault.splits)

lemma mapKeys_virtual: "mapKeys ex bc rc d keys m = (Inr kms, m1) \<Longrightarrow> map kmVirtualKey kms = keys"
  by (induction keys arbitrary: m kms m1) (auto dest: mapKey_virtual split: prod.splits sum.splits)

lemma groupKeys_snoc:
  "groupKeys (kms @ [km]) = AList.update (kmBackendID km)
     ((case map_of (groupKeys kms) (kmBackendID km) of Some l \<Rightarrow> l | None \<Rightarrow> []) @ [km]) (groupKeys kms)"
  by (simp add: groupKeys_def)

lemma groupKeys_lookup:
  "map_of (groupKeys kms) b =
     (let l = filter (\<lambda>km. kmBackendID km = b) kms in if l = [] then None else Some l)"
proof (induction kms rule: rev_induct)
  case Nil
  show ?case by (simp add: groupKeys_def)
next
  case (snoc km kms)
  then show ?case by (auto simp: groupKeys_snoc Let_def)
qed

lemma groupKeys_distinct: "distinct (map fst (groupKeys kms))"
  by (induction kms rule: rev_induct) (simp_all add: groupKeys_snoc distinct_update groupKeys_def [of "[]"])

lemma groupKeys_keys: "set (map fst (groupKeys kms)) = kmBackendID ` set kms"
proof (rule set_eqI)
  fix b
  have "b \<in> set (map fst (groupKeys kms)) \<longleftrightarrow> map_of (groupKeys kms) b \<noteq> None"
    by (simp only: map_of_eq_None_iff set_map not_not)
  also have "\<dots> \<longleftrightarrow> b \<in> kmBackendID ` set kms"
    by (auto simp: groupKeys_lookup Let_def filter_empty_conv)
  finally show "b \<in> set (map fst (groupKeys kms)) \<longleftrightarrow> b \<in> kmBackendID ` set kms" .
qed

text \<open>Grouping and regrouping loses no key.\<close>

lemma sum_filter_mset:
  "finite A \<Longrightarrow> f ` set_mset M \<subseteq> A \<Longrightarrow> (\<Sum>b\<in>A. filter_mset (\<lambda>x. f x = b) M) = M"
proof (induction M)
  case (add x M)
  have "(\<Sum>b\<in>A. filter_mset (\<lambda>y. f y = b) (add_mset x M)) =
      (\<Sum>b\<in>A. (if f x = b then {#x#} else {#}) + filter_mset (\<lambda>y. f y = b) M)"
    by (intro sum.cong) auto
  also have "\<dots> = {#x#} + M"
    using add by (simp add: sum.distrib)
  finally show ?case by simp
qed simp

lemma regroup_mset:
  assumes "distinct bs" "f ` set xs \<subseteq> set bs"
  shows "mset (concat (map (\<lambda>b. filter (\<lambda>x. f x = b) xs) bs)) = mset xs"
proof -
  have "mset (concat (map (\<lambda>b. filter (\<lambda>x. f x = b) xs) bs)) = (\<Sum>b\<leftarrow>bs. filter_mset (\<lambda>x. f x = b) (mset xs))"
    by (induction bs) simp_all
  also have "\<dots> = (\<Sum>b\<in>set bs. filter_mset (\<lambda>x. f x = b) (mset xs))"
    using assms(1) by (simp add: sum_list_distinct_conv_sum_set)
  finally show ?thesis using sum_filter_mset [of "set bs" f "mset xs"] assms(2) by simp
qed

text \<open>A backend that deletes whatever it is asked to delete.\<close>

definition deletes_all :: "'w backend_client \<Rightarrow> bool" where
  "deletes_all bc \<longleftrightarrow>
     (\<forall>i w. \<exists>w'. opDeleteObjects (bcOperations bc) i w = (Inr \<lparr>doDeleted = map Some (diKeys i)\<rparr>, w'))"

text \<open>No two keys share a physical object, and no key is empty.\<close>

definition separate :: "key_mapping list \<Rightarrow> bool" where
  "separate kms \<longleftrightarrow>
     (\<forall>km \<in> set kms. kmVirtualKey km \<noteq> [] \<and>
        (\<forall>km' \<in> set kms. kmBackendID km = kmBackendID km' \<and> kmPhysicalKey km = kmPhysicalKey km' \<longrightarrow>
           kmVirtualKey km = kmVirtualKey km'))"

lemma physicalToVirtual_eq:
  assumes "km \<in> set kms" "\<forall>km' \<in> set kms. kmPhysicalKey km = kmPhysicalKey km' \<longrightarrow> kmVirtualKey km = kmVirtualKey km'"
  shows "physicalToVirtual kms (kmPhysicalKey km) = kmVirtualKey km"
proof -
  let ?l = "rev (map (\<lambda>km. (kmPhysicalKey km, kmVirtualKey km)) kms)"
  obtain v where v: "map_of ?l (kmPhysicalKey km) = Some v"
    using assms(1) weak_map_of_SomeI [of "kmPhysicalKey km" "kmVirtualKey km" ?l] by auto
  from map_of_SomeD [OF this] assms(2) have "v = kmVirtualKey km" by auto
  with v show ?thesis by (simp add: physicalToVirtual_def toString_def)
qed

lemma deletedKeys_map:
  "deletedKeys f (map Some ds) = Some (map (\<lambda>d. let v = f d in if v = [] then d else v) ds)"
  by (induction ds) simp_all

text \<open>What asking the backends of a list for some keys each makes of the world.\<close>

definition askDelete :: "('w, 'c) executor \<Rightarrow> (string \<Rightarrow> string list) \<Rightarrow> string list \<Rightarrow> 'w \<Rightarrow> 'w" where
  "askDelete ex keysOf = fold (\<lambda>b v.
     case GetClient (exManager ex) b of
       Inl _ \<Rightarrow> v
     | Inr c \<Rightarrow> snd (opDeleteObjects (bcOperations c) \<lparr>diBucket = bBucket (bcConfig c), diKeys = keysOf b\<rparr> v))"

lemma deleteGroups_all:
  assumes "\<forall>b \<in> set bs. separate (kmsOf b) \<and> (\<exists>c. GetClient (exManager ex) b = Inr c \<and> deletes_all c) \<and>
      (\<forall>km \<in> set (kmsOf b). kmBackendID km = b)"
  shows "deleteGroups ex (map (\<lambda>b. (b, kmsOf b)) bs) w =
    (Inr (concat (map (\<lambda>b. map kmVirtualKey (kmsOf b)) bs)), askDelete ex (\<lambda>b. map kmPhysicalKey (kmsOf b)) bs w)"
  using assms
proof (induction bs arbitrary: w)
  case (Cons b bs)
  let ?kms = "kmsOf b"
  from Cons.prems obtain c where c: "GetClient (exManager ex) b = Inr c" "deletes_all c"
    and sep: "separate ?kms" "\<forall>km \<in> set ?kms. kmBackendID km = b" by auto
  then obtain w1 where w1: "opDeleteObjects (bcOperations c) (deleteInput c (map kmPhysicalKey ?kms)) w =
      (Inr \<lparr>doDeleted = map Some (map kmPhysicalKey ?kms)\<rparr>, w1)"
    using c(2) [unfolded deletes_all_def, rule_format, of "deleteInput c (map kmPhysicalKey ?kms)" w]
    by (auto simp: deleteInput_def)
  have "physicalToVirtual ?kms (kmPhysicalKey km) = kmVirtualKey km \<and> kmVirtualKey km \<noteq> []" if "km \<in> set ?kms" for km
  proof -
    have "\<forall>km' \<in> set ?kms. kmPhysicalKey km = kmPhysicalKey km' \<longrightarrow> kmVirtualKey km = kmVirtualKey km'"
      using sep that unfolding separate_def by metis
    moreover have "kmVirtualKey km \<noteq> []" using sep(1) that unfolding separate_def by blast
    ultimately show ?thesis using physicalToVirtual_eq [OF that] by blast
  qed
  then have "deletedKeys (physicalToVirtual ?kms) (map Some (map kmPhysicalKey ?kms)) = Some (map kmVirtualKey ?kms)"
    unfolding deletedKeys_map by (simp add: Let_def)
  moreover have "deleteGroups ex (map (\<lambda>b. (b, kmsOf b)) bs) w1 =
      (Inr (concat (map (\<lambda>b. map kmVirtualKey (kmsOf b)) bs)), askDelete ex (\<lambda>b. map kmPhysicalKey (kmsOf b)) bs w1)"
    using Cons.IH [of w1] Cons.prems by simp
  ultimately show ?case using w1 by (simp add: c(1) askDelete_def comp_def deleteInput_def)
qed (simp add: askDelete_def)

text \<open>
  Where the backend and the physical key of a key are by its own route, looked up without a cache; and the
  physical keys that a backend has by their routes.
\<close>

definition routeOf :: "('w, 'c) executor \<Rightarrow> (string \<times> bucket_config) list \<Rightarrow> string \<Rightarrow> string \<Rightarrow> (string \<times> string) option" where
  "routeOf ex buckets bucket k =
     (case fst (Match (exCacheOps ex) \<lparr>mBuckets = buckets, mCache = None\<rparr> bucket k ''DELETE'') of
        Inl _ \<Rightarrow> None
      | Inr d \<Rightarrow>
          (case dBackend d of
             None \<Rightarrow> None
           | Some b \<Rightarrow>
               (case GetClient (exManager ex) (bID b) of
                  Inl _ \<Rightarrow> None
                | Inr c \<Rightarrow> Some (bID b, bPrefix (bcConfig c) @ dRewrittenKey d))))"

definition keysAt :: "('w, 'c) executor \<Rightarrow> (string \<times> bucket_config) list \<Rightarrow> string \<Rightarrow> string list \<Rightarrow> string \<Rightarrow> string list" where
  "keysAt ex buckets bucket keys b =
     map snd (filter (\<lambda>(i, p). i = b) (List.map_filter (routeOf ex buckets bucket) keys))"

definition coherent_matcher :: "('c \<Rightarrow> string \<rightharpoonup> decision) \<Rightarrow> 'c matcher \<Rightarrow> bool" where
  "coherent_matcher contents m \<longleftrightarrow> (\<forall>c. mCache m = Some c \<longrightarrow> coherent (mBuckets m) (contents c))"

lemma map_filter_map_Some: "map Some ys = map f xs \<Longrightarrow> List.map_filter f xs = ys"
  by (induction xs arbitrary: ys) (auto simp: List.map_filter_simps map_eq_Cons_conv split: option.splits)

lemma mapKey_routed:
  assumes "cache_laws (exCacheOps ex) contents" "CHR '':'' \<notin> set (rcBucket rc)" "coherent_matcher contents m"
    "routeOf ex (mBuckets m) (rcBucket rc) k = Some (b, p)"
  shows "\<exists>km m1. mapKey ex bc rc d k m = (Inr km, m1) \<and> kmVirtualKey km = k \<and> kmBackendID km = b \<and> kmPhysicalKey km = p \<and>
    mBuckets m1 = mBuckets m \<and> coherent_matcher contents m1"
proof -
  obtain r m1 where run: "Match (exCacheOps ex) m (rcBucket rc) k ''DELETE'' = (r, m1)" by fastforce
  have "m\<lparr>mCache := None\<rparr> = \<lparr>mBuckets = mBuckets m, mCache = None\<rparr>" by simp
  with Match_cached [OF assms(1,2) _ _ run] assms(3)
  have 1: "r = fst (Match (exCacheOps ex) \<lparr>mBuckets = mBuckets m, mCache = None\<rparr> (rcBucket rc) k ''DELETE'')"
    "mBuckets m1 = mBuckets m" "coherent_matcher contents m1"
    by (auto simp: coherent_matcher_def)
  with assms(4) run show ?thesis
    by (auto simp: routeOf_def mapKey_def Let_def split: sum.split_asm option.split_asm)
qed

lemma mapKeys_routed:
  assumes "cache_laws (exCacheOps ex) contents" "CHR '':'' \<notin> set (rcBucket rc)"
  shows "coherent_matcher contents m \<Longrightarrow> \<forall>k \<in> set keys. routeOf ex (mBuckets m) (rcBucket rc) k \<noteq> None \<Longrightarrow>
    \<exists>kms m1. mapKeys ex bc rc d keys m = (Inr kms, m1) \<and>
      map (\<lambda>km. (kmVirtualKey km, Some (kmBackendID km, kmPhysicalKey km))) kms =
      map (\<lambda>k. (k, routeOf ex (mBuckets m) (rcBucket rc) k)) keys"
proof (induction keys arbitrary: m)
  case (Cons k keys)
  obtain b p where k: "routeOf ex (mBuckets m) (rcBucket rc) k = Some (b, p)" using Cons.prems(2) by auto
  obtain km m1 where km: "mapKey ex bc rc d k m = (Inr km, m1)" "kmVirtualKey km = k" "kmBackendID km = b"
    "kmPhysicalKey km = p" "mBuckets m1 = mBuckets m" "coherent_matcher contents m1"
    using mapKey_routed [OF assms Cons.prems(1) k] by blast
  with Cons.IH [of m1] Cons.prems(2) obtain kms m2 where "mapKeys ex bc rc d keys m1 = (Inr kms, m2)"
    "map (\<lambda>km. (kmVirtualKey km, Some (kmBackendID km, kmPhysicalKey km))) kms =
      map (\<lambda>k. (k, routeOf ex (mBuckets m) (rcBucket rc) k)) keys" by auto
  with km k show ?case by simp
qed simp


text \<open>
  Two backends, one for the images, that delete what they are asked to and whose objects hold the names
  of their bucket and key.
\<close>

definition sample_object :: "string \<Rightarrow> get_object_output" where
  "sample_object s = \<lparr>hoContentType = None, hoContentLength = Some (int (length s)), hoETag = Some ''e'', hoLastModified = None,
     hoContentEncoding = None, hoCacheControl = None, hoContentDisposition = None, hoContentLanguage = None,
     hoExpiresString = None, hoVersionId = None, hoServerSideEncryption = [], hoSSEKMSKeyId = None, hoStorageClass = [],
     hoMetadata = [(''Owner'', ''me'')], goContentRange = None, goBody = (s, None)\<rparr>"

definition sample_backend :: "string \<Rightarrow> backend_config" where
  "sample_backend i = dead_backend\<lparr>bID := i, bBucket := ''bucket-'' @ i, bPrefix := i @ ''/''\<rparr>"

definition sample_client :: "string \<Rightarrow> nat backend_client" where
  "sample_client i = dead_client\<lparr>bcConfig := sample_backend i,
     bcOperations := failing_operations\<lparr>opDeleteObjects := \<lambda>x n. (Inr \<lparr>doDeleted = map Some (diKeys x)\<rparr>, Suc n),
       opCopyObject := \<lambda>x n. (Inl (Failed (plainError ''timeout'')), Suc n),
       opGetObject := \<lambda>x n. (Inr (sample_object (giBucket x @ '':'' @ giKey x)), Suc n)\<rparr>\<rparr>"

definition sample_routes :: "(string \<times> decision) list matcher" where
  "sample_routes = \<lparr>mBuckets = [(''media'', \<lparr>bkName = ''media'',
     bkRoutes = [(sample_route ''^img/'')\<lparr>rtBackend := Some (sample_backend ''b1'')\<rparr>,
       (sample_route ''.*'')\<lparr>rtBackend := Some (sample_backend ''b2'')\<rparr>]\<rparr>)], mCache = Some []\<rparr>"

definition sample_executor :: "string list \<Rightarrow> (nat, (string \<times> decision) list) executor" where
  "sample_executor keys =
     \<lparr>exPlatform = dead_platform,
      exXml = \<lparr>xmTagging = \<lambda>_. Inl ''EOF'', xmCompleteUpload = \<lambda>_. Inl ''EOF'', xmDelete = \<lambda>_. Inr keys\<rparr>,
      exCacheOps = one_entry_cache, exOrder = rev,
      exManager = \<lparr>mgClients = [(''b1'', sample_client ''b1''), (''b2'', sample_client ''b2'')], mgTimeout = 0,
        mgDefaultRegion = ''us-east-1''\<rparr>,
      exMatcher = Some sample_routes\<rparr>"

definition sample_decision :: decision where
  "sample_decision = \<lparr>dBackend = Some (sample_backend ''b1''), dRewrittenKey = ''img/a'', dOriginalKey = ''img/a'', dRouteIndex = 0\<rparr>"

lemma sample_client_deletes: "deletes_all (sample_client i)"
  by (simp add: deletes_all_def sample_client_def)

lemma sample_keys:
  "map (routeOf (sample_executor ks) (mBuckets sample_routes) ''media'') [''img/a'', ''doc'', ''img/b''] =
     [Some (''b1'', ''b1/img/a''), Some (''b2'', ''b2/doc''), Some (''b1'', ''b1/img/b'')]"
  by code_simp


text \<open>
  Two keys at one physical object: the answer has the later of the two twice.  A key without a route of its own: the
  code takes the decision of the request, and asks for the object that this one names instead of the key.
\<close>

lemma shared_object_misreported:
  "deletedKeys (physicalToVirtual [\<lparr>kmVirtualKey = ''a'', kmRewrittenKey = ''x'', kmBackendID = ''b1'', kmPhysicalKey = ''x''\<rparr>,
      \<lparr>kmVirtualKey = ''b'', kmRewrittenKey = ''x'', kmBackendID = ''b1'', kmPhysicalKey = ''x''\<rparr>]) [Some ''x'', Some ''x''] =
    Some [''b'', ''b'']"
  by code_simp

lemma unrouted_key_misdirected:
  assumes "fst (Match (exCacheOps ex) m (rcBucket rc) k ''DELETE'') = Inl (Failed e)" "dBackend d = Some b"
    "GetClient (exManager ex) (bID b) = Inr c"
  shows "\<exists>m1. mapKey ex bc rc d k m = (Inr \<lparr>kmVirtualKey = k, kmRewrittenKey = dRewrittenKey d, kmBackendID = bID b,
    kmPhysicalKey = bPrefix (bcConfig c) @ dRewrittenKey d\<rparr>, m1)"
  using assms by (cases "Match (exCacheOps ex) m (rcBucket rc) k ''DELETE''") (simp add: mapKey_def)

subsection \<open>Copying\<close>

lemma callBackend_world: "snd (callBackend op i f w) = snd (op i w)"
  by (simp add: callBackend_def split: prod.split sum.split fault.split)

text \<open>The object a GET reads: its bucket, and its key before it is unescaped.\<close>

definition getReads :: "'w backend_client \<Rightarrow> decision \<Rightarrow> string \<Rightarrow> string \<Rightarrow> bool" where
  "getReads bc d bucket k \<longleftrightarrow>
     (\<forall>rc v. \<exists>i. giBucket i = bucket \<and> giKey i = conservativePathUnescape k \<and>
        snd (executeGetObject bc rc d v) = snd (opGetObject (bcOperations bc) i v))"

lemma getReads_final: "getReads bc d (bBucket (bcConfig bc)) (finalKeyOf bc d)"
  unfolding getReads_def
proof (intro allI)
  fix rc :: request_context and v
  let ?i = "\<lparr>giBucket = bBucket (bcConfig bc), giKey = objectKeyOf bc d,
    giRange = nonEmpty (hGet (rcHeaders rc) ''Range''), giIfMatch = nonEmpty (hGet (rcHeaders rc) ''If-Match''),
    giIfNoneMatch = nonEmpty (hGet (rcHeaders rc) ''If-None-Match''),
    giIfModifiedSince = conditionTime (rcHeaders rc) ''If-Modified-Since'',
    giIfUnmodifiedSince = conditionTime (rcHeaders rc) ''If-Unmodified-Since''\<rparr>"
  show "\<exists>i. giBucket i = bBucket (bcConfig bc) \<and> giKey i = conservativePathUnescape (finalKeyOf bc d) \<and>
      snd (executeGetObject bc rc d v) = snd (opGetObject (bcOperations bc) i v)"
    by (rule exI [of _ ?i]) (simp add: executeGetObject_def Let_def callBackend_world objectKeyOf_def)
qed

text \<open>What the source of a copy is, once its route has been looked up.\<close>

lemma copySourceOf_cases:
  assumes "copySourceOf ex d cs = (Inr src, m')" "exMatcher ex = Some m"
  obtains (parts) sb sk where "SplitN2 (TrimPrefix cs ''/'') ''/'' = [sb, sk]"
    "case fst (Match (exCacheOps ex) m sb sk ''GET'') of
       Inl _ \<Rightarrow> src = cs
     | Inr sd \<Rightarrow> (\<exists>b db. dBackend sd = Some b \<and> dBackend d = Some db \<and>
         (case GetClient (exManager ex) (bID b) of
            Inl _ \<Rightarrow> src = cs
          | Inr sc \<Rightarrow> bID b = bID db \<and> src = ''/'' @ bBucket (bcConfig sc) @ ''/'' @ finalKeyOf sc sd))"
  using assms
  by (auto simp: copySourceOf_def finalKeyOf_def split: list.split_asm sum.split_asm fault.split_asm prod.split_asm
      option.split_asm if_split_asm)

lemma copySourceOf_reads:
  assumes "copySourceOf ex d cs = (Inr src, m')" "exMatcher ex = Some m"
  obtains (parts) sb sk where "SplitN2 (TrimPrefix cs ''/'') ''/'' = [sb, sk]"
    "case fst (Match (exCacheOps ex) m sb sk ''GET'') of
       Inl _ \<Rightarrow> src = cs
     | Inr sd \<Rightarrow> (\<exists>b db. dBackend sd = Some b \<and> dBackend d = Some db \<and>
         (case GetClient (exManager ex) (bID b) of
            Inl _ \<Rightarrow> src = cs
          | Inr sc \<Rightarrow> bID b = bID db \<and> (\<exists>bucket k. src = ''/'' @ bucket @ ''/'' @ k \<and> getReads sc sd bucket k)))"
  using assms
proof (cases rule: copySourceOf_cases)
  case (parts sb sk)
  show ?thesis
  proof (cases "fst (Match (exCacheOps ex) m sb sk ''GET'')")
    case (Inr sd)
    with parts(2) obtain b db where b: "dBackend sd = Some b" "dBackend d = Some db"
      "case GetClient (exManager ex) (bID b) of
         Inl _ \<Rightarrow> src = cs
       | Inr sc \<Rightarrow> bID b = bID db \<and> src = ''/'' @ bBucket (bcConfig sc) @ ''/'' @ finalKeyOf sc sd" by auto
    show ?thesis
    proof (cases "GetClient (exManager ex) (bID b)")
      case (Inr sc)
      with b(3) getReads_final [of sc sd] have
        "bID b = bID db \<and> (\<exists>bucket k. src = ''/'' @ bucket @ ''/'' @ k \<and> getReads sc sd bucket k)" by auto
      with Inr \<open>fst (Match _ _ _ _ _) = Inr sd\<close> b(1,2) show ?thesis by (intro that [OF parts(1)]) simp
    qed (use Inr b in \<open>auto intro!: that [OF parts(1)]\<close>)
  qed (use parts that in simp)
qed

text \<open>
  C13: a copy that changes anything sends one request, to the destination of its own route.  When the
  router has a route and a backend for its source, that backend is the one of the destination and the
  source named is the object that a GET of the source would read there: nothing is copied from the
  wrong place or across backends.  Only for a source without a route is the client's own text sent.
\<close>

theorem copy_confined:
  assumes "exMatcher ex = Some m" "executeCopyObject ex bc rc d cs w = ((r, w'), m')" "w' \<noteq> w"
  shows "\<exists>sb sk input. SplitN2 (TrimPrefix cs ''/'') ''/'' = [sb, sk] \<and>
    w' = snd (opCopyObject (bcOperations bc) input w) \<and>
    coBucket input = bBucket (bcConfig bc) \<and> coKey input = finalKeyOf bc d \<and>
    (case fst (Match (exCacheOps ex) m sb sk ''GET'') of
       Inl _ \<Rightarrow> coCopySource input = cs
     | Inr sd \<Rightarrow> (\<exists>b db. dBackend sd = Some b \<and> dBackend d = Some db \<and>
         (case GetClient (exManager ex) (bID b) of
            Inl _ \<Rightarrow> coCopySource input = cs
          | Inr sc \<Rightarrow> bID b = bID db \<and>
              (\<exists>bucket k. coCopySource input = ''/'' @ bucket @ ''/'' @ k \<and> getReads sc sd bucket k))))"
proof -
  obtain src m1 where src: "copySourceOf ex d cs = (Inr src, m1)"
    using assms(2,3) by (auto simp: executeCopyObject_def Let_def split: prod.splits sum.splits)
  define input where "input = \<lparr>coBucket = bBucket (bcConfig bc), coCopySource = src, coKey = finalKeyOf bc d,
      coMetadataDirective = directiveOf (hGet (rcHeaders rc) ''x-amz-metadata-directive''),
      coTaggingDirective = directiveOf (hGet (rcHeaders rc) ''x-amz-tagging-directive''),
      coMetadata = metadataOf (rcHeaders rc), coContentType = nonEmpty (hGet (rcHeaders rc) ''Content-Type'')\<rparr>"
  have "w' = snd (opCopyObject (bcOperations bc) input w)"
    using arg_cong [OF assms(2), of "snd \<circ> fst"]
    by (simp add: executeCopyObject_def Let_def src callBackend_world input_def)
  moreover have "coBucket input = bBucket (bcConfig bc)" "coKey input = finalKeyOf bc d" and src_input: "coCopySource input = src"
    by (simp_all add: input_def)
  moreover obtain sb sk where "SplitN2 (TrimPrefix cs ''/'') ''/'' = [sb, sk]"
    "case fst (Match (exCacheOps ex) m sb sk ''GET'') of
       Inl _ \<Rightarrow> coCopySource input = cs
     | Inr sd \<Rightarrow> (\<exists>b db. dBackend sd = Some b \<and> dBackend d = Some db \<and>
         (case GetClient (exManager ex) (bID b) of
            Inl _ \<Rightarrow> coCopySource input = cs
          | Inr sc \<Rightarrow> bID b = bID db \<and>
              (\<exists>bucket k. coCopySource input = ''/'' @ bucket @ ''/'' @ k \<and> getReads sc sd bucket k)))"
    using copySourceOf_reads [OF src assms(1)] unfolding src_input .
  ultimately show ?thesis by blast
qed

lemma sample_copy_source:
  "case fst (Match one_entry_cache sample_routes ''media'' ''img/c'' ''GET'') of
     Inr sd \<Rightarrow> map_option bID (dBackend sd) = Some ''b1'' | Inl _ \<Rightarrow> False"
  "SplitN2 (TrimPrefix ''/media/img/c'' ''/'') ''/'' = [''media'', ''img/c'']"
  by code_simp+

lemma sample_copy:
  "snd (fst (executeCopyObject (sample_executor []) (sample_client ''b1'') sample_upload sample_decision ''/media/img/c'' 0)) = 1"
  by code_simp

theorem copy_confined_witness:
  "\<exists>input :: copy_object_input. coKey input = ''b1/img/a'' \<and>
     (\<exists>sd bucket k. coCopySource input = ''/'' @ bucket @ ''/'' @ k \<and> getReads (sample_client ''b1'') sd bucket k)"
proof -
  obtain r w' m' where run:
    "executeCopyObject (sample_executor []) (sample_client ''b1'') sample_upload sample_decision ''/media/img/c'' 0 = ((r, w'), m')"
    by (metis prod.exhaust)
  then have "w' \<noteq> 0" using sample_copy by simp
  moreover have m: "exMatcher (sample_executor []) = Some sample_routes" by (simp add: sample_executor_def)
  moreover obtain sd b where "fst (Match one_entry_cache sample_routes ''media'' ''img/c'' ''GET'') = Inr sd"
    "dBackend sd = Some b" "bID b = ''b1''"
    using sample_copy_source(1) by (auto split: sum.splits)
  moreover have "GetClient (exManager (sample_executor [])) ''b1'' = Inr (sample_client ''b1'')"
    "exCacheOps (sample_executor []) = one_entry_cache"
    "finalKeyOf (sample_client ''b1'') sample_decision = ''b1/img/a''"
    by (simp_all add: GetClient_def sample_executor_def finalKeyOf_def sample_client_def sample_backend_def sample_decision_def)
  ultimately show ?thesis
    using copy_confined [OF m run] sample_copy_source(2) by simp blast
qed

end
