(* ===== verification/Server.thy ===== *)
theory Server
  imports ExecutorFacts Verifier VirtualHost ListRoutes
begin

section \<open>The server\<close>

text \<open>
  \<open>internal/server/server.go\<close>: a request is limited, its bucket and key are found, and it goes to the
  bucket operations, the listings or the executor; what they return is written or becomes an error.

  The response writer records the calls made on it: the first status with the headers of that moment, and
  what is written.  A write succeeds; what the connection makes of it is not modelled.  An error put
  into a message stays the value it is, and an XML body of a listing the value it is marshalled from.
  Logging, tracing and metrics are left out.
\<close>

subsection \<open>Writing responses\<close>

datatype message = Literal string | ProxyFailed proxy_error | ListFailed list_error

datatype chunk = Line message | Bytes string | Xml document

record writer =
  wHeader :: header
  wStatus :: "nat option"
  wSent :: header
  wBody :: "chunk list"

definition newWriter :: writer where
  "newWriter = \<lparr>wHeader = [], wStatus = None, wSent = [], wBody = []\<rparr>"

definition WriteHeader :: "nat \<Rightarrow> writer \<Rightarrow> writer" where
  "WriteHeader code w = (case wStatus w of None \<Rightarrow> w\<lparr>wStatus := Some code, wSent := wHeader w\<rparr> | Some _ \<Rightarrow> w)"

definition WriteBody :: "chunk \<Rightarrow> writer \<Rightarrow> writer" where
  "WriteBody c w = (let w1 = WriteHeader 200 w in w1\<lparr>wBody := wBody w1 @ [c]\<rparr>)"

definition addHeaders :: "header \<Rightarrow> writer \<Rightarrow> writer" where
  "addHeaders h w = w\<lparr>wHeader := fold (\<lambda>(k, vs). AList.update k vs) h (wHeader w)\<rparr>"

text \<open>\<open>http.Error\<close>.\<close>

definition httpErrorTo :: "message \<Rightarrow> nat \<Rightarrow> writer \<Rightarrow> writer" where
  "httpErrorTo msg code w =
     WriteBody (Line msg) (WriteHeader code (w\<lparr>wHeader :=
       hSet ''X-Content-Type-Options'' ''nosniff'' (hSet ''Content-Type'' ''text/plain; charset=utf-8''
         (hDel ''Content-Length'' (wHeader w)))\<rparr>))"

text \<open>A document of the handlers of buckets and listings.\<close>

definition writeDocument :: "document response \<Rightarrow> writer \<Rightarrow> writer" where
  "writeDocument resp w = WriteBody (Xml (rsBody resp)) (WriteHeader (rsStatus resp) (addHeaders (rsHeader resp) w))"

subsection \<open>Errors\<close>

record http_error =
  heStatus :: nat
  heMessage :: message
  heHeader :: header

fun addPairs :: "string list \<Rightarrow> header \<Rightarrow> header" where
  "addPairs (k # v # kvs) h = addPairs kvs (hAdd k v h)"
| "addPairs _ h = h"

definition NewHTTPError :: "message \<Rightarrow> nat \<Rightarrow> string list \<Rightarrow> http_error" where
  "NewHTTPError msg status headerValuePairs =
     \<lparr>heStatus = status, heMessage = msg, heHeader = addPairs headerValuePairs []\<rparr>"

text \<open>An error of a handler; \<open>errors.As\<close> looks into a joined one.\<close>

datatype server_error = Http http_error | Joined http_error proxy_error | Other string

fun asHTTPError :: "server_error \<Rightarrow> http_error option" where
  "asHTTPError (Http e) = Some e"
| "asHTTPError (Joined e _) = Some e"
| "asHTTPError (Other _) = None"

text \<open>What \<open>HandleS3Request\<close> defers.\<close>

definition reportError :: "server_error \<Rightarrow> writer \<Rightarrow> writer" where
  "reportError err w =
     (case asHTTPError err of
        Some e \<Rightarrow> httpErrorTo (heMessage e) (heStatus e) (addHeaders (heHeader e) w)
      | None \<Rightarrow> httpErrorTo (Literal ''Internal Server Error'') 500 w)"

subsection \<open>Authentication\<close>

definition missingAuth :: http_error where
  "missingAuth = NewHTTPError (Literal ''Missing Authorization header'') 401 [''WWW-Authenticate'', ''AWS4-HMAC-SHA256'']"

definition authFailure :: "auth_error \<Rightarrow> http_error" where
  "authFailure e =
     (if aeCode e = ''MissingAuthenticationToken'' then missingAuth
      else if aeCode e \<in> {''InvalidAuthHeader'', ''MissingDateHeader'', ''InvalidDateHeader''} then
        NewHTTPError (Literal ''Invalid authentication header'') 400 []
      else if aeCode e = ''InvalidAccessKeyId'' then
        NewHTTPError (Literal ''The AWS Access Key Id you provided does not exist in our records'') 403 []
      else if aeCode e = ''SignatureDoesNotMatch'' then
        NewHTTPError (Literal ''The authorization signature provided is invalid'') 403 []
      else if aeCode e = ''RequestTimeTooSkewed'' then
        NewHTTPError (Literal ''Request timestamp too far from current time'') 403 []
      else NewHTTPError (Literal ''Authentication failed'') 403 [])"

text \<open>The block every handler begins with; the request comes back as the verifier leaves it.\<close>

definition authenticate :: "verifier \<Rightarrow> time \<Rightarrow> request \<Rightarrow> http_error fault + auth_context \<times> request" where
  "authenticate v now r =
     (case VerifyRequest v now r of
        (None, _) \<Rightarrow> Inl Panicked
      | (Some (_, Some e), _) \<Rightarrow> Inl (Failed (authFailure e))
      | (Some (ctx, None), r1) \<Rightarrow> if acIsAuthenticated ctx then Inr (ctx, r1) else Inl (Failed missingAuth))"

subsection \<open>Bucket and key\<close>

definition parsePathStyle :: "string \<Rightarrow> string list" where
  "parsePathStyle path =
     (if path = ''/'' \<or> length path \<le> 1 then []
      else
        (let p = tl path in
         case IndexByte p CHR ''/'' of
           Some i \<Rightarrow> take i p # (if Suc i < length p then [drop (Suc i) p] else [])
         | None \<Rightarrow> [p]))"

definition ParseS3PathWithChecker :: "request \<Rightarrow> virtual_host_config option \<Rightarrow> unit fault + string \<times> string" where
  "ParseS3PathWithChecker r checker =
     (let path = EscapedPath (qURL r);
          pathStyle = (case parsePathStyle path of
              [] \<Rightarrow> ([], [])
            | b # ps \<Rightarrow> (case PathUnescape b of Some x \<Rightarrow> x | None \<Rightarrow> [], case ps of k # _ \<Rightarrow> k | [] \<Rightarrow> []))
      in case checker of
           None \<Rightarrow> Inr pathStyle
         | Some vh \<Rightarrow>
             (case GetBucketMapping vh (qHost r) of
                Inl e \<Rightarrow> Inl e
              | Inr (Some mapped) \<Rightarrow> Inr (mapped, if 1 < length path then tl path else [])
              | Inr None \<Rightarrow> Inr pathStyle))"

subsection \<open>State\<close>

text \<open>The handler of listings: its view of the configuration and the backends, and its optimiser.\<close>

record list_handler =
  lhConfig :: config
  lhClients :: clients
  lhSchedule :: "route_result list \<Rightarrow> event list"
  lhSortObjects :: "virtual_object list \<Rightarrow> virtual_object list"
  lhSortItems :: "response_item list \<Rightarrow> response_item list"
  lhOptimizer :: optimizer

record ('w, 'c) server =
  svMatcher :: "'c matcher"
  svVerifier :: verifier
  svBuckets :: config
  svLists :: list_handler
  svExecutor :: "('w, 'c) executor"
  svMarshal :: "proxy_document \<Rightarrow> string"
  svMaxBodySize :: int
  svVirtualHosts :: "virtual_host_config option"

record ('w, 'c) io =
  ioServer :: "('w, 'c) server"
  ioWriter :: writer
  ioWorld :: 'w

text \<open>The executor has the matcher of the server, by reference.\<close>

definition withMatcher :: "'c matcher \<Rightarrow> ('w, 'c) io \<Rightarrow> ('w, 'c) io" where
  "withMatcher m io =
     (let sv = ioServer io; ex = svExecutor sv in
      io\<lparr>ioServer := sv\<lparr>svMatcher := m, svExecutor := ex\<lparr>exMatcher := map_option (\<lambda>_. m) (exMatcher ex)\<rparr>\<rparr>\<rparr>)"

definition onWriter :: "(writer \<Rightarrow> writer) \<Rightarrow> ('w, 'c) io \<Rightarrow> ('w, 'c) io" where
  "onWriter f io = io\<lparr>ioWriter := f (ioWriter io)\<rparr>"

text \<open>The times read while a request is served: by the verifier, at the start, and by the signer.\<close>

record clock =
  ckVerify :: time
  ckStart :: time
  ckSign :: time

datatype handler_result = Crashed | Finished "server_error option"

type_synonym ('w, 'c) handled = "handler_result \<times> ('w, 'c) io"

subsection \<open>Operations on objects\<close>

text \<open>The announced length of a successful response, when it is over the limit.\<close>

definition announcedExcess :: "int \<Rightarrow> proxy_response \<Rightarrow> int option" where
  "announcedExcess limit resp =
     (let cl = hGet (rsHeader resp) ''Content-Length'' in
      if rsStatus resp = 200 \<and> cl \<noteq> [] then
        (case scanInt 64 cl of Some n \<Rightarrow> if limit < n then Some n else None | None \<Rightarrow> None)
      else None)"

definition bodyOf :: "(proxy_document \<Rightarrow> string) \<Rightarrow> proxy_response \<Rightarrow> stream" where
  "bodyOf marshal resp = (case rsBody resp of Raw s \<Rightarrow> s | Document doc \<Rightarrow> (marshal doc, None))"

text \<open>
  \<open>io.Copy\<close> of at most one byte more than the limit.  The sum is an \<open>int64\<close>: at the largest limit it wraps to a
  negative one, and nothing is copied.
\<close>

definition copyLimited :: "int \<Rightarrow> stream \<Rightarrow> writer \<Rightarrow> server_error option \<times> writer" where
  "copyLimited limit body w =
     (let n = (if limit < 2 ^ 63 - 1 then nat (limit + 1) else 0);
          out = take n (fst body);
          w1 = (if out = [] then w else WriteBody (Bytes out) w)
      in case (if length (fst body) < n then snd body else None) of
           Some e \<Rightarrow> (Some (Other (''failed to copy response body: '' @ e)), w1)
         | None \<Rightarrow>
             (if limit < int (length out) then
                (Some (Other (''response body exceeds maximum allowed size: '' @ fmt_int (int (length out)) @ '' > '' @ fmt_int limit)), w1)
              else (None, w1)))"

definition writeResponse ::
  "int \<Rightarrow> (proxy_document \<Rightarrow> string) \<Rightarrow> proxy_response \<Rightarrow> writer \<Rightarrow> server_error option \<times> writer" where
  "writeResponse limit marshal resp w =
     (case announcedExcess limit resp of
        Some n \<Rightarrow>
          (Some (Other (''response size exceeds limit: '' @ fmt_int n @ '' > '' @ fmt_int limit)),
           WriteBody (Line (Literal (''Object size '' @ fmt_int n @ '' exceeds maximum allowed size '' @ fmt_int limit)))
             (WriteHeader 413 w))
      | None \<Rightarrow>
          copyLimited limit (bodyOf marshal resp) (WriteHeader (rsStatus resp) (addHeaders (rsHeader resp) w)))"

definition requestContext :: "clock \<Rightarrow> request \<Rightarrow> auth_context \<Rightarrow> string \<Rightarrow> string \<Rightarrow> operation \<Rightarrow> request_context" where
  "requestContext ck r ctx bucketName objectKey op =
     \<lparr>rcBucket = bucketName, rcObjectKey = objectKey, rcOperation = op, rcHeaders = qHeader r,
      rcPrincipal = acPrincipal ctx, rcMethod = qMethod r, rcTime = ckStart ck, rcRequest = r, rcQueryParams = qQuery r\<rparr>"

definition executeProxy ::
  "clock \<Rightarrow> request_context \<Rightarrow> decision \<Rightarrow> ('w, 'c) io \<Rightarrow> ('w, 'c) handled" where
  "executeProxy ck rc d io =
     (let sv = ioServer io;
          ((res, world), m) = ExecuteRequest (svExecutor sv) (ckSign ck) rc d (ioWorld io);
          io1 = (case m of None \<Rightarrow> io | Some m1 \<Rightarrow> withMatcher m1 io)\<lparr>ioWorld := world\<rparr>
      in case res of
           Inl Panicked \<Rightarrow> (Crashed, io1)
         | Inl (Failed e) \<Rightarrow> (Finished (Some (Joined (NewHTTPError (ProxyFailed e) 502 []) e)), io1)
         | Inr resp \<Rightarrow>
             (let (err, w) = writeResponse (svMaxBodySize sv) (svMarshal sv) resp (ioWriter io1)
              in (Finished err, io1\<lparr>ioWriter := w\<rparr>)))"

definition handleObjectOperation ::
  "clock \<Rightarrow> request \<Rightarrow> string \<Rightarrow> string \<Rightarrow> operation \<Rightarrow> ('w, 'c) io \<Rightarrow> ('w, 'c) handled" where
  "handleObjectOperation ck r bucketName objectKey op io =
     (let sv = ioServer io in
      case authenticate (svVerifier sv) (ckVerify ck) r of
        Inl Panicked \<Rightarrow> (Crashed, io)
      | Inl (Failed e) \<Rightarrow> (Finished (Some (Http e)), io)
      | Inr (ctx, r1) \<Rightarrow>
          (case Match (exCacheOps (svExecutor sv)) (svMatcher sv) bucketName objectKey (qMethod r1) of
             (Inl Panicked, m1) \<Rightarrow> (Crashed, withMatcher m1 io)
           | (Inl (Failed _), m1) \<Rightarrow>
               (Finished (Some (Http (NewHTTPError (Literal ''Not found'') 404 []))), withMatcher m1 io)
           | (Inr d, m1) \<Rightarrow>
               (if dBackend d = None then (Crashed, withMatcher m1 io)
                else executeProxy ck (requestContext ck r1 ctx bucketName objectKey op) d (withMatcher m1 io))))"

subsection \<open>Listings\<close>

definition listBucket ::
  "list_v2_params \<Rightarrow> string \<Rightarrow> list_handler \<Rightarrow> (list_error fault + list_v2_response) \<times> list_handler" where
  "listBucket params bucketName lh =
     (let (res, opt) = HandleListObjectsV2 (lhConfig lh) (lhClients lh) (lhSchedule lh) (lhSortObjects lh)
            (lhSortItems lh) (lhOptimizer lh) bucketName params
      in (res, lh\<lparr>lhOptimizer := opt\<rparr>))"

text \<open>Both listings, with what turns the response into a document.\<close>

definition handleListing ::
  "clock \<Rightarrow> request \<Rightarrow> string \<Rightarrow> list_v2_params \<Rightarrow> (list_v2_response \<Rightarrow> document) \<Rightarrow> ('w, 'c) io \<Rightarrow> ('w, 'c) handled" where
  "handleListing ck r bucketName params document io =
     (let sv = ioServer io in
      case authenticate (svVerifier sv) (ckVerify ck) r of
        Inl Panicked \<Rightarrow> (Crashed, io)
      | Inl (Failed e) \<Rightarrow> (Finished (Some (Http e)), io)
      | Inr _ \<Rightarrow>
          (let (res, lh) = listBucket params bucketName (svLists sv); io1 = io\<lparr>ioServer := sv\<lparr>svLists := lh\<rparr>\<rparr> in
           case res of
             Inl Panicked \<Rightarrow> (Crashed, io1)
           | Inl (Failed e) \<Rightarrow> (Finished (Some (Http (NewHTTPError (ListFailed e) 500 []))), io1)
           | Inr resp \<Rightarrow> (Finished None, onWriter (writeDocument (xmlResponse 200 (document resp))) io1)))"

definition toV1Response :: "list_v1_params \<Rightarrow> list_v2_response \<Rightarrow> list_v1_response" where
  "toV1Response params resp =
     \<lparr>l1XMLNS = s3Namespace, l1Name = lrName resp, l1Prefix = lrPrefix resp, l1Marker = p1Marker params,
      l1NextMarker = (if lrIsTruncated resp \<and> lrContents resp \<noteq> [] then oKey (last (lrContents resp)) else []),
      l1Delimiter = lrDelimiter resp, l1MaxKeys = lrMaxKeys resp, l1IsTruncated = lrIsTruncated resp,
      l1Contents = lrContents resp, l1CommonPrefixes = lrCommonPrefixes resp\<rparr>"

definition handleListObjects :: "clock \<Rightarrow> request \<Rightarrow> string \<Rightarrow> ('w, 'c) io \<Rightarrow> ('w, 'c) handled" where
  "handleListObjects ck r bucketName io =
     (let params = ParseListObjectsParams (qQuery r) in
      handleListing ck r bucketName (ToV2Params params) (ListV1Doc \<circ> toV1Response params) io)"

definition handleListObjectsV2 :: "clock \<Rightarrow> request \<Rightarrow> string \<Rightarrow> ('w, 'c) io \<Rightarrow> ('w, 'c) handled" where
  "handleListObjectsV2 ck r bucketName io =
     handleListing ck r bucketName (ParseListObjectsV2Params (qQuery r)) ListV2Doc io"

definition handleObjectOperations :: "clock \<Rightarrow> request \<Rightarrow> string \<Rightarrow> string \<Rightarrow> ('w, 'c) io \<Rightarrow> ('w, 'c) handled" where
  "handleObjectOperations ck r bucketName objectKey io =
     (if DetectListObjects r objectKey then handleListObjects ck r bucketName io
      else if objectKey = [] \<and> DetectListObjectsV2 r then handleListObjectsV2 ck r bucketName io
      else handleObjectOperation ck r bucketName objectKey (DetectMultipartOperation (qMethod r) (qQuery r)) io)"

subsection \<open>Operations on buckets\<close>

text \<open>\<^const>\<open>None\<close> when the request is not for a bucket.\<close>

definition handleBucketOperations ::
  "clock \<Rightarrow> request \<Rightarrow> string \<Rightarrow> string \<Rightarrow> ('w, 'c) io \<Rightarrow> ('w, 'c) handled option" where
  "handleBucketOperations ck r bucketName objectKey io =
     (let op = DetectBucketOperation r bucketName objectKey; sv = ioServer io in
      if op = NoOperation then None
      else case authenticate (svVerifier sv) (ckVerify ck) r of
        Inl Panicked \<Rightarrow> Some (Crashed, io)
      | Inl (Failed e) \<Rightarrow> Some (Finished (Some (Http e)), io)
      | Inr _ \<Rightarrow>
          (if op = ListBuckets then Some (Finished None, onWriter (writeDocument (HandleListBuckets (svBuckets sv))) io)
           else if op = CreateBucket then Some (Finished None, onWriter (writeDocument HandleCreateBucket) io)
           else if op = DeleteBucket then Some (Finished None, onWriter (writeDocument HandleDeleteBucket) io)
           else None))"

subsection \<open>Requests\<close>

text \<open>\<open>http.MaxBytesReader\<close>: after so many bytes, more of them is an error.\<close>

definition MaxBytesReader :: "nat \<Rightarrow> request \<Rightarrow> request" where
  "MaxBytesReader n r =
     (if n < length (qBody r) then r\<lparr>qBody := take n (qBody r), qBodyErr := Some ''http: request body too large''\<rparr> else r)"

definition limitRequest :: "('w, 'c) server \<Rightarrow> request \<Rightarrow> request" where
  "limitRequest sv r = (if 0 < svMaxBodySize sv then MaxBytesReader (nat (svMaxBodySize sv)) r else r)"

text \<open>The result says whether the handler returned; it does not when a part of it panics.\<close>

definition finish :: "('w, 'c) handled \<Rightarrow> bool \<times> ('w, 'c) io" where
  "finish h =
     (case h of
        (Crashed, io) \<Rightarrow> (False, io)
      | (Finished None, io) \<Rightarrow> (True, io)
      | (Finished (Some e), io) \<Rightarrow> (True, onWriter (reportError e) io))"

definition HandleS3Request :: "clock \<Rightarrow> request \<Rightarrow> ('w, 'c) io \<Rightarrow> bool \<times> ('w, 'c) io" where
  "HandleS3Request ck r0 io =
     (let r = limitRequest (ioServer io) r0 in
      case ParseS3PathWithChecker r (svVirtualHosts (ioServer io)) of
        Inl _ \<Rightarrow> (False, io)
      | Inr (bucketName, objectKey) \<Rightarrow>
          (case handleBucketOperations ck r bucketName objectKey io of
             Some h \<Rightarrow> finish h
           | None \<Rightarrow>
               (if bucketName = [] then (True, onWriter (httpErrorTo (Literal ''Invalid S3 path'') 400) io)
                else finish (handleObjectOperations ck r bucketName objectKey io))))"

end
