(* ===== verification/ServerFacts.thy ===== *)
theory ServerFacts
  imports Server SignVerify
begin

section \<open>Properties of the server\<close>

text \<open>
  What \<open>HandleS3Request\<close> guarantees from end to end: who gets in, how much is sent, and which object a
  request reaches.
\<close>

lemmas handlers = handleListObjects_def handleListObjectsV2_def handleListing_def handleObjectOperation_def

text \<open>The ways through the handler, with \<open>r\<close> the limited request.\<close>

lemma HandleS3Request_cases:
  obtains (panics) "HandleS3Request ck r0 io = (False, io)"
    | (bucket) b k h where "handleBucketOperations ck (limitRequest (ioServer io) r0) b k io = Some h"
        "HandleS3Request ck r0 io = finish h"
    | (nowhere) "HandleS3Request ck r0 io = (True, onWriter (httpErrorTo (Literal ''Invalid S3 path'') 400) io)"
    | (object) b k where
        "HandleS3Request ck r0 io = finish (handleObjectOperations ck (limitRequest (ioServer io) r0) b k io)"
proof (cases "ParseS3PathWithChecker (limitRequest (ioServer io) r0) (svVirtualHosts (ioServer io))")
  case (Inr bk)
  then show thesis
    using bucket object nowhere
    by (cases bk; cases "handleBucketOperations ck (limitRequest (ioServer io) r0) (fst bk) (snd bk) io"; cases "fst bk = []")
      (auto simp: HandleS3Request_def Let_def)
qed (simp add: panics HandleS3Request_def Let_def)

subsection \<open>Refused requests\<close>

text \<open>The answer to a request that is not authenticated.\<close>

definition refusal :: "http_error \<Rightarrow> bool" where
  "refusal e \<longleftrightarrow> heStatus e \<in> {400, 401, 403} \<and> (\<exists>text. heMessage e = Literal text)"

lemma refusal_authFailure: "refusal (authFailure e)" "refusal missingAuth"
  by (simp_all add: refusal_def authFailure_def missingAuth_def NewHTTPError_def)

definition accepted :: "verifier \<Rightarrow> time \<Rightarrow> request \<Rightarrow> bool" where
  "accepted v now r \<longleftrightarrow>
     (case fst (VerifyRequest v now r) of Some (ctx, None) \<Rightarrow> acIsAuthenticated ctx | _ \<Rightarrow> False)"

lemma authenticate_refused:
  assumes "\<not> accepted v now r"
  obtains "authenticate v now r = Inl Panicked" | e where "authenticate v now r = Inl (Failed e)" "refusal e"
proof (cases "VerifyRequest v now r")
  case (Pair res r1)
  consider "res = None" | ctx e where "res = Some (ctx, Some e)" | ctx where "res = Some (ctx, None)"
    by (metis not_None_eq surj_pair)
  then show thesis
    using that assms Pair refusal_authFailure by cases (simp_all add: accepted_def authenticate_def)
qed

lemma report_refusal:
  "refusal e \<Longrightarrow> \<exists>code text. code \<in> {400, 401, 403} \<and>
     wStatus (reportError (Http e) newWriter) = Some code \<and> wBody (reportError (Http e) newWriter) = [Line (Literal text)]"
  by (auto simp: refusal_def reportError_def httpErrorTo_def WriteBody_def WriteHeader_def addHeaders_def newWriter_def Let_def)

lemma reject_path:
  "wStatus (httpErrorTo (Literal text) code newWriter) = Some code \<and>
   wBody (httpErrorTo (Literal text) code newWriter) = [Line (Literal text)]"
  by (simp add: httpErrorTo_def WriteBody_def WriteHeader_def newWriter_def Let_def)

lemma object_operations_refused:
  assumes "\<not> accepted (svVerifier (ioServer io)) (ckVerify ck) r"
  shows "handleObjectOperations ck r b k io = (Crashed, io) \<or>
    (\<exists>e. refusal e \<and> handleObjectOperations ck r b k io = (Finished (Some (Http e)), io))"
  using assms
  by (rule authenticate_refused) (simp_all add: handleObjectOperations_def handlers Let_def)

lemma bucket_operations_refused:
  assumes "\<not> accepted (svVerifier (ioServer io)) (ckVerify ck) r"
  shows "handleBucketOperations ck r b k io \<in> {None, Some (Crashed, io)} \<or>
    (\<exists>e. refusal e \<and> handleBucketOperations ck r b k io = Some (Finished (Some (Http e)), io))"
  using assms
  by (rule authenticate_refused) (simp_all add: handleBucketOperations_def Let_def)

text \<open>
  C2: a request that the verifier does not accept, whatever it asks for, changes nothing: no backend is
  called and the server keeps its state.  If the handler returns, it has answered 400, 401 or 403 with
  one fixed line of text; otherwise nothing has been written.  This includes \<open>ListBuckets\<close>, \<open>CreateBucket\<close>
  and \<open>DeleteBucket\<close>, which the README and the design document say are answered without authentication:
  the code authenticates them like every other request.
\<close>

theorem unauthenticated_changes_nothing:
  assumes "\<not> accepted (svVerifier (ioServer io)) (ckVerify ck) (limitRequest (ioServer io) r)" "ioWriter io = newWriter"
  shows "case HandleS3Request ck r io of (returned, io') \<Rightarrow>
    ioWorld io' = ioWorld io \<and> ioServer io' = ioServer io \<and>
    (if returned then
       (\<exists>code text. code \<in> {400, 401, 403} \<and> wStatus (ioWriter io') = Some code \<and>
          wBody (ioWriter io') = [Line (Literal text)])
     else ioWriter io' = newWriter)"
proof -
  let ?r = "limitRequest (ioServer io) r"
  have final: "case finish h of (returned, io') \<Rightarrow>
    ioWorld io' = ioWorld io \<and> ioServer io' = ioServer io \<and>
    (if returned then
       (\<exists>code text. code \<in> {400, 401, 403} \<and> wStatus (ioWriter io') = Some code \<and>
          wBody (ioWriter io') = [Line (Literal text)])
     else ioWriter io' = newWriter)"
    if "h = (Crashed, io) \<or> (\<exists>e. refusal e \<and> h = (Finished (Some (Http e)), io))" for h
    using that assms(2) report_refusal by (auto simp: finish_def onWriter_def)
  show ?thesis
  proof (cases ck r io rule: HandleS3Request_cases)
    case (bucket b k h)
    with bucket_operations_refused [OF assms(1), of b k] final [of h] show ?thesis by auto
  next
    case (object b k)
    with final [OF object_operations_refused [OF assms(1), of b k]] show ?thesis by simp
  qed (use assms(2) reject_path in \<open>auto simp: onWriter_def\<close>)
qed

subsection \<open>Reading an object\<close>

lemma unescape_plain_modes:
  "m \<noteq> EncodeQueryComponent \<Longrightarrow> m' \<noteq> EncodeQueryComponent \<Longrightarrow> unescape m s = unescape m' s"
proof (induction m s rule: unescape.induct)
  case (2 m c s)
  then show ?case by (auto split: list.splits option.splits)
qed simp

lemma PathUnescape_escape: "PathUnescape (escape EncodePath b) = Some b"
  unfolding PathUnescape_def using unescape_plain_modes [of EncodePathSegment EncodePath] unescape_escape by simp

lemma slash_escape: "CHR ''/'' \<notin> set b \<Longrightarrow> CHR ''/'' \<notin> set (escape EncodePath b)"
proof (induction b)
  case (Cons c b)
  have "hex_upper d \<noteq> CHR ''/''" if "d < 16" for d
  proof -
    have "list_all (\<lambda>d. hex_upper d \<noteq> CHR ''/'') [0..<16]" by code_simp
    with that show ?thesis by (simp add: list_all_iff)
  qed
  moreover have "(of_char c :: nat) div 16 < 16" using nat_of_char_less_256 [of c] by (simp add: less_mult_imp_div_less)
  ultimately have "CHR ''/'' \<notin> set (percent c)" by (auto simp: percent_def dest: sym)
  with Cons show ?case by (auto simp: escape_def escape_char_def)
qed (simp add: escape_def)

lemma escape_append: "escape m (s @ t) = escape m s @ escape m t"
  by (simp add: escape_def)

lemma escape_slash: "escape EncodePath ''/'' = ''/''"
  by code_simp

lemma escape_eq_Nil: "escape m s = [] \<longleftrightarrow> s = []"
  by (cases s) (simp_all add: escape_def escape_char_def percent_def)

lemma parsePathStyle_split:
  assumes "CHR ''/'' \<notin> set p" "q \<noteq> []"
  shows "parsePathStyle (''/'' @ p @ ''/'' @ q) = [p, q]"
proof -
  have "IndexByte (p @ ''/'' @ q) CHR ''/'' = Some (length p)"
    using IndexByte_append [OF assms(1), of q] by simp
  then show ?thesis using assms by (simp add: parsePathStyle_def Let_def)
qed

text \<open>The path a client asks for: the bucket, and the key still escaped.\<close>

lemma path_of_object:
  assumes "uPath (qURL r) = ''/'' @ b @ ''/'' @ k" "uRawPath (qURL r) = []" "CHR ''/'' \<notin> set b" "k \<noteq> []"
  shows "ParseS3PathWithChecker r None = Inr (b, escape EncodePath k)"
proof -
  have "EscapedPath (qURL r) = escape EncodePath (''/'' @ b @ ''/'' @ k)"
    using assms(1,2) by (simp add: EscapedPath_def)
  then have "EscapedPath (qURL r) = ''/'' @ escape EncodePath b @ ''/'' @ escape EncodePath k"
    by (simp only: escape_append escape_slash)
  then show ?thesis
    using parsePathStyle_split [OF slash_escape [OF assms(3)], of "escape EncodePath k"] assms(4)
    by (simp add: ParseS3PathWithChecker_def PathUnescape_escape escape_eq_Nil)
qed

lemma VerifyRequest_keeps:
  "VerifyRequest v now r = (x, r1) \<Longrightarrow> qURL r1 = qURL r \<and> qMethod r1 = qMethod r"
proof -
  have comp: "qURL (snd c) = qURL r \<and> qMethod (snd c) = qMethod r"
    if "c = computeSignatureWithRegion r sec d sh rg" for c sec d sh rg
    using that by (simp add: computeSignatureWithRegion_def Let_def)
  have check: "qURL (snd (checkSignature a p c)) = qURL (snd c) \<and> qMethod (snd (checkSignature a p c)) = qMethod (snd c)" for a p c
    by (simp add: checkSignature_def split: prod.split sum.split fault.split)
  show "VerifyRequest v now r = (x, r1) \<Longrightarrow> qURL r1 = qURL r \<and> qMethod r1 = qMethod r"
    by (auto simp: VerifyRequest_def verifyHeaderSignature_def verifyQuerySignature_def Let_def
        split: if_split_asm sum.split_asm option.split_asm prod.split_asm dest!: arg_cong [of _ _ snd]
        simp: comp [OF refl] check)
qed

lemma scanInt_fmt_int:
  assumes "n < 2 ^ 63"
  shows "scanInt 64 (fmt_int (int n)) = Some (int n)"
proof -
  have d: "\<forall>c \<in> set (fmt_d n). is_digit c" "fmt_d n \<noteq> []"
    using fmt_d_digits by auto
  then obtain c ds where c: "fmt_d n = c # ds" "is_digit c" by (cases "fmt_d n") auto
  then have "c \<noteq> CHR ''-''" "c \<noteq> CHR ''+''" "\<not> is_space c"
    by (auto simp: is_digit_def is_space_def less_eq_char_def)
  moreover have "\<forall>x \<in> set ds. is_digit x" using d c by simp
  note takeWhile_eq_all_conv [THEN iffD2, OF this]
  moreover have "ParseInt (fmt_d n) 10 = Some (int n)" unfolding fmt_d_def using assms by (intro ParseInt_fmt) auto
  ultimately show ?thesis using assms c
    by (simp add: scanInt_def fmt_int_def Let_def \<open>takeWhile is_digit ds = ds\<close>)
qed

lemma hGet_setOptional:
  "CanonicalKey name \<noteq> CanonicalKey k \<Longrightarrow> hGet (setOptional name v h) k = hGet h k"
  by (simp add: setOptional_def split: option.split)

text \<open>The names of the headers of an object that are not its length.\<close>

lemma object_header_names:
  "\<forall>name \<in> set [''Content-Range'', ''Content-Type'', ''Last-Modified'', ''ETag'', ''Content-Language'', ''Content-Disposition'',
      ''Cache-Control'', ''Content-Encoding'', ''x-amz-version-id'', ''Expires'', ''x-amz-storage-class'',
      ''x-amz-server-side-encryption-aws-kms-key-id'', ''x-amz-server-side-encryption'', ''Accept-Ranges''].
     CanonicalKey name \<noteq> CanonicalKey ''Content-Length''"
  "CanonicalKey ''Content-Length'' = ''Content-Length''"
  by code_simp+

lemma hGet_metadata:
  "hGet (fold (\<lambda>(k, v). AList.update (''x-amz-meta-'' @ ToLower k) [v]) md h) ''Content-Length'' = hGet h ''Content-Length''"
proof (induction md arbitrary: h)
  case (Cons kv md)
  obtain k v where kv: "kv = (k, v)" by (cases kv)
  have "hGet (AList.update (''x-amz-meta-'' @ ToLower k) [v] h) ''Content-Length'' = hGet h ''Content-Length''"
    by (simp add: hGet_def hValues_def object_header_names(2) update_conv')
  with Cons kv show ?case by simp
qed simp

lemma object_content_length:
  "hGet (objectHeaders cr output) ''Content-Length'' = toString (map_option fmt_int (hoContentLength output))"
proof -
  note names = object_header_names(1) [simplified]
  have "hGet (setOptional ''Content-Length'' v h) ''Content-Length'' = (case v of Some x \<Rightarrow> x | None \<Rightarrow> hGet h ''Content-Length'')" for v h
    by (simp add: setOptional_def split: option.split)
  moreover have "hGet (setOptional ''Content-Type'' w []) ''Content-Length'' = []" for w
    using names by (simp add: hGet_setOptional) (simp add: hGet_def hValues_def)
  ultimately have "hGet (setOptional ''Content-Length'' v (setOptional ''Content-Type'' w [])) ''Content-Length'' = toString v" for v w
    by (simp add: toString_def split: option.split)
  then show ?thesis
    unfolding objectHeaders_def Let_def hGet_metadata using names by (simp add: hGet_setOptional)
qed

text \<open>
  An object that can be passed on whole: its body ends well, within the limit, and is as long as announced.
  The limit is not the largest \<open>int64\<close>, with which nothing is passed on.
\<close>

definition passable :: "int \<Rightarrow> get_object_output \<Rightarrow> bool" where
  "passable limit output \<longleftrightarrow>
     snd (goBody output) = None \<and> int (length (fst (goBody output))) \<le> limit \<and> limit < 2 ^ 63 - 1 \<and>
     hoContentLength output \<in> {None, Some (int (length (fst (goBody output))))}"

definition sentBytes :: "writer \<Rightarrow> string" where
  "sentBytes w = concat (map (\<lambda>c. case c of Bytes s \<Rightarrow> s | _ \<Rightarrow> []) (wBody w))"

lemma writeResponse_passable:
  assumes "passable limit output"
  shows "\<exists>w. writeResponse limit marshal
      \<lparr>rsStatus = status, rsHeader = objectHeaders cr output, rsBody = Raw (goBody output)\<rparr> newWriter = (None, w) \<and>
    wStatus w = Some status \<and> sentBytes w = fst (goBody output)"
proof -
  let ?resp = "\<lparr>rsStatus = status, rsHeader = objectHeaders cr output, rsBody = Raw (goBody output)\<rparr> :: proxy_response"
  have "int (length (fst (goBody output))) < 2 ^ 63" using assms by (auto simp: passable_def)
  then have "length (fst (goBody output)) < 2 ^ 63"
    using of_nat_less_iff [where 'a = int, of "length (fst (goBody output))" "2 ^ 63"] by simp
  then have "announcedExcess limit ?resp = None"
    using assms by (auto simp: announcedExcess_def object_content_length toString_def passable_def Let_def scanInt_fmt_int)
  moreover have "limit < 2 ^ 63 - 1" "take (nat (limit + 1)) (fst (goBody output)) = fst (goBody output)"
    "length (fst (goBody output)) < nat (limit + 1)"
    using assms by (auto simp: passable_def)
  ultimately show ?thesis
    using assms by (auto simp: writeResponse_def bodyOf_def copyLimited_def Let_def passable_def WriteBody_def
        WriteHeader_def addHeaders_def newWriter_def sentBytes_def)
qed

lemma authenticate_accepted:
  assumes "accepted v now r"
  obtains ctx r1 where "authenticate v now r = Inr (ctx, r1)" "qURL r1 = qURL r" "qMethod r1 = qMethod r"
proof -
  obtain res r1 where v: "VerifyRequest v now r = (res, r1)" by (cases "VerifyRequest v now r")
  then obtain ctx where "res = Some (ctx, None)" "acIsAuthenticated ctx"
    using assms by (auto simp: accepted_def split: option.split_asm prod.split_asm)
  with v that VerifyRequest_keeps [OF v] show thesis by (simp add: authenticate_def)
qed

lemma execute_plain_get:
  assumes "rcMethod rc = ''GET''" "rcOperation rc = NoOperation" "rcQueryParams rc = []"
    "dBackend d = Some b" "GetClient (exManager ex) (bID b) = Inr bc"
  shows "ExecuteRequest ex now rc d w = (executeGetObject bc rc d w, exMatcher ex)"
proof -
  have "ToUpper ''GET'' = ''GET''" by code_simp
  then show ?thesis using assms by (simp add: ExecuteRequest_def Let_def vHas_def)
qed

lemma executeGetObject_asks:
  "\<exists>i. giBucket i = bBucket (bcConfig bc) \<and> giKey i = objectKeyOf bc d \<and>
    (\<forall>w. executeGetObject bc rc d w = callBackend (opGetObject (bcOperations bc)) i
       (\<lambda>output. Inr \<lparr>rsStatus = (if goContentRange output \<noteq> None then 206 else 200),
          rsHeader = objectHeaders (goContentRange output) output, rsBody = Raw (goBody output)\<rparr>) w)"
  by (rule exI [of _ "\<lparr>giBucket = bBucket (bcConfig bc), giKey = objectKeyOf bc d,
    giRange = nonEmpty (hGet (rcHeaders rc) ''Range''), giIfMatch = nonEmpty (hGet (rcHeaders rc) ''If-Match''),
    giIfNoneMatch = nonEmpty (hGet (rcHeaders rc) ''If-None-Match''),
    giIfModifiedSince = conditionTime (rcHeaders rc) ''If-Modified-Since'',
    giIfUnmodifiedSince = conditionTime (rcHeaders rc) ''If-Unmodified-Since''\<rparr>"])
    (simp add: executeGetObject_def Let_def)

lemma objectKeyOf_escaped:
  assumes "dRewrittenKey d = escape EncodePath k" "CHR ''%'' \<notin> set (bPrefix (bcConfig bc))"
  shows "objectKeyOf bc d = bPrefix (bcConfig bc) @ k"
  using conservativePathUnescape_escape [of EncodePath k "[]"] conservativePathUnescape_plain [OF assms(2)] assms(1)
  by (simp add: objectKeyOf_def finalKeyOf_def)

lemma withMatcher_simps [simp]:
  "ioWriter (withMatcher m io) = ioWriter io" "ioWorld (withMatcher m io) = ioWorld io"
  "svMaxBodySize (ioServer (withMatcher m io)) = svMaxBodySize (ioServer io)"
  "svMarshal (ioServer (withMatcher m io)) = svMarshal (ioServer io)"
  "exManager (svExecutor (ioServer (withMatcher m io))) = exManager (svExecutor (ioServer io))"
  by (simp_all add: withMatcher_def Let_def)

text \<open>The state of the world and the answer, after the backend has been asked.\<close>

lemma executeProxy_get:
  assumes "rcMethod rc = ''GET''" "rcOperation rc = NoOperation" "rcQueryParams rc = []"
    "dBackend d = Some b" "GetClient (exManager (svExecutor (ioServer io))) (bID b) = Inr bc" "ioWriter io = newWriter"
  shows "\<exists>i. giBucket i = bBucket (bcConfig bc) \<and> giKey i = objectKeyOf bc d \<and>
    (case opGetObject (bcOperations bc) i (ioWorld io) of (res, w') \<Rightarrow>
       ioWorld (snd (executeProxy ck rc d io)) = w' \<and>
       (\<forall>output. res = Inr output \<and> passable (svMaxBodySize (ioServer io)) output \<longrightarrow>
          fst (executeProxy ck rc d io) = Finished None \<and>
          wStatus (ioWriter (snd (executeProxy ck rc d io))) = Some (if goContentRange output \<noteq> None then 206 else 200) \<and>
          sentBytes (ioWriter (snd (executeProxy ck rc d io))) = fst (goBody output)))"
proof -
  obtain i where i: "giBucket i = bBucket (bcConfig bc)" "giKey i = objectKeyOf bc d"
    "\<forall>w. executeGetObject bc rc d w = callBackend (opGetObject (bcOperations bc)) i
       (\<lambda>output. Inr \<lparr>rsStatus = (if goContentRange output \<noteq> None then 206 else 200),
          rsHeader = objectHeaders (goContentRange output) output, rsBody = Raw (goBody output)\<rparr>) w"
    using executeGetObject_asks [of bc d rc] by blast
  obtain res w' where op: "opGetObject (bcOperations bc) i (ioWorld io) = (res, w')" by fastforce
  define io1 where "io1 = (case exMatcher (svExecutor (ioServer io)) of None \<Rightarrow> io | Some m1 \<Rightarrow> withMatcher m1 io)\<lparr>ioWorld := w'\<rparr>"
  have io1: "ioWorld io1 = w'" "ioWriter io1 = newWriter"
    using assms(6) by (simp_all add: io1_def split: option.split)
  define got where "got = fst (executeGetObject bc rc d (ioWorld io))"
  have "executeGetObject bc rc d (ioWorld io) = (got, w')"
    by (rule prod_eqI) (simp_all add: got_def i(3) callBackend_world op)
  then have ex: "ExecuteRequest (svExecutor (ioServer io)) (ckSign ck) rc d (ioWorld io) = ((got, w'), exMatcher (svExecutor (ioServer io)))"
    by (simp add: execute_plain_get [OF assms(1-5)])
  have run: "executeProxy ck rc d io =
     (case got of
        Inl Panicked \<Rightarrow> (Crashed, io1)
      | Inl (Failed e) \<Rightarrow> (Finished (Some (Joined (NewHTTPError (ProxyFailed e) 502 []) e)), io1)
      | Inr resp \<Rightarrow>
          (let (err, w) = writeResponse (svMaxBodySize (ioServer io)) (svMarshal (ioServer io)) resp newWriter
           in (Finished err, io1\<lparr>ioWriter := w\<rparr>)))"
    unfolding executeProxy_def Let_def ex prod.case io1_def [symmetric] io1 by (rule refl)
  have "ioWorld (snd (executeProxy ck rc d io)) = w'"
    by (simp add: run io1 split: sum.split fault.split prod.split)
  moreover have "fst (executeProxy ck rc d io) = Finished None \<and>
      wStatus (ioWriter (snd (executeProxy ck rc d io))) = Some (if goContentRange ans \<noteq> None then 206 else 200) \<and>
      sentBytes (ioWriter (snd (executeProxy ck rc d io))) = fst (goBody ans)"
    if "res = Inr ans" "passable (svMaxBodySize (ioServer io)) ans" for ans
  proof -
    have "got = Inr \<lparr>rsStatus = (if goContentRange ans \<noteq> None then 206 else 200),
          rsHeader = objectHeaders (goContentRange ans) ans, rsBody = Raw (goBody ans)\<rparr>"
      by (simp add: got_def i(3) callBackend_def op that(1))
    then show ?thesis
      using writeResponse_passable [OF that(2), of "svMarshal (ioServer io)"
          "if goContentRange ans \<noteq> None then 206 else 200" "goContentRange ans"] by (auto simp: run)
  qed
  ultimately show ?thesis using i(1,2) op by (auto simp: case_prod_beta)
qed

lemma limitRequest_keeps:
  "qURL (limitRequest sv r) = qURL r" "qMethod (limitRequest sv r) = qMethod r" "qHost (limitRequest sv r) = qHost r"
  by (simp_all add: limitRequest_def MaxBytesReader_def)

text \<open>A GET of a key goes to the operation on the object, with its route.\<close>

lemma plain_get_reaches:
  assumes "qMethod r0 = ''GET''" "uPath (qURL r0) = ''/'' @ b @ ''/'' @ k" "uRawPath (qURL r0) = []" "uRawQuery (qURL r0) = []"
    "b \<noteq> []" "CHR ''/'' \<notin> set b" "k \<noteq> []" "svVirtualHosts (ioServer io) = None"
    "accepted (svVerifier (ioServer io)) (ckVerify ck) (limitRequest (ioServer io) r0)"
    "fst (Match (exCacheOps (svExecutor (ioServer io))) (svMatcher (ioServer io)) b (escape EncodePath k) ''GET'') = Inr d"
    "dBackend d \<noteq> None"
  obtains m rc where "HandleS3Request ck r0 io = finish (executeProxy ck rc d (withMatcher m io))"
    "rcMethod rc = ''GET''" "rcOperation rc = NoOperation" "rcQueryParams rc = []"
proof -
  let ?r = "limitRequest (ioServer io) r0"
  let ?k = "escape EncodePath k"
  have path: "ParseS3PathWithChecker ?r None = Inr (b, ?k)"
    by (rule path_of_object) (use assms in \<open>simp_all add: limitRequest_keeps\<close>)
  have key: "?k \<noteq> []" using assms(7) by (simp add: escape_eq_Nil)
  have q: "qQuery ?r = []" by (simp add: qQuery_def limitRequest_keeps assms(4) Query_def parseQuery_def)
  have "qMethod ?r = ''GET''" "uPath (qURL ?r) \<noteq> ''/''" using assms(1,2,5) by (simp_all add: limitRequest_keeps)
  then have ops: "DetectBucketOperation ?r b ?k = NoOperation" "\<not> DetectListObjects ?r ?k"
    "DetectMultipartOperation (qMethod ?r) (qQuery ?r) = NoOperation"
    using key by (simp_all add: DetectBucketOperation_def DetectListObjects_def q DetectMultipartOperation_def vHas_def
        vGet_def vValues_def Let_def)
  obtain ctx r1 where auth: "authenticate (svVerifier (ioServer io)) (ckVerify ck) ?r = Inr (ctx, r1)"
    "qURL r1 = qURL ?r" "qMethod r1 = qMethod ?r" using authenticate_accepted [OF assms(9)] .
  obtain m where m: "Match (exCacheOps (svExecutor (ioServer io))) (svMatcher (ioServer io)) b ?k ''GET'' = (Inr d, m)"
    using assms(10) by (metis prod.collapse)
  let ?rc = "requestContext ck r1 ctx b ?k NoOperation"
  have "handleObjectOperations ck ?r b ?k io = executeProxy ck ?rc d (withMatcher m io)"
    using ops key auth m assms(11) \<open>qMethod ?r = ''GET''\<close>
    by (auto simp: handleObjectOperations_def handleObjectOperation_def Let_def)
  then have "HandleS3Request ck r0 io = finish (executeProxy ck ?rc d (withMatcher m io))"
    using path ops assms(5,8) by (simp add: HandleS3Request_def Let_def handleBucketOperations_def)
  moreover have "rcMethod ?rc = ''GET''" "rcOperation ?rc = NoOperation" "rcQueryParams ?rc = []"
    using auth assms(1) q by (simp_all add: requestContext_def limitRequest_keeps qQuery_def)
  ultimately show thesis by (rule that)
qed

lemma finish_world: "ioWorld (snd (finish h)) = ioWorld (snd h)"
  by (auto simp: finish_def onWriter_def split: prod.split handler_result.split option.split)

text \<open>
  C1: a GET of \<open>/bucket/key\<close> asks the backend of the key's route for one object, the one in the physical
  bucket under the key itself behind the prefix, whatever bytes the key has: escaping by the client, routing
  on the escaped key and unescaping it for the backend cancel out.  When the backend has an object whose
  body ends without an error, fits within the limit and is as long as announced, its bytes are the answer,
  with status 200, or 206 for a range.  The conditions: no virtual hosts are configured; the bucket is not
  empty and has no slash, and the key is not empty; the path comes in its default escaping, so that there is
  no \<open>RawPath\<close>, and without a query; the verifier accepts the request; the route of the escaped key leaves
  keys as they are and its backend has a client; the prefix has no percent sign, as it would be decoded
  with the key; and the limit is below 2^63 - 1, at which the code's \<open>int64\<close> sum wraps and nothing is sent.
\<close>

theorem get_serves_object:
  assumes "qMethod r0 = ''GET''" "uPath (qURL r0) = ''/'' @ b @ ''/'' @ k" "uRawPath (qURL r0) = []" "uRawQuery (qURL r0) = []"
    "b \<noteq> []" "CHR ''/'' \<notin> set b" "k \<noteq> []" "svVirtualHosts (ioServer io) = None"
    "accepted (svVerifier (ioServer io)) (ckVerify ck) (limitRequest (ioServer io) r0)"
    "fst (Match (exCacheOps (svExecutor (ioServer io))) (svMatcher (ioServer io)) b (escape EncodePath k) ''GET'') = Inr d"
    "dRewrittenKey d = escape EncodePath k" "dBackend d = Some backend"
    "GetClient (exManager (svExecutor (ioServer io))) (bID backend) = Inr bc" "CHR ''%'' \<notin> set (bPrefix (bcConfig bc))"
    "ioWriter io = newWriter"
  shows "\<exists>i. giBucket i = bBucket (bcConfig bc) \<and> giKey i = bPrefix (bcConfig bc) @ k \<and>
    (case (opGetObject (bcOperations bc) i (ioWorld io), HandleS3Request ck r0 io) of ((res, w'), (returned, io')) \<Rightarrow>
       ioWorld io' = w' \<and>
       (\<forall>output. res = Inr output \<and> passable (svMaxBodySize (ioServer io)) output \<longrightarrow>
          returned \<and> wStatus (ioWriter io') = Some (if goContentRange output \<noteq> None then 206 else 200) \<and>
          sentBytes (ioWriter io') = fst (goBody output)))"
proof -
  have "dBackend d \<noteq> None" using assms(12) by simp
  from plain_get_reaches [OF assms(1-10) this] obtain m rc where
    run: "HandleS3Request ck r0 io = finish (executeProxy ck rc d (withMatcher m io))" and
    rc: "rcMethod rc = ''GET''" "rcOperation rc = NoOperation" "rcQueryParams rc = []" .
  let ?p = "executeProxy ck rc d (withMatcher m io)"
  have key: "objectKeyOf bc d = bPrefix (bcConfig bc) @ k" using objectKeyOf_escaped assms(11,14) by blast
  have world: "ioWorld (snd (finish ?p)) = ioWorld (snd ?p)" by (rule finish_world)
  have ok: "finish ?p = (True, snd ?p)" if "fst ?p = Finished None"
    using that by (cases ?p) (simp add: finish_def)
  from executeProxy_get [OF rc assms(12), of "withMatcher m io" bc ck] assms(13,15) key
  obtain i res w' where i: "giBucket i = bBucket (bcConfig bc)" "giKey i = bPrefix (bcConfig bc) @ k"
    "opGetObject (bcOperations bc) i (ioWorld io) = (res, w')" "ioWorld (snd ?p) = w'"
    "\<forall>out. res = Inr out \<and> passable (svMaxBodySize (ioServer io)) out \<longrightarrow>
          fst ?p = Finished None \<and> wStatus (ioWriter (snd ?p)) = Some (if goContentRange out \<noteq> None then 206 else 200) \<and>
          sentBytes (ioWriter (snd ?p)) = fst (goBody out)"
    by auto
  then have "case (opGetObject (bcOperations bc) i (ioWorld io), HandleS3Request ck r0 io) of ((res, w'), (returned, io')) \<Rightarrow>
       ioWorld io' = w' \<and>
       (\<forall>out. res = Inr out \<and> passable (svMaxBodySize (ioServer io)) out \<longrightarrow>
          returned \<and> wStatus (ioWriter io') = Some (if goContentRange out \<noteq> None then 206 else 200) \<and>
          sentBytes (ioWriter io') = fst (goBody out))"
    using ok world by (auto simp: run case_prod_beta)
  with i(1,2) show ?thesis by (intro exI [of _ i] conjI)
qed

subsection \<open>A server\<close>

definition sample_server :: "(nat, (string \<times> decision) list) server" where
  "sample_server = \<lparr>svMatcher = sample_routes, svVerifier = sample_verifier, svBuckets = list_config,
     svLists = \<lparr>lhConfig = list_config, lhClients = list_clients, lhSchedule = map Arrived, lhSortObjects = (\<lambda>x. x),
       lhSortItems = (\<lambda>x. x), lhOptimizer = []\<rparr>,
     svExecutor = sample_executor [], svMarshal = (\<lambda>_. ''<xml/>''), svMaxBodySize = 100, svVirtualHosts = None\<rparr>"

definition sample_io :: "(nat, (string \<times> decision) list) io" where
  "sample_io = \<lparr>ioServer = sample_server, ioWriter = newWriter, ioWorld = 0\<rparr>"

definition clock_at :: "time \<Rightarrow> clock" where
  "clock_at t = \<lparr>ckVerify = t, ckStart = t, ckSign = t\<rparr>"

text \<open>A GET of the key \<open>a b%\<close> of the bucket \<open>media\<close>.\<close>

definition key_request :: request where
  "key_request = plain_request\<lparr>qURL := (qURL plain_request)\<lparr>uPath := ''/media/a b%''\<rparr>\<rparr>"

lemma key_request_refused: "\<not> accepted (svVerifier (ioServer sample_io)) t (limitRequest (ioServer sample_io) key_request)"
proof -
  have "hGet (qHeader key_request) ''Authorization'' = []" "vGet (qQuery key_request) ''X-Amz-Signature'' = []"
    unfolding key_request_def plain_request_def by code_simp+
  moreover have "limitRequest (ioServer sample_io) key_request = key_request"
    by (simp add: limitRequest_def MaxBytesReader_def key_request_def plain_request_def sample_request_def)
  ultimately show ?thesis by (simp add: accepted_def VerifyRequest_def failAuth_def)
qed

theorem unauthenticated_changes_nothing_witness:
  "case HandleS3Request (clock_at 0) key_request sample_io of (returned, io') \<Rightarrow>
     ioWorld io' = 0 \<and> (returned \<longrightarrow> (\<exists>code. code \<in> {400, 401, 403} \<and> wStatus (ioWriter io') = Some code))"
proof -
  have "ioWriter sample_io = newWriter" "ioWorld sample_io = 0" by (simp_all add: sample_io_def)
  then show ?thesis
    using unauthenticated_changes_nothing [OF key_request_refused, of "clock_at 0"] by (auto simp: clock_at_def)
qed

lemma key_request_signed:
  "\<exists>r t. SignRequest sample_signer 0 key_request [] = Some r \<and> accepted sample_verifier t r"
proof -
  obtain r0 ts where r0: "SignRequest sample_signer 0 plain_request [] = Some r0"
    "parse_amz (hGet (qHeader r0) ''X-Amz-Date'') = Some ts" using sample_signed by blast
  then obtain r where r: "SignRequest sample_signer 0 key_request [] = Some r"
    by (auto simp: SignRequest_def Let_def key_request_def split: prod.split_asm if_split_asm)
  have h: "qHeader key_request = qHeader plain_request" "qHost key_request = qHost plain_request"
    "canonical_query key_request = canonical_query plain_request"
    by (simp_all add: key_request_def canonical_query_def qQuery_def)
  have "hGet (qHeader x) ''X-Amz-Date'' = hGet (snd (prepareHeaders sample_signer 0 [] (qHeader q))) ''X-Amz-Date''"
    if "SignRequest sample_signer 0 q [] = Some x" for x q
    using that by (auto simp: SignRequest_def Let_def split: prod.split_asm if_split_asm)
  then have date: "parse_amz (hGet (qHeader r) ''X-Amz-Date'') = Some ts" using r r0 h by metis
  note c = sample_conditions [unfolded sample_signer_new]
  have "\<exists>ctx r'. VerifyRequest sample_verifier (ts + Second) r = (Some (ctx, None), r') \<and>
    acAccessKeyID ctx = ''AK'' \<and> acIsAuthenticated ctx"
    using signed_accepted [OF r [unfolded sample_signer_new], of sample_verifier ts "ts + Second"]
      date c sample_skew [of ts] by (auto simp: h)
  then show ?thesis using r by (intro exI [of _ r] exI [of _ "ts + Second"]) (auto simp: accepted_def)
qed

lemma key_route:
  "case fst (Match one_entry_cache sample_routes ''media'' ''a%20b%25'' ''GET'') of
     Inr d \<Rightarrow> dRewrittenKey d = ''a%20b%25'' \<and> map_option bID (dBackend d) = Some ''b2'' | Inl _ \<Rightarrow> False"
  "escape EncodePath ''a b%'' = ''a%20b%25''"
  by code_simp+

theorem get_serves_object_witness:
  "\<exists>r t. SignRequest sample_signer 0 key_request [] = Some r \<and>
     (case HandleS3Request (clock_at t) r sample_io of (returned, io') \<Rightarrow>
        returned \<and> wStatus (ioWriter io') = Some 200 \<and> sentBytes (ioWriter io') = ''bucket-b2:b2/a b%'')"
proof -
  obtain r t where r: "SignRequest sample_signer 0 key_request [] = Some r" and t: "accepted sample_verifier t r"
    using key_request_signed by blast
  have u: "qMethod r = ''GET''" "uPath (qURL r) = ''/'' @ ''media'' @ ''/'' @ ''a b%''" "uRawPath (qURL r) = []" "uRawQuery (qURL r) = []"
    "qBody r = []"
    using SignRequest_keeps [OF r] by (simp_all add: key_request_def plain_request_def sample_request_def)
  have io: "svVirtualHosts (ioServer sample_io) = None" "ioWriter sample_io = newWriter"
    "exCacheOps (svExecutor (ioServer sample_io)) = one_entry_cache" "svMatcher (ioServer sample_io) = sample_routes"
    "GetClient (exManager (svExecutor (ioServer sample_io))) ''b2'' = Inr (sample_client ''b2'')"
    by (simp_all add: sample_io_def sample_server_def sample_executor_def GetClient_def)
  have a: "accepted (svVerifier (ioServer sample_io)) (ckVerify (clock_at t)) (limitRequest (ioServer sample_io) r)"
    using t u(5) by (simp add: limitRequest_def MaxBytesReader_def sample_io_def sample_server_def clock_at_def)
  obtain d b where d: "fst (Match one_entry_cache sample_routes ''media'' ''a%20b%25'' ''GET'') = Inr d"
    "dRewrittenKey d = ''a%20b%25''" "dBackend d = Some b" "bID b = ''b2''"
    using key_route(1) by (auto split: sum.split_asm)
  have c: "bPrefix (bcConfig (sample_client ''b2'')) = ''b2/''" "bBucket (bcConfig (sample_client ''b2'')) = ''bucket-b2''"
    "opGetObject (bcOperations (sample_client ''b2'')) i w = (Inr (sample_object (giBucket i @ '':'' @ giKey i)), Suc w)" for i w
    by (simp_all add: sample_client_def sample_backend_def)
  have p: "passable (svMaxBodySize (ioServer sample_io)) (sample_object ''bucket-b2:b2/a b%'')"
    by (simp add: passable_def sample_object_def sample_io_def sample_server_def)
  have "\<exists>i. giBucket i = ''bucket-b2'' \<and> giKey i = ''b2/'' @ ''a b%'' \<and>
    (case (opGetObject (bcOperations (sample_client ''b2'')) i (ioWorld sample_io), HandleS3Request (clock_at t) r sample_io) of
       ((res, w'), (returned, io')) \<Rightarrow>
       ioWorld io' = w' \<and>
       (\<forall>output. res = Inr output \<and> passable (svMaxBodySize (ioServer sample_io)) output \<longrightarrow>
          returned \<and> wStatus (ioWriter io') = Some (if goContentRange output \<noteq> None then 206 else 200) \<and>
          sentBytes (ioWriter io') = fst (goBody output)))"
    using get_serves_object [OF u(1-4) _ _ _ io(1) a, of d b "sample_client ''b2''"] d io c key_route(2) by simp
  then have "case HandleS3Request (clock_at t) r sample_io of (returned, io') \<Rightarrow>
        returned \<and> wStatus (ioWriter io') = Some 200 \<and> sentBytes (ioWriter io') = ''bucket-b2:b2/a b%''"
    using p by (auto simp: c(3) sample_object_def case_prod_beta)
  with r show ?thesis by (intro exI [of _ r] exI [of _ t] conjI)
qed

subsection \<open>The size of an answer\<close>

lemma sentBytes_append [simp]: "sentBytes (WriteBody c w) = sentBytes w @ (case c of Bytes s \<Rightarrow> s | _ \<Rightarrow> [])"
  by (simp add: sentBytes_def WriteBody_def WriteHeader_def Let_def split: option.split)

lemma sentBytes_keeps [simp]:
  "sentBytes (WriteHeader n w) = sentBytes w" "sentBytes (addHeaders h w) = sentBytes w"
  "sentBytes (w\<lparr>wHeader := h\<rparr>) = sentBytes w" "sentBytes newWriter = []"
  by (simp_all add: sentBytes_def WriteHeader_def addHeaders_def newWriter_def split: option.split)

lemma sentBytes_errors [simp]:
  "sentBytes (httpErrorTo msg code w) = sentBytes w" "sentBytes (reportError e w) = sentBytes w"
  "sentBytes (writeDocument resp w) = sentBytes w"
  by (simp_all add: httpErrorTo_def reportError_def writeDocument_def split: option.split)

text \<open>What is sent stays within a byte of the limit, and passing it is an error.\<close>

definition fits :: "int \<Rightarrow> ('w, 'c) handled \<Rightarrow> bool" where
  "fits limit h \<longleftrightarrow>
     (let n = int (length (sentBytes (ioWriter (snd h)))) in
      n \<le> max 0 (limit + 1) \<and> (0 \<le> limit \<and> limit < n \<longrightarrow> (\<exists>e. fst h = Finished (Some (Other e)))))"

lemma fits_nothing_sent: "sentBytes (ioWriter (snd h)) = [] \<Longrightarrow> fits limit h"
  by (auto simp: fits_def)

lemma fits_copyLimited:
  assumes "sentBytes w = []" "copyLimited limit body w = (err, w')"
  shows "fits limit (Finished err, io\<lparr>ioWriter := w'\<rparr>)"
proof -
  have "sentBytes w' = take (if limit < 2 ^ 63 - 1 then nat (limit + 1) else 0) (fst body)"
    using assms by (auto simp: copyLimited_def Let_def split: option.split_asm if_split_asm)
  then have n: "int (length (sentBytes w')) \<le> max 0 (limit + 1)" by (cases "limit < 2 ^ 63 - 1") simp_all
  have "\<exists>e. err = Some (Other e)" if "0 \<le> limit" "limit < int (length (sentBytes w'))"
    using that assms by (auto simp: copyLimited_def Let_def split: option.split_asm if_split_asm)
  with n show ?thesis by (auto simp: fits_def Let_def)
qed

lemma fits_writeResponse:
  assumes "sentBytes w = []" "writeResponse limit marshal resp w = (err, w')"
  shows "fits limit (Finished err, io\<lparr>ioWriter := w'\<rparr>)"
proof (cases "announcedExcess limit resp")
  case None
  then have "copyLimited limit (bodyOf marshal resp) (WriteHeader (rsStatus resp) (addHeaders (rsHeader resp) w)) = (err, w')"
    using assms(2) by (simp add: writeResponse_def)
  then show ?thesis using fits_copyLimited [of "WriteHeader (rsStatus resp) (addHeaders (rsHeader resp) w)"] assms(1) by simp
next
  case (Some n)
  then have "sentBytes w' = []" using assms by (auto simp: writeResponse_def)
  then show ?thesis by (simp add: fits_nothing_sent)
qed

lemma fits_executeProxy:
  assumes "sentBytes (ioWriter io) = []"
  shows "fits (svMaxBodySize (ioServer io)) (executeProxy ck rc d io)"
proof -
  obtain res world m where ex: "ExecuteRequest (svExecutor (ioServer io)) (ckSign ck) rc d (ioWorld io) = ((res, world), m)"
    by (metis prod.exhaust)
  define io1 where "io1 = (case m of None \<Rightarrow> io | Some m1 \<Rightarrow> withMatcher m1 io)\<lparr>ioWorld := world\<rparr>"
  have w: "sentBytes (ioWriter io1) = []" using assms by (simp add: io1_def split: option.split)
  note run = executeProxy_def [of ck rc d io, unfolded Let_def ex prod.case, folded io1_def]
  show ?thesis
  proof (cases res)
    case (Inl e)
    then show ?thesis using w by (cases e) (simp_all add: run fits_nothing_sent)
  next
    case (Inr resp)
    obtain err w' where "writeResponse (svMaxBodySize (ioServer io)) (svMarshal (ioServer io)) resp (ioWriter io1) = (err, w')"
      by fastforce
    with fits_writeResponse [OF w this, of io1] Inr show ?thesis by (simp add: run)
  qed
qed

lemma fits_object_operations:
  assumes "sentBytes (ioWriter io) = []"
  shows "fits (svMaxBodySize (ioServer io)) (handleObjectOperations ck r b k io)"
proof -
  have listing: "fits (svMaxBodySize (ioServer io)) (handleListing ck r b params document io)" for params document
    using assms by (auto simp: handleListing_def Let_def onWriter_def intro!: fits_nothing_sent
        split: sum.split fault.split prod.split)
  have "fits (svMaxBodySize (ioServer io)) (executeProxy ck rc d (withMatcher m io))" for rc d m
    using fits_executeProxy [of "withMatcher m io" ck rc d] assms by simp
  then have "fits (svMaxBodySize (ioServer io)) (handleObjectOperation ck r b k op io)" for op
    using assms by (auto simp: handleObjectOperation_def Let_def intro: fits_nothing_sent
        split: sum.split fault.split prod.split)
  with listing show ?thesis
    by (simp add: handleObjectOperations_def handleListObjects_def handleListObjectsV2_def Let_def)
qed

lemma bucket_operations_text:
  "handleBucketOperations ck r b k io = Some h \<Longrightarrow> sentBytes (ioWriter (snd h)) = sentBytes (ioWriter io)"
  by (auto simp: handleBucketOperations_def Let_def onWriter_def split: if_split_asm sum.split_asm fault.split_asm)

lemma last_report: "last (wBody (reportError (Other e) w)) = Line (Literal ''Internal Server Error'')"
  by (simp add: reportError_def httpErrorTo_def WriteBody_def Let_def)

lemma fits_finish:
  assumes "fits limit h"
  shows "case finish h of (returned, io') \<Rightarrow>
    int (length (sentBytes (ioWriter io'))) \<le> max 0 (limit + 1) \<and>
    (0 \<le> limit \<and> limit < int (length (sentBytes (ioWriter io'))) \<longrightarrow>
       returned \<and> last (wBody (ioWriter io')) = Line (Literal ''Internal Server Error''))"
  using assms
  by (auto simp: fits_def finish_def onWriter_def Let_def last_report split: prod.split handler_result.split option.split)

text \<open>
  C19: of the body of a backend at most one byte more than the configured maximum is sent, whatever the
  operation, and sending that byte makes the answer end with an error.  Of the body of a request the
  server reads no more than the maximum: what comes after it has no effect but that there is more.
\<close>

theorem traffic_bounded:
  assumes "ioWriter io = newWriter"
  shows "(case HandleS3Request ck r io of (returned, io') \<Rightarrow>
      int (length (sentBytes (ioWriter io'))) \<le> max 0 (svMaxBodySize (ioServer io) + 1) \<and>
      (0 \<le> svMaxBodySize (ioServer io) \<and> svMaxBodySize (ioServer io) < int (length (sentBytes (ioWriter io'))) \<longrightarrow>
         returned \<and> last (wBody (ioWriter io')) = Line (Literal ''Internal Server Error''))) \<and>
    (0 < svMaxBodySize (ioServer io) \<and> int (length s) = svMaxBodySize (ioServer io) \<and> x \<noteq> [] \<and> y \<noteq> [] \<longrightarrow>
      HandleS3Request ck (r\<lparr>qBody := s @ x, qBodyErr := e\<rparr>) io = HandleS3Request ck (r\<lparr>qBody := s @ y, qBodyErr := e'\<rparr>) io)"
proof (rule conjI)
  let ?bounded = "\<lambda>(returned, io'). int (length (sentBytes (ioWriter io'))) \<le> max 0 (svMaxBodySize (ioServer io) + 1) \<and>
      (0 \<le> svMaxBodySize (ioServer io) \<and> svMaxBodySize (ioServer io) < int (length (sentBytes (ioWriter io'))) \<longrightarrow>
         returned \<and> last (wBody (ioWriter io')) = Line (Literal ''Internal Server Error''))"
  have w: "sentBytes (ioWriter io) = []" using assms by simp
  have f: "?bounded (finish h)" if "fits (svMaxBodySize (ioServer io)) h" for h :: "('a, 'b) handled"
    using fits_finish [OF that] .
  have b: "?bounded (finish h)" if "handleBucketOperations ck r' b k io = Some h" for r' b k h
    by (rule f [OF fits_nothing_sent]) (simp add: bucket_operations_text [OF that] w)
  have o: "?bounded (finish (handleObjectOperations ck r' b k io))" for r' b k
    by (rule f [OF fits_object_operations [OF w]])
  show "?bounded (HandleS3Request ck r io)"
  proof (cases ck r io rule: HandleS3Request_cases)
    case (bucket b' k h)
    with b [OF bucket(1)] show ?thesis by simp
  next
    case (object b' k)
    with o show ?thesis by simp
  qed (use w in \<open>auto simp: onWriter_def\<close>)
next
  show "0 < svMaxBodySize (ioServer io) \<and> int (length s) = svMaxBodySize (ioServer io) \<and> x \<noteq> [] \<and> y \<noteq> [] \<longrightarrow>
      HandleS3Request ck (r\<lparr>qBody := s @ x, qBodyErr := e\<rparr>) io = HandleS3Request ck (r\<lparr>qBody := s @ y, qBodyErr := e'\<rparr>) io"
  proof
    assume a: "0 < svMaxBodySize (ioServer io) \<and> int (length s) = svMaxBodySize (ioServer io) \<and> x \<noteq> [] \<and> y \<noteq> []"
    then have "nat (svMaxBodySize (ioServer io)) = length s" "0 < length x" "0 < length y" by auto
    then have "limitRequest (ioServer io) (r\<lparr>qBody := s @ x, qBodyErr := e\<rparr>) = limitRequest (ioServer io) (r\<lparr>qBody := s @ y, qBodyErr := e'\<rparr>)"
      using a by (simp add: limitRequest_def MaxBytesReader_def)
    then show "HandleS3Request ck (r\<lparr>qBody := s @ x, qBodyErr := e\<rparr>) io = HandleS3Request ck (r\<lparr>qBody := s @ y, qBodyErr := e'\<rparr>) io"
      by (simp add: HandleS3Request_def)
  qed
qed

text \<open>The theorem for a limit of 10 bytes.\<close>

theorem traffic_bounded_witness:
  "let io = sample_io\<lparr>ioServer := sample_server\<lparr>svMaxBodySize := 10\<rparr>\<rparr> in
   (case HandleS3Request (clock_at 0) key_request io of (returned, io') \<Rightarrow> length (sentBytes (ioWriter io')) \<le> 11) \<and>
   HandleS3Request (clock_at 0) (key_request\<lparr>qBody := ''0123456789abc'', qBodyErr := None\<rparr>) io =
     HandleS3Request (clock_at 0) (key_request\<lparr>qBody := ''0123456789x'', qBodyErr := None\<rparr>) io"
proof -
  let ?io = "sample_io\<lparr>ioServer := sample_server\<lparr>svMaxBodySize := 10\<rparr>\<rparr>"
  have io: "ioWriter ?io = newWriter" "svMaxBodySize (ioServer ?io) = 10" by (simp_all add: sample_io_def)
  show ?thesis
    using traffic_bounded [OF io(1), of "clock_at 0" key_request "''0123456789''" "''abc''" "''x''" None None]
    unfolding io(2) Let_def by (auto split: prod.splits)
qed

text \<open>
  The size of an object is checked for every successful answer, also when its body is not asked for: a HEAD
  of an object above the limit is answered 413.
\<close>

lemma head_over_limit:
  "writeResponse 10 (\<lambda>_. []) \<lparr>rsStatus = 200, rsHeader = objectHeaders None (sample_object ''bucket-b2:a''), rsBody = Raw ([], None)\<rparr>
     newWriter =
   (Some (Other ''response size exceeds limit: 11 > 10''),
    \<lparr>wHeader = [], wStatus = Some 413, wSent = [],
     wBody = [Line (Literal ''Object size 11 exceeds maximum allowed size 10'')]\<rparr>)"
  by code_simp

text \<open>A failure after the answer has begun adds its line to what was sent.\<close>

lemma error_after_status:
  "wStatus (reportError (Other e) (WriteBody (Bytes s) (WriteHeader 200 newWriter))) = Some 200 \<and>
   wBody (reportError (Other e) (WriteBody (Bytes s) (WriteHeader 200 newWriter))) =
     [Bytes s, Line (Literal ''Internal Server Error'')]"
  by (simp add: reportError_def httpErrorTo_def WriteBody_def WriteHeader_def newWriter_def Let_def)

end
