(* ===== verification/Admin.thy ===== *)
theory Admin
  imports Backend
begin

section \<open>The admin server\<close>

text \<open>
  \<open>internal/admin/server.go\<close>: liveness, readiness from the health of the backends, the configuration, and
  health checks on demand.  The body of an answer is the value that is encoded as JSON; the metrics are
  an argument, for they are those of a library.  Requests are dispatched by the patterns of \<open>http.ServeMux\<close>, without its
  redirections of paths that are not clean.  The multiplexer looks at the segments of the escaped path and the
  handler at the decoded one; here they are one path, without percent signs.
\<close>

subsection \<open>Answers\<close>

record backend_health_info =
  biHealthy :: bool
  biLastCheck :: time
  biLastError :: string
  biConsecutiveFailures :: int

record ready_response =
  rrReady :: bool
  rrBackends :: "(string \<times> backend_health_info) list"
  rrTime :: time

record config_info =
  ciBackends :: "(string \<times> backend_config) list"
  ciBuckets :: "(string \<times> bucket_config) list"

datatype admin_document =
    HealthDoc string time
  | ReadyDoc ready_response
  | ConfigDoc config_info
  | StatusDoc string
  | CheckFailedDoc health_error
  | TextDoc string

definition jsonResponse :: "nat \<Rightarrow> admin_document \<Rightarrow> admin_document response" where
  "jsonResponse status doc =
     \<lparr>rsStatus = status, rsHeader = hSet ''Content-Type'' ''application/json'' [], rsBody = doc\<rparr>"

record 'w admin_server =
  asBackend :: "'w manager"
  asConfig :: config

subsection \<open>Handlers\<close>

definition handleHealth :: "time \<Rightarrow> admin_document response" where
  "handleHealth now = jsonResponse 200 (HealthDoc ''ok'' now)"

definition healthInfo :: "'w backend_client \<Rightarrow> backend_health_info" where
  "healthInfo client =
     (let (healthy, lastCheck, lastError, failures) = GetHealthSnapshot (bcHealth client)
      in \<lparr>biHealthy = healthy, biLastCheck = lastCheck, biLastError = lastError, biConsecutiveFailures = failures\<rparr>)"

text \<open>The loop over the clients, with the answers so far and whether all were healthy.\<close>

fun readyLoop ::
  "(string \<times> 'w backend_client) list \<Rightarrow> (string \<times> backend_health_info) list \<Rightarrow> bool
     \<Rightarrow> (string \<times> backend_health_info) list \<times> bool" where
  "readyLoop [] infos allReady = (infos, allReady)"
| "readyLoop ((i, client) # clients) infos allReady =
     (let info = healthInfo client in
      readyLoop clients (AList.update i info infos) (if \<not> biHealthy info then False else allReady))"

definition handleReady :: "time \<Rightarrow> 'w admin_server \<Rightarrow> admin_document response" where
  "handleReady now s =
     (let (infos, allReady) = readyLoop (GetClients (asBackend s)) [] True
      in jsonResponse (if allReady then 200 else 503)
           (ReadyDoc \<lparr>rrReady = allReady, rrBackends = infos, rrTime = now\<rparr>))"

definition handleConfig :: "'w admin_server \<Rightarrow> admin_document response" where
  "handleConfig s =
     jsonResponse 200 (ConfigDoc \<lparr>ciBackends = cfgBackends (asConfig s), ciBuckets = cfgBuckets (asConfig s)\<rparr>)"

definition handleBackendHealthCheck ::
  "time \<Rightarrow> string \<Rightarrow> 'w admin_server \<Rightarrow> 'w \<Rightarrow> admin_document response \<times> 'w admin_server \<times> 'w" where
  "handleBackendHealthCheck now path s w =
     (let backendID = TrimSuffix (TrimPrefix path ''/admin/backend/'') ''/health-check'';
          (err, m, w1) = HealthCheck (asBackend s) now backendID w
      in (case err of
            Some e \<Rightarrow> jsonResponse 500 (CheckFailedDoc e)
          | None \<Rightarrow> jsonResponse 200 (StatusDoc ''ok''), s\<lparr>asBackend := m\<rparr>, w1))"

subsection \<open>Dispatching\<close>

datatype admin_route = HealthRoute | ReadyRoute | MetricsRoute | ConfigRoute | CheckRoute

definition adminRoutes :: "(string \<times> string list \<times> admin_route) list" where
  "adminRoutes =
     [(''GET'', [[], ''healthz''], HealthRoute), (''GET'', [[], ''readyz''], ReadyRoute),
      (''GET'', [[], ''metrics''], MetricsRoute), (''GET'', [[], ''admin'', ''config''], ConfigRoute),
      (''POST'', [[], ''admin'', ''backend'', ''{id}'', ''health-check''], CheckRoute)]"

text \<open>A pattern matches segment by segment, a wildcard any segment with text.\<close>

definition segmentMatches :: "string \<Rightarrow> string \<Rightarrow> bool" where
  "segmentMatches p s \<longleftrightarrow> (if p = ''{id}'' then s \<noteq> [] else p = s)"

definition pathMatchesRoute :: "string \<Rightarrow> string \<times> string list \<times> admin_route \<Rightarrow> bool" where
  "pathMatchesRoute path rt = list_all2 segmentMatches (fst (snd rt)) (Split path ''/'')"

definition methodMatches :: "string \<Rightarrow> string \<times> string list \<times> admin_route \<Rightarrow> bool" where
  "methodMatches method rt \<longleftrightarrow> method = fst rt \<or> (method = ''HEAD'' \<and> fst rt = ''GET'')"

definition textResponse :: "nat \<Rightarrow> string \<Rightarrow> admin_document response" where
  "textResponse status msg =
     \<lparr>rsStatus = status, rsHeader = hSet ''X-Content-Type-Options'' ''nosniff''
        (hSet ''Content-Type'' ''text/plain; charset=utf-8'' []), rsBody = TextDoc msg\<rparr>"

definition serveAdmin ::
  "admin_document response \<Rightarrow> time \<Rightarrow> string \<Rightarrow> string \<Rightarrow> 'w admin_server \<Rightarrow> 'w
     \<Rightarrow> admin_document response \<times> 'w admin_server \<times> 'w" where
  "serveAdmin metrics now method path s w =
     (let matching = filter (pathMatchesRoute path) adminRoutes in
      case filter (methodMatches method) matching of
        rt # _ \<Rightarrow>
          (case snd (snd rt) of
             HealthRoute \<Rightarrow> (handleHealth now, s, w)
           | ReadyRoute \<Rightarrow> (handleReady now s, s, w)
           | MetricsRoute \<Rightarrow> (metrics, s, w)
           | ConfigRoute \<Rightarrow> (handleConfig s, s, w)
           | CheckRoute \<Rightarrow> handleBackendHealthCheck now path s w)
      | [] \<Rightarrow>
          (case matching of
             [] \<Rightarrow> textResponse 404 ''404 page not found''
           | rt # _ \<Rightarrow>
               (let r = textResponse 405 ''Method Not Allowed'' in
                r\<lparr>rsHeader := hSet ''Allow'' (if fst rt = ''GET'' then ''GET, HEAD'' else fst rt) (rsHeader r)\<rparr>), s, w))"

text \<open>A series of requests, each with its time, method and path.\<close>

type_synonym admin_request = "time \<times> string \<times> string"

fun serveAll ::
  "admin_document response \<Rightarrow> admin_request list \<Rightarrow> 'w admin_server \<Rightarrow> 'w
     \<Rightarrow> (admin_request \<times> admin_document response) list \<times> 'w admin_server \<times> 'w" where
  "serveAll metrics [] s w = ([], s, w)"
| "serveAll metrics ((now, method, path) # reqs) s w =
     (let (r, s1, w1) = serveAdmin metrics now method path s w;
          (rs, s2, w2) = serveAll metrics reqs s1 w1
      in (((now, method, path), r) # rs, s2, w2))"

subsection \<open>Readiness\<close>

definition checkPath :: "string \<Rightarrow> string" where
  "checkPath k = ''/admin/backend/'' @ k @ ''/health-check''"

text \<open>The checks of a backend that a client has seen, oldest first.\<close>

definition checkAnswer :: "string \<Rightarrow> admin_request \<times> admin_document response \<Rightarrow> (time \<times> health_error option) option" where
  "checkAnswer k a =
     (case a of ((now, _, path), r) \<Rightarrow>
        if path \<noteq> checkPath k then None
        else case rsBody r of
          CheckFailedDoc e \<Rightarrow> Some (now, Some e)
        | StatusDoc _ \<Rightarrow> Some (now, None)
        | _ \<Rightarrow> None)"

definition checkAnswers :: "string \<Rightarrow> (admin_request \<times> admin_document response) list \<Rightarrow> (time \<times> health_error option) list" where
  "checkAnswers k = List.map_filter (checkAnswer k)"


lemma checkPath_inject [simp]: "checkPath k = checkPath k' \<longleftrightarrow> k = k'"
  by (simp add: checkPath_def)

lemma checkPath_id: "TrimSuffix (TrimPrefix (checkPath k) ''/admin/backend/'') ''/health-check'' = k"
proof -
  have "TrimPrefix (''/admin/backend/'' @ t) ''/admin/backend/'' = t" for t
    unfolding TrimPrefix_def HasPrefix_iff by (auto simp: append_eq_append_conv)
  moreover have "TrimSuffix (k @ ''/health-check'') ''/health-check'' = k"
    unfolding TrimSuffix_def HasSuffix_iff by auto
  ultimately show ?thesis by (simp only: checkPath_def)
qed

lemma Split_path: "Split path sep = ss \<Longrightarrow> path = Join ss sep"
  using Join_Split by metis

lemma route_path:
  assumes "rt \<in> set adminRoutes" "pathMatchesRoute path rt"
  shows "(snd (snd rt) = CheckRoute \<longrightarrow> (\<exists>k. path = checkPath k)) \<and> (snd (snd rt) = MetricsRoute \<longrightarrow> path = ''/metrics'')"
  using assms
  by (auto simp: adminRoutes_def pathMatchesRoute_def segmentMatches_def list_all2_Cons1 checkPath_def dest!: Split_path)

lemma checkAnswer_text:
  "rsBody r \<notin> range CheckFailedDoc \<union> range StatusDoc \<Longrightarrow> checkAnswer k (q, r) = None"
  by (cases q) (auto simp: checkAnswer_def split: admin_document.split)

text \<open>A request is a health check or leaves the server as it is.\<close>

lemma serveAdmin_check:
  assumes "serveAdmin metrics now method path s w = (r, s1, w1)"
  shows "(\<exists>k err. path = checkPath k \<and> HealthCheck (asBackend s) now k w = (err, asBackend s1, w1) \<and>
      rsBody r = (case err of Some e \<Rightarrow> CheckFailedDoc e | None \<Rightarrow> StatusDoc ''ok'')) \<or>
    (s1 = s \<and> (\<forall>k. checkAnswer k ((now, method, path), r) = None))"
proof (cases "filter (methodMatches method) (filter (pathMatchesRoute path) adminRoutes)")
  case Nil
  with assms show ?thesis
    by (auto simp: serveAdmin_def Let_def textResponse_def intro!: checkAnswer_text split: list.split_asm)
next
  case (Cons rt rts)
  then have "rt \<in> set (filter (methodMatches method) (filter (pathMatchesRoute path) adminRoutes))" by simp
  then have rt: "rt \<in> set adminRoutes" "pathMatchesRoute path rt" by auto
  have metrics: "checkAnswer k ((now, method, ''/metrics''), x) = None" for k x
    by (simp add: checkAnswer_def checkPath_def)
  show ?thesis
  proof (cases "snd (snd rt)")
    case CheckRoute
    with route_path [OF rt] obtain k where "path = checkPath k" by blast
    with assms Cons CheckRoute show ?thesis
      by (auto simp: serveAdmin_def Let_def handleBackendHealthCheck_def checkPath_id jsonResponse_def
          split: prod.split_asm option.split)
  qed (use assms Cons route_path [OF rt] metrics in
      \<open>auto simp: serveAdmin_def Let_def handleHealth_def handleReady_def handleConfig_def jsonResponse_def
        intro!: checkAnswer_text split: prod.split_asm\<close>)
qed

lemma serveAll_health_run:
  assumes "serveAll metrics reqs s w = (rs, s', w')" "health_run m0 tr (asBackend s)"
  shows "\<exists>tr'. health_run m0 (tr @ tr') (asBackend s') \<and> (\<forall>k. outcomes k tr' = checkAnswers k rs)"
  using assms
proof (induction reqs arbitrary: s w rs tr)
  case Nil
  then show ?case by (auto intro!: exI [of _ "[]"] simp: checkAnswers_def List.map_filter_def)
next
  case (Cons q reqs)
  obtain now meth path where q: "q = (now, meth, path)" by (cases q)
  obtain r s1 w1 where r: "serveAdmin metrics now meth path s w = (r, s1, w1)" by (metis prod.exhaust)
  obtain rs1 where rs: "serveAll metrics reqs s1 w1 = (rs1, s', w')" "rs = (q, r) # rs1"
    using Cons.prems(1) r q by (auto split: prod.split_asm)
  from serveAdmin_check [OF r] show ?case
  proof (elim disjE exE conjE)
    fix k err
    assume k: "path = checkPath k" "HealthCheck (asBackend s) now k w = (err, asBackend s1, w1)"
      "rsBody r = (case err of Some e \<Rightarrow> CheckFailedDoc e | None \<Rightarrow> StatusDoc ''ok'')"
    have "health_run m0 (tr @ [(k, now, err)]) (asBackend s1)"
      by (rule Check [OF Cons.prems(2) k(2)])
    from Cons.IH [OF rs(1) this] obtain tr' where
      "health_run m0 (tr @ (k, now, err) # tr') (asBackend s')" "\<forall>k. outcomes k tr' = checkAnswers k rs1" by auto
    moreover have "checkAnswer k' (q, r) = (if k' = k then Some (now, err) else None)" for k'
      using k(1,3) q by (auto simp: checkAnswer_def split: option.split)
    ultimately show ?thesis
      using rs(2) by (intro exI [of _ "(k, now, err) # tr'"]) (simp add: outcomes_def checkAnswers_def List.map_filter_simps)
  next
    assume "s1 = s" "\<forall>k. checkAnswer k ((now, meth, path), r) = None"
    with Cons.IH [OF rs(1)] Cons.prems(2) rs(2) q show ?thesis
      by (auto simp: checkAnswers_def List.map_filter_simps)
  qed
qed

lemma readyLoop_all: "snd (readyLoop cs infos ok) \<longleftrightarrow> ok \<and> (\<forall>(i, c) \<in> set cs. hHealthy (bcHealth c))"
  by (induction cs infos ok rule: readyLoop.induct) (auto simp: Let_def healthInfo_def GetHealthSnapshot_def)

lemma distinct_addClients:
  "addClients pl bs m = Inr m' \<Longrightarrow> distinct (map fst (mgClients m)) \<Longrightarrow> distinct (map fst (mgClients m'))"
  by (induction bs arbitrary: m) (auto simp: distinct_update split: sum.split_asm)

lemma distinct_health_run:
  "health_run m tr m' \<Longrightarrow> distinct (map fst (mgClients m)) \<Longrightarrow> distinct (map fst (mgClients m'))"
  by (induction rule: health_run.induct)
    (auto simp: HealthCheck_def setHealth_def distinct_update split: sum.split_asm prod.split_asm option.split_asm option.split)

lemma health_run_health:
  assumes "NewManager pl cfg timeout = Inr m0" "health_run m0 tr m" "GetClient m k = Inr c"
  shows "hHealthy (bcHealth c) \<longleftrightarrow> outcomes k tr = [] \<or> snd (last (outcomes k tr)) = None"
proof -
  from assms(3) have c: "map_of (mgClients m) k = Some c"
    by (simp add: GetClient_def split: option.splits)
  from health_run_known [OF assms(2) this] obtain c0 where c0: "map_of (mgClients m0) k = Some c0" ..
  moreover from this have "shows_health [] (bcHealth c0)"
    using addClients_healthy assms(1) unfolding NewManager_def Let_def by fastforce
  ultimately have "shows_health (outcomes k tr) (bcHealth c)"
    using health_run_clients [OF assms(2)] c by fastforce
  then show ?thesis
    by (cases "outcomes k tr" rule: rev_cases) (auto simp: shows_health_def split: if_splits)
qed

text \<open>
  C24: after any requests to the admin server of a fresh manager, \<open>/readyz\<close> answers 200 exactly when no
  backend failed the last health check that was asked for, and 503 otherwise; a backend that was never
  checked counts as healthy, and requests of any other kind do not change the answer.
\<close>

theorem readiness_accounts_checks:
  assumes "NewManager pl cfg timeout = Inr m0"
    "serveAll metrics reqs \<lparr>asBackend = m0, asConfig = cfg\<rparr> w = (rs, s, w')"
  shows "rsStatus (fst (serveAdmin metrics now ''GET'' ''/readyz'' s w')) =
    (if \<forall>k c. GetClient (asBackend s) k = Inr c \<longrightarrow> checkAnswers k rs = [] \<or> snd (last (checkAnswers k rs)) = None
     then 200 else 503)"
proof -
  obtain tr where run: "health_run m0 tr (asBackend s)" and out: "\<forall>k. outcomes k tr = checkAnswers k rs"
    using serveAll_health_run [OF assms(2), of m0 "[]"] Start by auto
  have "distinct (map fst (mgClients (asBackend s)))"
    using distinct_health_run [OF run] distinct_addClients assms(1) unfolding NewManager_def Let_def by fastforce
  then have "(\<forall>(i, c) \<in> set (GetClients (asBackend s)). hHealthy (bcHealth c)) \<longleftrightarrow>
      (\<forall>k c. GetClient (asBackend s) k = Inr c \<longrightarrow> hHealthy (bcHealth c))"
    by (auto simp: GetClients_def GetClient_def split: option.splits)
  also have "\<dots> \<longleftrightarrow> (\<forall>k c. GetClient (asBackend s) k = Inr c \<longrightarrow> checkAnswers k rs = [] \<or> snd (last (checkAnswers k rs)) = None)"
    using health_run_health [OF assms(1) run] out by auto
  finally have "rsStatus (handleReady now s) = (if \<forall>k c. GetClient (asBackend s) k = Inr c \<longrightarrow>
      checkAnswers k rs = [] \<or> snd (last (checkAnswers k rs)) = None then 200 else 503)"
    using readyLoop_all [of "GetClients (asBackend s)" "[]" True]
    by (simp add: handleReady_def jsonResponse_def Let_def split_def)
  moreover have "filter (methodMatches ''GET'') (filter (pathMatchesRoute ''/readyz'') adminRoutes) = [(''GET'', [[], ''readyz''], ReadyRoute)]"
    by code_simp
  ultimately show ?thesis by (simp add: serveAdmin_def Let_def)
qed

text \<open>A check of a backend that does not answer: the server is ready before, and not after.\<close>

definition sample_run :: "admin_request list \<Rightarrow> nat" where
  "sample_run reqs =
     (case NewManager dead_platform dead_config 0 of
        Inl _ \<Rightarrow> 0
      | Inr m0 \<Rightarrow>
          (let (_, s, w) = serveAll (textResponse 200 []) reqs \<lparr>asBackend = m0, asConfig = dead_config\<rparr> 0
           in rsStatus (fst (serveAdmin (textResponse 200 []) 7 ''GET'' ''/readyz'' s w))))"

lemma sample_runs:
  "sample_run [(6, ''GET'', ''/healthz'')] = 200"
  "sample_run [(5, ''POST'', checkPath ''b1''), (6, ''GET'', ''/healthz'')] = 503"
  by code_simp+

theorem readiness_accounts_checks_witness:
  "\<exists>m0 rs s w'. NewManager dead_platform dead_config 0 = Inr m0 \<and>
    serveAll (textResponse 200 []) [(5, ''POST'', checkPath ''b1''), (6, ''GET'', ''/healthz'')]
      \<lparr>asBackend = m0, asConfig = dead_config\<rparr> 0 = (rs, s, w') \<and>
    \<not> (\<forall>k c. GetClient (asBackend s) k = Inr c \<longrightarrow> checkAnswers k rs = [] \<or> snd (last (checkAnswers k rs)) = None)"
proof -
  obtain m0 where m0: "NewManager dead_platform dead_config 0 = Inr m0"
    using sample_runs(1) by (auto simp: sample_run_def split: sum.split_asm)
  obtain rs s w' where run: "serveAll (textResponse 200 []) [(5, ''POST'', checkPath ''b1''), (6, ''GET'', ''/healthz'')]
      \<lparr>asBackend = m0, asConfig = dead_config\<rparr> 0 = (rs, s, w')" by (metis prod.exhaust)
  have "rsStatus (fst (serveAdmin (textResponse 200 []) 7 ''GET'' ''/readyz'' s w')) = 503"
    using sample_runs(2) unfolding sample_run_def m0 by (simp only: sum.case run Let_def prod.case)
  with m0 run readiness_accounts_checks [OF m0 run, of 7] show ?thesis
    by (intro exI [of _ m0] exI [of _ rs] exI [of _ s] exI [of _ w'] conjI) (auto split: if_split_asm)
qed

text \<open>The configuration is shown with the secrets of its backends.\<close>

lemma config_shows_secrets:
  "rsBody (fst (serveAdmin metrics now ''GET'' ''/admin/config'' s w)) =
     ConfigDoc \<lparr>ciBackends = cfgBackends (asConfig s), ciBuckets = cfgBuckets (asConfig s)\<rparr>"
proof -
  have "filter (methodMatches ''GET'') (filter (pathMatchesRoute ''/admin/config'') adminRoutes) =
      [(''GET'', [[], ''admin'', ''config''], ConfigRoute)]" by code_simp
  then show ?thesis by (simp add: serveAdmin_def Let_def handleConfig_def jsonResponse_def)
qed

end
