(* ===== verification/Loader.thy ===== *)
theory Loader
  imports Config
begin

section \<open>Loading a configuration\<close>

text \<open>
  \<open>internal/config/ir/loader.go\<close> and \<open>internal/config/loader.go\<close>: the buckets of a file are a list or a map;
  both become a map from names.  Reading the file and decoding a value into a struct are functions
  (viper and mapstructure), as are \<open>fmt.Sprint\<close> and the name of a type.  A Go map is a list in the order of
  one iteration.
\<close>

datatype raw =
    RawNil
  | RawString string
  | RawMap "(string \<times> raw) list"
  | RawAnyMap "(raw \<times> raw) list"
  | RawList "raw list"
  | RawScalar string

datatype loader_error =
    ItemNotMap nat string
  | ItemNotDecoded nat string
  | DuplicateBucket string
  | ItemUnnamed nat
  | BucketNotMap string string
  | BucketNotDecoded string string
  | NotListOrMap string
  | FileUnreadable string
  | NotUnmarshalled string
  | Invalid "cfg_error list"

record raw_library =
  rlSprint :: "raw \<Rightarrow> string"
  rlTypeName :: "raw \<Rightarrow> string"
  rlDecodeBucket :: "(string \<times> raw) list \<Rightarrow> ir_bucket \<Rightarrow> string + ir_bucket"

definition keyString :: "raw_library \<Rightarrow> raw \<Rightarrow> string" where
  "keyString lib k = (case k of RawString s \<Rightarrow> s | _ \<Rightarrow> rlSprint lib k)"

definition convertMapAnyToMapString :: "raw_library \<Rightarrow> (raw \<times> raw) list \<Rightarrow> (string \<times> raw) list" where
  "convertMapAnyToMapString lib m = fold (\<lambda>(k, v) result. AList.update (keyString lib k) v result) m []"

text \<open>A value as a map with string keys.\<close>

definition asStringMap :: "raw_library \<Rightarrow> raw \<Rightarrow> (string \<times> raw) list option" where
  "asStringMap lib item =
     (case item of
        RawMap m \<Rightarrow> Some m
      | RawAnyMap m \<Rightarrow> Some (convertMapAnyToMapString lib m)
      | _ \<Rightarrow> None)"

definition emptyBucket :: "string \<Rightarrow> ir_bucket" where
  "emptyBucket name = \<lparr>iName = name, iRoutes = []\<rparr>"

text \<open>The loop over a list, from index \<open>i\<close>; \<open>seen\<close> and \<open>result\<close> have the same keys.\<close>

fun decodeListFrom ::
  "raw_library \<Rightarrow> nat \<Rightarrow> raw list \<Rightarrow> (string \<times> ir_bucket) list \<Rightarrow> loader_error + (string \<times> ir_bucket) list" where
  "decodeListFrom lib i [] result = Inr result"
| "decodeListFrom lib i (item # items) result =
     (case asStringMap lib item of
        None \<Rightarrow> Inl (ItemNotMap i (rlTypeName lib item))
      | Some m \<Rightarrow>
          (case map_of m ''name'' of
             Some (RawString name) \<Rightarrow>
               (case rlDecodeBucket lib m (emptyBucket name) of
                  Inl e \<Rightarrow> Inl (ItemNotDecoded i e)
                | Inr bucket \<Rightarrow>
                    (if map_of result (iName bucket) \<noteq> None then Inl (DuplicateBucket (iName bucket))
                     else decodeListFrom lib (Suc i) items (AList.update (iName bucket) bucket result)))
           | _ \<Rightarrow> Inl (ItemUnnamed i)))"

definition decodeListFormat :: "raw_library \<Rightarrow> raw list \<Rightarrow> loader_error + (string \<times> ir_bucket) list" where
  "decodeListFormat lib items = decodeListFrom lib 0 items []"

fun decodeMapFrom ::
  "raw_library \<Rightarrow> (raw \<times> raw) list \<Rightarrow> (string \<times> ir_bucket) list \<Rightarrow> loader_error + (string \<times> ir_bucket) list" where
  "decodeMapFrom lib [] result = Inr result"
| "decodeMapFrom lib ((k, v) # entries) result =
     (let name = keyString lib k in
      case asStringMap lib v of
        None \<Rightarrow> Inl (BucketNotMap name (rlTypeName lib v))
      | Some m \<Rightarrow>
          (case rlDecodeBucket lib m (emptyBucket name) of
             Inl e \<Rightarrow> Inl (BucketNotDecoded name e)
           | Inr bucket \<Rightarrow> decodeMapFrom lib entries (AList.update name bucket result)))"

definition decodeMapFormat :: "raw_library \<Rightarrow> (raw \<times> raw) list \<Rightarrow> loader_error + (string \<times> ir_bucket) list" where
  "decodeMapFormat lib entries = decodeMapFrom lib entries []"

text \<open>The hook, for a value that is decoded into the map of buckets.\<close>

definition bucketsDecodeHook :: "raw_library \<Rightarrow> raw \<Rightarrow> loader_error + (string \<times> ir_bucket) list" where
  "bucketsDecodeHook lib v =
     (case v of
        RawList items \<Rightarrow> decodeListFormat lib items
      | RawMap m \<Rightarrow> decodeMapFormat lib (map (\<lambda>(k, x). (RawString k, x)) m)
      | RawAnyMap m \<Rightarrow> decodeMapFormat lib m
      | _ \<Rightarrow> Inl (NotListOrMap (rlTypeName lib v)))"

text \<open>The file's settings, and decoding them with the hook for the buckets.\<close>

record file_library =
  flReadSettings :: "string \<Rightarrow> string + raw"
  flDecode :: "(raw \<Rightarrow> loader_error + (string \<times> ir_bucket) list) \<Rightarrow> raw \<Rightarrow> string + ir_config"

definition PopulateFromFile :: "file_library \<Rightarrow> raw_library \<Rightarrow> string \<Rightarrow> loader_error + ir_config" where
  "PopulateFromFile fl lib path =
     rbind (rmap_err FileUnreadable (flReadSettings fl path)) (\<lambda>settings.
       rmap_err NotUnmarshalled (flDecode fl (bucketsDecodeHook lib) settings))"

definition LoadFromFile ::
  "file_library \<Rightarrow> raw_library \<Rightarrow> (string \<Rightarrow> string + (string \<times> credentials) list) \<Rightarrow> string \<Rightarrow> loader_error + config" where
  "LoadFromFile fl lib readCredentials path =
     rbind (PopulateFromFile fl lib path) (\<lambda>ir. rmap_err Invalid (PopulateFromIR readCredentials ir))"

subsection \<open>Properties\<close>

definition keyed :: "(string \<times> ir_bucket) list \<Rightarrow> bool" where
  "keyed bs \<longleftrightarrow> distinct (map fst bs) \<and> (\<forall>(k, b) \<in> set bs. iName b = k)"

lemma update_new: "map_of bs k = None \<Longrightarrow> AList.update k v bs = bs @ [(k, v)]"
  by (induction bs) (auto split: if_split_asm)

lemma keyed_update:
  "keyed bs \<Longrightarrow> map_of bs (iName b) = None \<Longrightarrow> keyed (AList.update (iName b) b bs)"
proof -
  assume k: "keyed bs" "map_of bs (iName b) = None"
  then have "AList.update (iName b) b bs = bs @ [(iName b, b)]"
    by (simp add: update_new)
  with k show ?thesis by (auto simp: keyed_def map_of_eq_None_iff)
qed

text \<open>
  A list of buckets that loads has one entry for each item, keyed by the name in it: a name that comes
  twice is an error.
\<close>

lemma list_format_keyed:
  "decodeListFrom lib i items result = Inr bs \<Longrightarrow> keyed result \<Longrightarrow> keyed bs \<and> length bs = length result + length items"
proof (induction lib i items result rule: decodeListFrom.induct)
  case (2 lib i item items result)
  from 2(2) obtain m name bucket where d: "asStringMap lib item = Some m" "map_of m ''name'' = Some (RawString name)"
    "rlDecodeBucket lib m (emptyBucket name) = Inr bucket" "map_of result (iName bucket) = None"
    "decodeListFrom lib (Suc i) items (AList.update (iName bucket) bucket result) = Inr bs"
    by (auto split: option.split_asm raw.split_asm sum.split_asm if_split_asm)
  have "length (AList.update (iName bucket) bucket result) = Suc (length result)"
    using d(4) by (simp add: update_new)
  with 2(1) [OF d(1,2) refl d(3) _ d(5)] d(4) keyed_update [OF 2(3) d(4)] show ?case by simp
qed simp

text \<open>In a map the name inside a bucket wins over its key, and two buckets can share it.\<close>

definition naming_library :: raw_library where
  "naming_library = \<lparr>rlSprint = (\<lambda>_. []), rlTypeName = (\<lambda>_. []),
     rlDecodeBucket = (\<lambda>m b. Inr (case map_of m ''name'' of Some (RawString s) \<Rightarrow> b\<lparr>iName := s\<rparr> | _ \<Rightarrow> b))\<rparr>"

lemma map_format_renames:
  "bucketsDecodeHook naming_library
     (RawMap [(''a'', RawMap [(''name'', RawString ''b'')]), (''b'', RawMap [])]) =
   Inr [(''a'', emptyBucket ''b''), (''b'', emptyBucket ''b'')] \<and>
   bucketsDecodeHook naming_library
     (RawList [RawMap [(''name'', RawString ''b'')], RawMap [(''name'', RawString ''b'')]]) =
   Inl (DuplicateBucket ''b'')"
  by code_simp

end
