(* ===== verification/Observability.thy ===== *)
theory Observability
  imports Server
begin

section \<open>Logging and request identifiers\<close>

text \<open>
  \<open>internal/observability/observability.go\<close>: the level and format of the logger, what a context carries,
  the response writer that remembers the status for the log, the middleware that names requests, and
  the choice of the exporters of traces and metrics with the order of their shutdown.  The exporters
  themselves and the counters are libraries.
\<close>

subsection \<open>Loggers\<close>

datatype log_level = LevelDebug | LevelInfo | LevelWarn | LevelError

definition logLevel :: "string \<Rightarrow> log_level" where
  "logLevel level =
     (if level = ''debug'' then LevelDebug
      else if level = ''info'' then LevelInfo
      else if level = ''warn'' then LevelWarn
      else if level = ''error'' then LevelError
      else LevelInfo)"

datatype log_handler = TextHandler log_level | JSONHandler log_level

text \<open>Whether the output is a terminal is an argument.\<close>

definition NewLogger :: "bool \<Rightarrow> string \<Rightarrow> log_handler" where
  "NewLogger isTerminal level = (if isTerminal then TextHandler (logLevel level) else JSONHandler (logLevel level))"

definition NewLoggerWithFormat :: "bool \<Rightarrow> string \<Rightarrow> string \<Rightarrow> log_handler" where
  "NewLoggerWithFormat isTerminal level format =
     (if format = ''json'' then JSONHandler (logLevel level)
      else if format = ''text'' then TextHandler (logLevel level)
      else if isTerminal then TextHandler (logLevel level) else JSONHandler (logLevel level))"

subsection \<open>Contexts\<close>

text \<open>
  The keys are the addresses of two variables without a size, and Go leaves open whether such addresses
  differ: \<open>same\<close> says that they do not.
\<close>

datatype context_key = LoggerKey | TraceIDKey

datatype 'l context_value = LoggerValue 'l | TraceValue string

type_synonym 'l go_context = "(context_key \<times> 'l context_value) list"

definition sameKey :: "bool \<Rightarrow> context_key \<Rightarrow> context_key \<Rightarrow> bool" where
  "sameKey same k k' \<longleftrightarrow> same \<or> k = k'"

definition ctxValue :: "bool \<Rightarrow> 'l go_context \<Rightarrow> context_key \<Rightarrow> 'l context_value option" where
  "ctxValue same ctx k = map_option snd (find (\<lambda>(k', _). sameKey same k k') ctx)"

definition WithLogger :: "'l \<Rightarrow> 'l go_context \<Rightarrow> 'l go_context" where
  "WithLogger logger ctx = (LoggerKey, LoggerValue logger) # ctx"

definition GetLoggerFromContext :: "bool \<Rightarrow> 'l go_context \<Rightarrow> 'l option" where
  "GetLoggerFromContext same ctx =
     (case ctxValue same ctx LoggerKey of Some (LoggerValue l) \<Rightarrow> Some l | _ \<Rightarrow> None)"

definition GetTraceID :: "bool \<Rightarrow> 'l go_context \<Rightarrow> string" where
  "GetTraceID same ctx = (case ctxValue same ctx TraceIDKey of Some (TraceValue t) \<Rightarrow> t | _ \<Rightarrow> [])"

text \<open>What the span of a request adds to a logger.\<close>

record span_context =
  spTraceID :: "string option"
  spSpanID :: "string option"
  spSampled :: bool

definition traceArgs :: "span_context \<Rightarrow> (string \<times> string) list" where
  "traceArgs sp =
     (case spTraceID sp of Some t \<Rightarrow> [(''trace_id'', t)] | None \<Rightarrow> []) @
     (case spSpanID sp of Some t \<Rightarrow> [(''span_id'', t)] | None \<Rightarrow> []) @
     (if spSampled sp then [(''sampled'', ''true'')] else [])"

definition WithTraceContext ::
  "('l \<Rightarrow> (string \<times> string) list \<Rightarrow> 'l) \<Rightarrow> span_context \<Rightarrow> 'l option \<Rightarrow> 'l option" where
  "WithTraceContext logWith sp logger =
     (case logger of
        None \<Rightarrow> None
      | Some l \<Rightarrow> (let args = traceArgs sp in if 0 < length args then Some (logWith l args) else Some l))"

subsection \<open>Middleware\<close>

record logging_writer =
  lwStatusCode :: nat
  lwWritten :: bool
  lwInner :: writer

definition newLoggingWriter :: "writer \<Rightarrow> logging_writer" where
  "newLoggingWriter w = \<lparr>lwStatusCode = 200, lwWritten = False, lwInner = w\<rparr>"

definition logWriteHeader :: "nat \<Rightarrow> logging_writer \<Rightarrow> logging_writer" where
  "logWriteHeader code lw =
     (if \<not> lwWritten lw then
        lw\<lparr>lwStatusCode := code, lwWritten := True, lwInner := WriteHeader code (lwInner lw)\<rparr>
      else lw)"

definition logWrite :: "chunk \<Rightarrow> logging_writer \<Rightarrow> logging_writer" where
  "logWrite c lw =
     (let lw1 = (if \<not> lwWritten lw then lw\<lparr>lwStatusCode := 200, lwWritten := True\<rparr> else lw)
      in lw1\<lparr>lwInner := WriteBody c (lwInner lw1)\<rparr>)"

text \<open>The calls a handler makes on a response writer.\<close>

datatype writer_call = CallHeader "header \<Rightarrow> header" | CallWriteHeader nat | CallWrite chunk

fun runCall :: "writer_call \<Rightarrow> writer \<Rightarrow> writer" where
  "runCall (CallHeader f) w = w\<lparr>wHeader := f (wHeader w)\<rparr>"
| "runCall (CallWriteHeader n) w = WriteHeader n w"
| "runCall (CallWrite c) w = WriteBody c w"

fun logCall :: "writer_call \<Rightarrow> logging_writer \<Rightarrow> logging_writer" where
  "logCall (CallHeader f) lw = lw\<lparr>lwInner := (lwInner lw)\<lparr>wHeader := f (wHeader (lwInner lw))\<rparr>\<rparr>"
| "logCall (CallWriteHeader n) lw = logWriteHeader n lw"
| "logCall (CallWrite c) lw = logWrite c lw"

record log_entry =
  leMethod :: string
  lePath :: string
  leStatus :: nat
  leMillis :: int

text \<open>The handler behind is given by its calls; it runs from \<open>start\<close> to \<open>now\<close>.\<close>

definition RequestLogger :: "time \<Rightarrow> time \<Rightarrow> request \<Rightarrow> writer_call list \<Rightarrow> writer \<Rightarrow> writer \<times> log_entry" where
  "RequestLogger start now r calls w =
     (let lrw = fold logCall calls (newLoggingWriter w) in
      (lwInner lrw, \<lparr>leMethod = qMethod r, lePath = uPath (qURL r), leStatus = lwStatusCode lrw,
         leMillis = (now - start) div 1000000\<rparr>))"

text \<open>The identifier of a request: its own, or the time in nanoseconds.\<close>

definition traceIDOf :: "time \<Rightarrow> request \<Rightarrow> string" where
  "traceIDOf now r = (let t = hGet (qHeader r) ''X-Trace-ID'' in if t = [] then fmt_int now else t)"

definition TraceIDMiddleware :: "time \<Rightarrow> request \<Rightarrow> 'l go_context \<Rightarrow> writer \<Rightarrow> 'l go_context \<times> writer" where
  "TraceIDMiddleware now r ctx w =
     (let traceID = traceIDOf now r in
      ((TraceIDKey, TraceValue traceID) # ctx, w\<lparr>wHeader := hSet ''X-Trace-ID'' traceID (wHeader w)\<rparr>))"

subsection \<open>Traces and metrics\<close>

text \<open>
  The exporters are chosen by two variables of the environment.  Making one is a function of the library,
  which may fail; what is kept of the providers is the order in which they are shut down.
\<close>

datatype exporter = StdoutExporter | OTLPExporter

record otel_library =
  olNewTraces :: "exporter \<Rightarrow> string option"
  olNewMetrics :: "exporter \<Rightarrow> string option"

definition newExporter :: "(exporter \<Rightarrow> string option) \<Rightarrow> exporter \<Rightarrow> string + exporter option" where
  "newExporter new e = (case new e of Some err \<Rightarrow> Inl err | None \<Rightarrow> Inr (Some e))"

definition buildTracesExporter :: "otel_library \<Rightarrow> string \<Rightarrow> string + exporter option" where
  "buildTracesExporter lib exporterName =
     (if exporterName = ''stdout'' \<or> exporterName = ''console'' then newExporter (olNewTraces lib) StdoutExporter
      else if exporterName = ''otlp'' then newExporter (olNewTraces lib) OTLPExporter
      else if exporterName = ''none'' \<or> exporterName = [] then Inr None
      else Inl (''unsupported traces exporter: '' @ exporterName))"

definition buildMetricsExporter :: "otel_library \<Rightarrow> string \<Rightarrow> string + exporter option" where
  "buildMetricsExporter lib exporterName =
     (if exporterName = ''stdout'' \<or> exporterName = ''console'' then newExporter (olNewMetrics lib) StdoutExporter
      else if exporterName = ''otlp'' then newExporter (olNewMetrics lib) OTLPExporter
      else if exporterName = ''none'' \<or> exporterName = [] then Inr None
      else Inl (''unsupported metrics exporter: '' @ exporterName))"

datatype shutdown_step = ShutTracesExporter | ShutTracerProvider | ShutMetricsExporter | ShutMeterProvider

record otel_provider =
  opTraces :: "exporter option"
  opMetrics :: "exporter option"
  opShutdown :: "shutdown_step list"

definition InitOpenTelemetry :: "otel_library \<Rightarrow> (string \<Rightarrow> string) \<Rightarrow> string + otel_provider" where
  "InitOpenTelemetry lib getenv =
     (case buildTracesExporter lib (getenv ''OTEL_TRACES_EXPORTER'') of
        Inl e \<Rightarrow> Inl (''failed to create trace exporter: '' @ e)
      | Inr traces \<Rightarrow>
          (case buildMetricsExporter lib (getenv ''OTEL_METRICS_EXPORTER'') of
             Inl e \<Rightarrow> Inl (''failed to create metric exporter: '' @ e)
           | Inr metrics \<Rightarrow>
               Inr \<lparr>opTraces = traces, opMetrics = metrics,
                 opShutdown = (if traces \<noteq> None then [ShutTracesExporter] else []) @ [ShutTracerProvider] @
                   (if metrics \<noteq> None then [ShutMetricsExporter, ShutMeterProvider] else [])\<rparr>))"

text \<open>All steps run; the errors are joined, an absent one being printed as \<open><nil>\<close>.\<close>

definition shutdownProvider :: "(shutdown_step \<Rightarrow> string option) \<Rightarrow> otel_provider \<Rightarrow> string option" where
  "shutdownProvider run otp =
     fold (\<lambda>fn errs. case run fn of
         None \<Rightarrow> errs
       | Some err \<Rightarrow> Some ((case errs of None \<Rightarrow> ''<nil>'' | Some e \<Rightarrow> e) @ ''; '' @ err)) (opShutdown otp) None"

subsection \<open>Properties\<close>

definition logs :: "logging_writer \<Rightarrow> writer \<Rightarrow> bool" where
  "logs lw w \<longleftrightarrow> lwInner lw = w \<and>
     (case wStatus w of None \<Rightarrow> \<not> lwWritten lw \<and> lwStatusCode lw = 200 | Some n \<Rightarrow> lwWritten lw \<and> lwStatusCode lw = n)"

lemma logs_call: "logs lw w \<Longrightarrow> logs (logCall c lw) (runCall c w)"
  by (cases c) (auto simp: logs_def logWriteHeader_def logWrite_def WriteHeader_def WriteBody_def Let_def
      split: option.split_asm)

text \<open>
  Whatever a handler does, the logging writer passes it on unchanged and remembers the status that was
  sent, or 200 when none was.
\<close>

lemma logged_status:
  "wStatus w = None \<Longrightarrow> logs (fold logCall calls (newLoggingWriter w)) (fold runCall calls w)"
proof (induction calls rule: rev_induct)
  case (snoc c calls)
  then show ?case by (simp add: logs_call)
qed (simp add: logs_def newLoggingWriter_def)

lemma request_logger_transparent:
  assumes "wStatus w = None"
  shows "fst (RequestLogger start now r calls w) = fold runCall calls w \<and>
    leStatus (snd (RequestLogger start now r calls w)) =
      (case wStatus (fold runCall calls w) of None \<Rightarrow> 200 | Some n \<Rightarrow> n)"
  using logged_status [OF assms, of calls] by (auto simp: RequestLogger_def logs_def Let_def split: option.splits)

text \<open>An exporter is shut down before the provider that would still send it what it has batched.\<close>

lemma exporter_shut_first:
  assumes "InitOpenTelemetry lib getenv = Inr otp"
  shows "(opTraces otp \<noteq> None \<longrightarrow> (\<exists>rest. opShutdown otp = ShutTracesExporter # ShutTracerProvider # rest)) \<and>
    (opMetrics otp \<noteq> None \<longrightarrow> (\<exists>first. opShutdown otp = first @ [ShutMetricsExporter, ShutMeterProvider]))"
  using assms by (auto simp: InitOpenTelemetry_def split: sum.split_asm if_split_asm)

text \<open>
  If the two keys are the same address, a logger put into a context hides the identifier of the request,
  and the identifier hides an outer logger.
\<close>

lemma context_keys_clash:
  "GetTraceID True (WithLogger l [(TraceIDKey, TraceValue t)]) = [] \<and>
   GetTraceID False (WithLogger l [(TraceIDKey, TraceValue t)]) = t \<and>
   GetLoggerFromContext True ((TraceIDKey, TraceValue t) # WithLogger l []) = None"
  by (simp add: GetTraceID_def GetLoggerFromContext_def ctxValue_def WithLogger_def sameKey_def)

end
