(* ===== verification/Invariant.thy ===== *)
theory Invariant
  imports Main
begin

section \<open>Invariants of step relations\<close>

text \<open>
  The contract between a component that moves in steps and the properties of its runs: what one step
  keeps, a run keeps.  \<^theory_text>\<open>Startup\<close> interprets it for the requests a server answers,
  \<^theory_text>\<open>Lifecycle\<close> for the goroutines that run the two servers.
\<close>

locale step_invariant =
  fixes step :: "'s \<Rightarrow> 's \<Rightarrow> bool"
    and inv :: "'s \<Rightarrow> bool"
  assumes step_inv: "step s t \<Longrightarrow> inv s \<Longrightarrow> inv t"
begin

lemma run_inv: "step\<^sup>*\<^sup>* s t \<Longrightarrow> inv s \<Longrightarrow> inv t"
  by (induction rule: rtranclp_induct) (auto intro: step_inv)

lemma never: "step\<^sup>*\<^sup>* s t \<Longrightarrow> inv s \<Longrightarrow> (\<And>u. inv u \<Longrightarrow> \<not> bad u) \<Longrightarrow> \<not> bad t"
  using run_inv by blast

end

end
