(* ===== verification/Startup.thy ===== *)
theory Startup
  imports ServerFacts Admin Loader Observability Invariant
begin

section \<open>Starting the router\<close>

text \<open>
  \<open>cmd/s3router/main.go\<close>: from a configuration and the flags to the servers, and the check of one route.
  Exiting with an error is a value; how the
  servers run and stop is in \<^theory_text>\<open>Lifecycle\<close>.  Parsing a URL is a
  function of the platform; the SDK, the XML codec and the cache are arguments, and so is
  how a backend answers the listings made while one request is served.
\<close>

subsection \<open>Settings\<close>

record flags =
  flConfig :: string
  flListen :: string
  flAdmin :: string
  flLogLevel :: string
  flLogFormat :: string
  flTimeout :: int
  flCredentials :: string
  flCheckRoute :: string

definition defaultFlags :: flags where
  "defaultFlags = \<lparr>flConfig = ''config.yaml'', flListen = '':8080'', flAdmin = '':9090'', flLogLevel = ''info'',
     flLogFormat = ''auto'', flTimeout = 30 * Second, flCredentials = [], flCheckRoute = []\<rparr>"

datatype startup_error =
    NoTelemetry string
  | NotLoaded loader_error
  | NoCredentialsStore
  | CredentialsUnreadable store_error
  | NoManager backend_error
  | NoMatcher string

record environment =
  enReadFile :: "string \<Rightarrow> string + (string \<times> credentials) list"
  enVariable :: "string \<Rightarrow> string"
  enFiles :: file_library
  enRaw :: raw_library
  enTelemetry :: otel_library

definition serverSettings :: "config \<Rightarrow> server_config" where
  "serverSettings cfg =
     (case cfgServer cfg of
        Some s \<Rightarrow> s
      | None \<Rightarrow> \<lparr>sReadTimeout = 15 * Second, sWriteTimeout = 15 * Second, sIdleTimeout = 60 * Second,
          sMaxBodySize = 4 * 1024 * 1024 * 1024, sRouteCacheSize = 1000\<rparr>)"

definition credentialsStore :: "environment \<Rightarrow> flags \<Rightarrow> config \<Rightarrow> startup_error + file_store" where
  "credentialsStore env fl cfg =
     (case cfgCredentialsStore cfg of
        Some s \<Rightarrow> Inr s
      | None \<Rightarrow>
          (if flCredentials fl \<noteq> [] then
             rmap_err CredentialsUnreadable (NewFileCredentialsStore (enReadFile env) (flCredentials fl))
           else Inl NoCredentialsStore))"

subsection \<open>The servers\<close>

record ('w, 'c) libraries =
  lbPlatform :: "'w platform"
  lbXml :: xml_codec
  lbMarshal :: "proxy_document \<Rightarrow> string"
  lbCache :: "'c cache_ops"
  lbOrder :: "string list \<Rightarrow> string list"
  lbListing :: "'w backend_client \<Rightarrow> list_client"
  lbSchedule :: "route_result list \<Rightarrow> event list"
  lbSortObjects :: "virtual_object list \<Rightarrow> virtual_object list"
  lbSortItems :: "response_item list \<Rightarrow> response_item list"

definition listHandler :: "('w, 'c) libraries \<Rightarrow> 'w manager \<Rightarrow> config \<Rightarrow> list_handler" where
  "listHandler lb mgr cfg =
     \<lparr>lhConfig = cfg,
      lhClients = (\<lambda>i. case GetClient mgr i of Inr c \<Rightarrow> Some (lbListing lb c) | Inl _ \<Rightarrow> None),
      lhSchedule = lbSchedule lb, lhSortObjects = lbSortObjects lb, lhSortItems = lbSortItems lb,
      lhOptimizer = NewPrefixOptimizer\<rparr>"

definition assembleServer ::
  "('w, 'c) libraries \<Rightarrow> config \<Rightarrow> file_store \<Rightarrow> 'w manager \<Rightarrow> 'c matcher \<Rightarrow> ('w, 'c) server" where
  "assembleServer lb cfg store mgr m =
     \<lparr>svMatcher = m, svVerifier = NewVerifier cfg (fileGetSecret store), svBuckets = cfg,
      svLists = listHandler lb mgr cfg,
      svExecutor = SetMatcher m (NewExecutor (lbPlatform lb) (lbXml lb) (lbCache lb) (lbOrder lb) mgr),
      svMarshal = lbMarshal lb, svMaxBodySize = sMaxBodySize (serverSettings cfg),
      svVirtualHosts = cfgVirtualHosts cfg\<rparr>"

definition startRouter ::
  "('w, 'c) libraries \<Rightarrow> environment \<Rightarrow> flags \<Rightarrow> config \<Rightarrow> startup_error + ('w, 'c) server \<times> 'w admin_server" where
  "startRouter lb env fl cfg =
     rbind (credentialsStore env fl cfg) (\<lambda>store.
       rbind (rmap_err NoManager (NewManager (lbPlatform lb) cfg (flTimeout fl))) (\<lambda>mgr.
         rbind (rmap_err NoMatcher (NewMatcher (lbCache lb) cfg (sRouteCacheSize (serverSettings cfg)))) (\<lambda>m.
           Inr (assembleServer lb cfg store mgr m, \<lparr>asBackend = mgr, asConfig = cfg\<rparr>))))"

text \<open>
  All of the start: telemetry, the configuration file, the servers.  With \<open>-check-route\<close> the program
  reports the route instead of serving, after the same steps up to the matcher.
\<close>

definition launch ::
  "('w, 'c) libraries \<Rightarrow> environment \<Rightarrow> flags \<Rightarrow> startup_error + ('w, 'c) server \<times> 'w admin_server" where
  "launch lb env fl =
     rbind (rmap_err NoTelemetry (InitOpenTelemetry (enTelemetry env) (enVariable env))) (\<lambda>_.
       rbind (rmap_err NotLoaded (LoadFromFile (enFiles env) (enRaw env) (enReadFile env) (flConfig fl)))
         (startRouter lb env fl))"

subsection \<open>Checking a route\<close>

definition parseS3URL :: "'w platform \<Rightarrow> string \<Rightarrow> string + string \<times> string" where
  "parseS3URL pl s3URL =
     (case plParseURL pl s3URL of
        Inl e \<Rightarrow> Inl (''invalid URL: '' @ e)
      | Inr u \<Rightarrow>
          (if uScheme u \<noteq> ''s3'' then Inl (''expected s3:// scheme, got '' @ uScheme u @ ''://'')
           else Inr (uHost u, TrimPrefix (uPath u) ''/'')))"

record route_report =
  rpBucket :: string
  rpKey :: string
  rpBackend :: string
  rpRewrittenKey :: string
  rpPhysicalBucket :: string
  rpPhysicalKey :: string

datatype check_error = BadURL string | NoRoute match_error | BackendMissing string

definition checkRoute ::
  "'w platform \<Rightarrow> 'c cache_ops \<Rightarrow> config \<Rightarrow> 'c matcher \<Rightarrow> string \<Rightarrow> check_error fault + route_report" where
  "checkRoute pl ops cfg m s3URL =
     (case parseS3URL pl s3URL of
        Inl e \<Rightarrow> Inl (Failed (BadURL e))
      | Inr (bucketName, objectKey) \<Rightarrow>
          (case fst (Match ops m bucketName objectKey ''GET'') of
             Inl Panicked \<Rightarrow> Inl Panicked
           | Inl (Failed e) \<Rightarrow> Inl (Failed (NoRoute e))
           | Inr d \<Rightarrow>
               (case dBackend d of
                  None \<Rightarrow> Inl Panicked
                | Some b \<Rightarrow>
                    (case map_of (cfgBackends cfg) (bID b) of
                       None \<Rightarrow> Inl (Failed (BackendMissing (bID b)))
                     | Some bcfg \<Rightarrow>
                         Inr \<lparr>rpBucket = bucketName, rpKey = objectKey, rpBackend = bID b,
                           rpRewrittenKey = dRewrittenKey d, rpPhysicalBucket = bBucket bcfg,
                           rpPhysicalKey = bPrefix bcfg @ dRewrittenKey d\<rparr>))))"

text \<open>What is printed for a route, line by line.\<close>

definition reportText :: "route_report \<Rightarrow> string list" where
  "reportText r =
     [''Input:'', ''  Bucket: '' @ rpBucket r, ''  Key:    '' @ rpKey r, [],
      ''Routing Decision:'', ''  Backend:      '' @ rpBackend r, ''  Rewritten Key: '' @ rpRewrittenKey r, [],
      ''Physical Location:'', ''  Bucket: '' @ rpPhysicalBucket r, ''  Key:    '' @ rpPhysicalKey r,
      ''  S3 URL: s3://'' @ rpPhysicalBucket r @ ''/'' @ rpPhysicalKey r]"

subsection \<open>Serving\<close>

text \<open>A series of requests, each on a connection of its own.\<close>

fun serveSeries :: "(clock \<times> request) list \<Rightarrow> ('w, 'c) io \<Rightarrow> ('w, 'c) io" where
  "serveSeries [] io = io"
| "serveSeries ((ck, r) # reqs) io =
     serveSeries reqs (snd (HandleS3Request ck r (io\<lparr>ioWriter := newWriter\<rparr>)))"

subsection \<open>What serving changes\<close>

text \<open>A matcher of these buckets whose cache holds decisions of the routes only.\<close>

definition sound :: "('c \<Rightarrow> string \<rightharpoonup> decision) \<Rightarrow> (string \<times> bucket_config) list \<Rightarrow> 'c matcher \<Rightarrow> bool" where
  "sound contents bs m \<longleftrightarrow> mBuckets m = bs \<and> (\<forall>c. mCache m = Some c \<longrightarrow> coherent bs (contents c))"

definition plain_names :: "(string \<times> bucket_config) list \<Rightarrow> bool" where
  "plain_names bs \<longleftrightarrow> (\<forall>(b, _) \<in> set bs. CHR '':'' \<notin> set b)"

lemma Match_sound:
  assumes "cache_laws ops contents" "plain_names bs" "CHR '':'' \<notin> set meth" "sound contents bs m"
    "Match ops m b k meth = (r, m')"
  shows "sound contents bs m' \<and> r = fst (Match ops \<lparr>mBuckets = bs, mCache = None\<rparr> b k meth)"
proof (cases "CHR '':'' \<in> set b")
  case True
  then have "map_of bs b = None" using assms(2) by (auto simp: plain_names_def map_of_eq_None_iff)
  then show ?thesis using assms(4,5) by (auto simp: sound_def Match_def)
next
  case False
  have "m\<lparr>mCache := None\<rparr> = \<lparr>mBuckets = bs, mCache = None\<rparr>" using assms(4) by (simp add: sound_def)
  with Match_cached [OF assms(1) False assms(3) _ assms(5)] assms(4) show ?thesis by (simp add: sound_def)
qed

lemma mapKey_sound:
  assumes "cache_laws (exCacheOps ex) contents" "plain_names bs" "sound contents bs m" "mapKey ex bc rc d k m = (r, m')"
  shows "sound contents bs m'"
proof -
  obtain x m1 where "Match (exCacheOps ex) m (rcBucket rc) k ''DELETE'' = (x, m1)" by fastforce
  moreover from this have "sound contents bs m1"
    using Match_sound [OF assms(1,2) _ assms(3), of "''DELETE''"] by simp
  ultimately show ?thesis
    using assms(4) by (auto simp: mapKey_def Let_def split: sum.split_asm fault.split_asm option.split_asm prod.split_asm)
qed

lemma mapKeys_sound:
  assumes "cache_laws (exCacheOps ex) contents" "plain_names bs"
  shows "sound contents bs m \<Longrightarrow> mapKeys ex bc rc d ks m = (r, m') \<Longrightarrow> sound contents bs m'"
proof (induction ks arbitrary: m r m')
  case (Cons k ks)
  obtain x m1 where k: "mapKey ex bc rc d k m = (x, m1)" by fastforce
  moreover obtain y m2 where "mapKeys ex bc rc d ks m1 = (y, m2)" by fastforce
  moreover from this have "sound contents bs m2" using Cons.IH mapKey_sound [OF assms Cons.prems(1) k] by blast
  ultimately show ?case
    using mapKey_sound [OF assms Cons.prems(1) k] Cons.prems(2) by (auto split: sum.split_asm)
qed simp

text \<open>A matcher, if there is one, stays sound.\<close>

definition sound_opt :: "('c \<Rightarrow> string \<rightharpoonup> decision) \<Rightarrow> (string \<times> bucket_config) list \<Rightarrow> 'c matcher option \<Rightarrow> bool" where
  "sound_opt contents bs m \<longleftrightarrow> (\<exists>m1. m = Some m1 \<and> sound contents bs m1)"

lemma executor_sound:
  assumes "cache_laws (exCacheOps ex) contents" "plain_names bs" "sound_opt contents bs (exMatcher ex)"
  shows "sound_opt contents bs (snd (executeDeleteObjects ex bc rc d w))"
    and "sound_opt contents bs (snd (copySourceOf ex d cs))"
    and "sound_opt contents bs (snd (executeCopyObject ex bc rc d cs w))"
proof -
  obtain m where m: "exMatcher ex = Some m" "sound contents bs m" using assms(3) by (auto simp: sound_opt_def)
  show "sound_opt contents bs (snd (executeDeleteObjects ex bc rc d w))"
    using m mapKeys_sound [OF assms(1,2) m(2)]
    by (auto simp: executeDeleteObjects_def Let_def sound_opt_def split: option.split sum.split prod.split)
  have match: "sound contents bs m1" if "Match (exCacheOps ex) m b k ''GET'' = (x, m1)" for b k x m1
    using Match_sound [OF assms(1,2) _ m(2), of "''GET''"] that by simp
  show copy: "sound_opt contents bs (snd (copySourceOf ex d cs))"
    using m match
    by (auto simp: copySourceOf_def Let_def sound_opt_def split: option.split sum.split prod.split fault.split list.split)
  show "sound_opt contents bs (snd (executeCopyObject ex bc rc d cs w))"
    using copy by (auto simp: executeCopyObject_def Let_def split: sum.split prod.split)
qed

lemma ExecuteRequest_sound:
  assumes "cache_laws (exCacheOps ex) contents" "plain_names bs" "sound_opt contents bs (exMatcher ex)"
  shows "sound_opt contents bs (snd (ExecuteRequest ex now rc d w))"
proof -
  have put: "sound_opt contents bs (snd (executePutObject ex now bc rc d w))" for bc
    using executor_sound [OF assms] assms(3) by (simp add: executePutObject_def Let_def)
  have post: "sound_opt contents bs (snd (executePost ex bc rc d w))" for bc
    using executor_sound [OF assms] assms(3) by (simp add: executePost_def)
  show ?thesis
    using put post assms(3) by (simp add: ExecuteRequest_def Let_def split: option.split sum.split)
qed

text \<open>A server that differs from the one started in its matcher and its optimiser only.\<close>

definition serverWith :: "('w, 'c) server \<Rightarrow> 'c matcher \<Rightarrow> optimizer \<Rightarrow> ('w, 'c) server" where
  "serverWith sv m opt =
     sv\<lparr>svMatcher := m, svExecutor := svExecutor sv\<lparr>exMatcher := Some m\<rparr>, svLists := svLists sv\<lparr>lhOptimizer := opt\<rparr>\<rparr>"

definition kept :: "('c \<Rightarrow> string \<rightharpoonup> decision) \<Rightarrow> (string \<times> bucket_config) list \<Rightarrow> ('w, 'c) server \<Rightarrow> ('w, 'c) io \<Rightarrow> bool" where
  "kept contents bs sv io \<longleftrightarrow> (\<exists>m opt. ioServer io = serverWith sv m opt \<and> sound contents bs m)"

lemma serverWith_simps [simp]:
  "svVerifier (serverWith sv m opt) = svVerifier sv" "svMatcher (serverWith sv m opt) = m"
  "exCacheOps (svExecutor (serverWith sv m opt)) = exCacheOps (svExecutor sv)"
  "exMatcher (svExecutor (serverWith sv m opt)) = Some m" "svMaxBodySize (serverWith sv m opt) = svMaxBodySize sv"
  by (simp_all add: serverWith_def)

lemma kept_writer [simp]: "kept contents bs sv (onWriter f io) = kept contents bs sv io"
  "kept contents bs sv (io\<lparr>ioWriter := wr\<rparr>) = kept contents bs sv io"
  "kept contents bs sv (io\<lparr>ioWorld := w\<rparr>) = kept contents bs sv io"
  by (simp_all add: kept_def onWriter_def)

lemma kept_withMatcher:
  assumes "kept contents bs sv io" "sound contents bs m"
  shows "kept contents bs sv (withMatcher m io)"
proof -
  obtain m0 opt where "ioServer io = serverWith sv m0 opt" using assms(1) by (auto simp: kept_def)
  then have "ioServer (withMatcher m io) = serverWith sv m opt" by (simp add: withMatcher_def serverWith_def Let_def)
  with assms(2) show ?thesis by (auto simp: kept_def)
qed

lemma kept_lists:
  assumes "kept contents bs sv io"
  shows "kept contents bs sv (io\<lparr>ioServer := (ioServer io)\<lparr>svLists := snd (listBucket params b (svLists (ioServer io)))\<rparr>\<rparr>)"
proof -
  obtain m opt where i: "ioServer io = serverWith sv m opt" "sound contents bs m" using assms by (auto simp: kept_def)
  obtain res opt' where "listBucket params b (svLists (ioServer io)) = (res, (svLists (ioServer io))\<lparr>lhOptimizer := opt'\<rparr>)"
    by (simp add: listBucket_def Let_def split_def)
  then have "(ioServer io)\<lparr>svLists := snd (listBucket params b (svLists (ioServer io)))\<rparr> = serverWith sv m opt'"
    by (simp add: i(1) serverWith_def)
  with i(2) show ?thesis by (auto simp: kept_def)
qed

lemma kept_executeProxy:
  assumes "cache_laws (exCacheOps (svExecutor sv)) contents" "plain_names bs" "kept contents bs sv io"
  shows "kept contents bs sv (snd (executeProxy ck rc d io))"
proof -
  obtain m opt where i: "ioServer io = serverWith sv m opt" "sound contents bs m" using assms(3) by (auto simp: kept_def)
  obtain res world m1 where ex: "ExecuteRequest (svExecutor (ioServer io)) (ckSign ck) rc d (ioWorld io) = ((res, world), m1)"
    by (metis prod.exhaust)
  have "sound_opt contents bs m1"
    using ExecuteRequest_sound [of "svExecutor (ioServer io)" contents bs "ckSign ck" rc d "ioWorld io"] assms(1,2) i ex
    by (simp add: sound_opt_def)
  then obtain m2 where m2: "m1 = Some m2" "sound contents bs m2" by (auto simp: sound_opt_def)
  then have "kept contents bs sv ((withMatcher m2 io)\<lparr>ioWorld := world\<rparr>)" using kept_withMatcher [OF assms(3)] by simp
  then show ?thesis
    unfolding executeProxy_def Let_def ex prod.case m2(1) option.case
    by (auto split: sum.split fault.split prod.split)
qed

lemma kept_object_operations:
  assumes "cache_laws (exCacheOps (svExecutor sv)) contents" "plain_names bs" "kept contents bs sv io"
    "CHR '':'' \<notin> set (qMethod r)"
  shows "kept contents bs sv (snd (handleObjectOperations ck r b k io))"
proof -
  have listing: "kept contents bs sv (snd (handleListing ck r b params document io))" for params document
    using kept_lists [OF assms(3), of params b] assms(3)
    by (auto simp: handleListing_def Let_def split_def split: sum.split fault.split)
  obtain m opt where i: "ioServer io = serverWith sv m opt" "sound contents bs m" using assms(3) by (auto simp: kept_def)
  have "kept contents bs sv (snd (handleObjectOperation ck r b k op io))" for op
  proof (cases "authenticate (svVerifier (ioServer io)) (ckVerify ck) r")
    case (Inl e)
    with assms(3) show ?thesis by (cases e) (simp_all add: handleObjectOperation_def Let_def)
  next
    case (Inr cr)
    obtain ctx r1 where cr: "cr = (ctx, r1)" by (cases cr)
    have "qMethod r1 = qMethod r"
      using Inr cr VerifyRequest_keeps by (auto simp: authenticate_def split: prod.split_asm option.split_asm if_split_asm)
    obtain x m1 where m: "Match (exCacheOps (svExecutor sv)) m b k (qMethod r1) = (x, m1)" by fastforce
    have "sound contents bs m1"
      using Match_sound [OF assms(1,2) _ i(2) m] assms(4) \<open>qMethod r1 = qMethod r\<close> by simp
    then have "kept contents bs sv (withMatcher m1 io)" by (rule kept_withMatcher [OF assms(3)])
    with kept_executeProxy [OF assms(1,2) this] Inr cr m i(1) show ?thesis
      by (auto simp: handleObjectOperation_def Let_def split: sum.split fault.split)
  qed
  with listing show ?thesis
    by (simp add: handleObjectOperations_def handleListObjects_def handleListObjectsV2_def Let_def)
qed

lemma kept_request:
  assumes "cache_laws (exCacheOps (svExecutor sv)) contents" "plain_names bs" "kept contents bs sv io"
    "CHR '':'' \<notin> set (qMethod r)"
  shows "kept contents bs sv (snd (HandleS3Request ck r io))"
proof -
  have fin: "kept contents bs sv (snd (finish h))" if "kept contents bs sv (snd h)" for h
    using that by (cases h; cases "fst h") (auto simp: finish_def split: option.split)
  show ?thesis
  proof (cases ck r io rule: HandleS3Request_cases)
    case (bucket b k h)
    then have "kept contents bs sv (snd h)"
      using assms(3) by (auto simp: handleBucketOperations_def Let_def split: if_split_asm sum.split_asm fault.split_asm)
    with bucket fin show ?thesis by simp
  next
    case (object b k)
    have "CHR '':'' \<notin> set (qMethod (limitRequest (ioServer io) r))" using assms(4) by (simp add: limitRequest_keeps)
    from fin [OF kept_object_operations [OF assms(1-3) this]] object show ?thesis by simp
  qed (use assms(3) in simp_all)
qed

text \<open>One request, on a connection of its own, whose method is not made up to look like a cache key.\<close>

definition serve_step :: "('w, 'c) io \<Rightarrow> ('w, 'c) io \<Rightarrow> bool" where
  "serve_step io io' \<longleftrightarrow>
     (\<exists>ck r. CHR '':'' \<notin> set (qMethod r) \<and> io' = snd (HandleS3Request ck r (io\<lparr>ioWriter := newWriter\<rparr>)))"

definition serving_inv ::
  "('c \<Rightarrow> string \<rightharpoonup> decision) \<Rightarrow> (string \<times> bucket_config) list \<Rightarrow> ('w, 'c) server \<Rightarrow> ('w, 'c) io \<Rightarrow> bool" where
  "serving_inv contents bs sv io \<longleftrightarrow>
     cache_laws (exCacheOps (svExecutor sv)) contents \<and> plain_names bs \<and> kept contents bs sv io"

interpretation serving: step_invariant serve_step "serving_inv contents bs sv"
  by unfold_locales (auto simp: serve_step_def serving_inv_def intro: kept_request)

lemma series_run:
  "\<forall>(_, r) \<in> set reqs. CHR '':'' \<notin> set (qMethod r) \<Longrightarrow> serve_step\<^sup>*\<^sup>* io (serveSeries reqs io)"
proof (induction reqs arbitrary: io)
  case (Cons q reqs)
  obtain ck r where q: "q = (ck, r)" by (cases q)
  with Cons.prems have "serve_step io (snd (HandleS3Request ck r (io\<lparr>ioWriter := newWriter\<rparr>)))"
    unfolding serve_step_def by auto
  with Cons q show ?case by (auto intro: converse_rtranclp_into_rtranclp)
qed simp

lemma kept_series:
  assumes "cache_laws (exCacheOps (svExecutor sv)) contents" "plain_names bs" "kept contents bs sv io"
    "\<forall>(_, r) \<in> set reqs. CHR '':'' \<notin> set (qMethod r)"
  shows "kept contents bs sv (serveSeries reqs io)"
  using serving.run_inv [OF series_run [OF assms(4)]] assms(1-3) by (auto simp: serving_inv_def)

subsection \<open>What every decision has\<close>

lemma addClients_named:
  "addClients pl bs m = Inr m' \<Longrightarrow> k \<in> bID ` set bs \<or> map_of (mgClients m) k \<noteq> None \<Longrightarrow> map_of (mgClients m') k \<noteq> None"
proof (induction bs arbitrary: m)
  case (Cons b bs)
  from Cons.prems(1) obtain c where "addClients pl bs (m\<lparr>mgClients := AList.update (bID b) c (mgClients m)\<rparr>) = Inr m'"
    by (auto split: sum.split_asm)
  from Cons.IH [OF this] Cons.prems(2) show ?case by (auto simp: update_conv')
qed simp

lemma manager_named:
  assumes "NewManager pl cfg timeout = Inr mgr" "map_of (cfgBackends cfg) n = Some bc"
  shows "\<exists>c. GetClient mgr (bID bc) = Inr c"
proof -
  have "bc \<in> set (map snd (cfgBackends cfg))" using map_of_SomeD [OF assms(2)] by force
  with addClients_named assms(1) have "map_of (mgClients mgr) (bID bc) \<noteq> None"
    unfolding NewManager_def Let_def by blast
  then show ?thesis by (auto simp: GetClient_def)
qed

lemma lookup_valid:
  assumes "valid_config cfg" "fst (Match ops \<lparr>mBuckets = cfgBuckets cfg, mCache = None\<rparr> b k meth) = Inr d"
  shows "\<exists>n bc. dBackend d = Some bc \<and> map_of (cfgBackends cfg) n = Some bc"
proof -
  obtain bk where bk: "map_of (cfgBuckets cfg) b = Some bk" and d: "matchRoutes 0 (bkRoutes bk) k = Inr (Some d)"
    using assms(2) by (auto simp: Match_uncached split: option.split_asm sum.split_asm)
  have "valid_bucket (cfgBackends cfg) bk"
    using assms(1) map_of_SomeD [OF bk] by (auto simp: valid_config_def)
  with matchRoutes_Some [OF d] show ?thesis by (auto simp: valid_bucket_def Let_def)
qed

lemma startRouter_parts:
  assumes "startRouter lb env fl cfg = Inr (sv, adm)"
  obtains store mgr m where "sv = assembleServer lb cfg store mgr m" "adm = \<lparr>asBackend = mgr, asConfig = cfg\<rparr>"
    "NewManager (lbPlatform lb) cfg (flTimeout fl) = Inr mgr"
    "NewMatcher (lbCache lb) cfg (sRouteCacheSize (serverSettings cfg)) = Inr m"
  using assms by (auto simp: startRouter_def)

lemma started_kept:
  assumes "cache_laws (lbCache lb) contents" "startRouter lb env fl cfg = Inr (sv, adm)"
  shows "exCacheOps (svExecutor sv) = lbCache lb \<and>
    kept contents (cfgBuckets cfg) sv \<lparr>ioServer = sv, ioWriter = newWriter, ioWorld = w\<rparr>"
proof -
  obtain store mgr m where sv: "sv = assembleServer lb cfg store mgr m"
    and m: "NewMatcher (lbCache lb) cfg (sRouteCacheSize (serverSettings cfg)) = Inr m"
    using startRouter_parts [OF assms(2)] by metis
  have "sound contents (cfgBuckets cfg) m"
    using m assms(1) by (auto simp: NewMatcher_def cache_laws_def sound_def coherent_def split: if_splits sum.splits)
  moreover have "sv = serverWith sv m NewPrefixOptimizer"
    by (simp add: sv assembleServer_def serverWith_def SetMatcher_def listHandler_def)
  moreover have "exCacheOps (svExecutor sv) = lbCache lb"
    by (simp add: sv assembleServer_def SetMatcher_def NewExecutor_def)
  ultimately show ?thesis unfolding kept_def by (metis io.select_convs(1))
qed

text \<open>
  C5: a router that starts from a file has a valid configuration, and, if its bucket names have no
  colon, keeps serving it: after any series of requests its server has changed in its caches only, the
  executor still shares the server's matcher, every look-up is answered from the routes of the
  configuration, as a matcher without a cache would answer it, and every decision goes to a backend
  that has a client.
\<close>

theorem serving_keeps_configuration:
  assumes "cache_laws (lbCache lb) contents" "launch lb env fl = Inr (sv, adm)"
    "plain_names (cfgBuckets (asConfig adm))" "\<forall>(_, r) \<in> set reqs. CHR '':'' \<notin> set (qMethod r)"
  shows "valid_config (asConfig adm) \<and>
    (\<exists>m opt. ioServer (serveSeries reqs \<lparr>ioServer = sv, ioWriter = newWriter, ioWorld = w\<rparr>) =
       sv\<lparr>svMatcher := m, svExecutor := svExecutor sv\<lparr>exMatcher := Some m\<rparr>, svLists := svLists sv\<lparr>lhOptimizer := opt\<rparr>\<rparr> \<and>
     mBuckets m = cfgBuckets (asConfig adm) \<and>
     (\<forall>b k meth. CHR '':'' \<notin> set meth \<longrightarrow>
        fst (Match (lbCache lb) m b k meth) =
          fst (Match (lbCache lb) \<lparr>mBuckets = cfgBuckets (asConfig adm), mCache = None\<rparr> b k meth) \<and>
        (\<forall>d. fst (Match (lbCache lb) m b k meth) = Inr d \<longrightarrow>
           (\<exists>bc c. dBackend d = Some bc \<and> GetClient (asBackend adm) (bID bc) = Inr c))))"
proof -
  obtain ir cfg where cfg: "PopulateFromIR (enReadFile env) ir = Inr cfg"
    and start: "startRouter lb env fl cfg = Inr (sv, adm)"
    using assms(2) by (auto simp: launch_def LoadFromFile_def)
  note valid = populate_valid [OF cfg]
  obtain mgr where adm: "adm = \<lparr>asBackend = mgr, asConfig = cfg\<rparr>" "NewManager (lbPlatform lb) cfg (flTimeout fl) = Inr mgr"
    using startRouter_parts [OF start] by metis
  have "kept contents (cfgBuckets cfg) sv (serveSeries reqs \<lparr>ioServer = sv, ioWriter = newWriter, ioWorld = w\<rparr>)"
    using kept_series [of sv contents "cfgBuckets cfg"] started_kept [OF assms(1) start] assms(1,3,4) by (simp add: adm)
  then obtain m opt where m: "ioServer (serveSeries reqs \<lparr>ioServer = sv, ioWriter = newWriter, ioWorld = w\<rparr>) = serverWith sv m opt"
    "sound contents (cfgBuckets cfg) m" by (auto simp: kept_def)
  have eq: "fst (Match (lbCache lb) m b k meth) = fst (Match (lbCache lb) \<lparr>mBuckets = cfgBuckets cfg, mCache = None\<rparr> b k meth)"
    if "CHR '':'' \<notin> set meth" for b k meth
    using Match_sound [OF assms(1) _ that m(2), of b k] assms(3) by (metis adm(1) admin_server.select_convs(2) prod.collapse)
  have "\<exists>bc c. dBackend d = Some bc \<and> GetClient mgr (bID bc) = Inr c"
    if "CHR '':'' \<notin> set meth" "fst (Match (lbCache lb) m b k meth) = Inr d" for b k meth d
    using lookup_valid [OF valid] eq [OF that(1)] that(2) manager_named [OF adm(2)] by metis
  with eq m valid show ?thesis by (auto simp: adm(1) serverWith_def sound_def)
qed

definition sample_libraries :: "(nat, (string \<times> decision) list) libraries" where
  "sample_libraries = \<lparr>lbPlatform = dead_platform, lbXml = exXml (sample_executor []), lbMarshal = (\<lambda>_. ''<xml/>''),
     lbCache = one_entry_cache, lbOrder = rev,
     lbListing = (\<lambda>c. \<lparr>lcBucket = bBucket (bcConfig c), lcPrefix = bPrefix (bcConfig c), lcListObjectsV2 = (\<lambda>_. Inl ''timeout'')\<rparr>),
     lbSchedule = map Arrived, lbSortObjects = (\<lambda>x. x), lbSortItems = (\<lambda>x. x)\<rparr>"

definition sample_environment :: environment where
  "sample_environment =
     \<lparr>enReadFile = (\<lambda>p. if p = ''keys.json'' then Inr [(''AK'', \<lparr>SecretKey = ''sk'', Enabled = True, CreatedAt = []\<rparr>)]
        else Inl ''no such file''),
      enVariable = (\<lambda>_. ''otlp''), enFiles = \<lparr>flReadSettings = (\<lambda>_. Inr RawNil), flDecode = (\<lambda>_ _. Inr sample_ir)\<rparr>,
      enRaw = naming_library, enTelemetry = \<lparr>olNewTraces = (\<lambda>_. None), olNewMetrics = (\<lambda>_. None)\<rparr>\<rparr>"

lemma sample_launch:
  "\<exists>sv adm. launch sample_libraries sample_environment (defaultFlags\<lparr>flCredentials := ''keys.json''\<rparr>) = Inr (sv, adm) \<and>
    map fst (cfgBuckets (asConfig adm)) = [''media'']"
proof -
  have "case launch sample_libraries sample_environment (defaultFlags\<lparr>flCredentials := ''keys.json''\<rparr>) of
      Inr (sv, adm) \<Rightarrow> map fst (cfgBuckets (asConfig adm)) = [''media''] | Inl _ \<Rightarrow> False"
    by code_simp
  then show ?thesis by (auto split: sum.split_asm)
qed

theorem serving_keeps_configuration_witness:
  "\<exists>sv adm m. launch sample_libraries sample_environment (defaultFlags\<lparr>flCredentials := ''keys.json''\<rparr>) = Inr (sv, adm) \<and>
    svMatcher (ioServer (serveSeries [(clock_at 0, key_request), (clock_at 1, key_request)]
      \<lparr>ioServer = sv, ioWriter = newWriter, ioWorld = 0\<rparr>)) = m \<and>
    fst (Match one_entry_cache m ''media'' ''img/a'' ''GET'') =
      fst (Match one_entry_cache \<lparr>mBuckets = cfgBuckets (asConfig adm), mCache = None\<rparr> ''media'' ''img/a'' ''GET'')"
proof -
  obtain sv adm where s: "launch sample_libraries sample_environment (defaultFlags\<lparr>flCredentials := ''keys.json''\<rparr>) = Inr (sv, adm)"
    and b: "map fst (cfgBuckets (asConfig adm)) = [''media'']"
    using sample_launch by (elim exE conjE)
  have c: "lbCache sample_libraries = one_entry_cache" by (simp add: sample_libraries_def)
  have laws: "cache_laws (lbCache sample_libraries) map_of" using one_entry_cache_laws by (simp add: c)
  have names: "plain_names (cfgBuckets (asConfig adm))" using b by (auto simp: plain_names_def)
  have "\<forall>(_, r) \<in> set [(clock_at 0, key_request), (clock_at 1, key_request)]. CHR '':'' \<notin> set (qMethod r)"
    by (simp add: key_request_def plain_request_def sample_request_def)
  from serving_keeps_configuration [OF laws s names this, of 0] s show ?thesis by (fastforce simp: c)
qed

text \<open>
  The check of a route looks a key up as it is; a request is routed by its key as it is escaped in the path.
\<close>

lemma check_route_key:
  assumes "plParseURL pl s = Inr \<lparr>uScheme = ''s3'', uHost = ''media'', uPath = ''/a b'', uRawPath = [], uRawQuery = []\<rparr>"
    "uPath (qURL r) = ''/media/a b''" "uRawPath (qURL r) = []"
  shows "parseS3URL pl s = Inr (''media'', ''a b'') \<and> ParseS3PathWithChecker r None = Inr (''media'', ''a%20b'')"
proof
  have "TrimPrefix ''/a b'' ''/'' = ''a b''" by code_simp
  with assms(1) show "parseS3URL pl s = Inr (''media'', ''a b'')" by (simp add: parseS3URL_def)
  have "escape EncodePath ''a b'' = ''a%20b''" by code_simp
  with path_of_object [of r "''media''" "''a b''"] assms(2,3)
  show "ParseS3PathWithChecker r None = Inr (''media'', ''a%20b'')" by simp
qed

end
