(* ===== verification/Lifecycle.thy ===== *)
theory Lifecycle
  imports Invariant
begin

section \<open>Running and stopping\<close>

text \<open>
  The end of \<open>main\<close> in \<open>cmd/s3router/main.go\<close>: two servers run in goroutines of their own, and the
  program ends by a signal, stopping them, or by the failure of one.  A step is what one goroutine does
  while it holds the lock of the set of servers, or the choice the \<open>select\<close> makes.
\<close>

datatype server_name = AdminServer | MainServer

datatype stop_action = ShutdownOf server_name | CloseOf server_name

datatype phase = Starting | Waiting | Stopping "server_name list" | Deferred | Exited nat

record life =
  lfServers :: "server_name list"
  lfErrors :: "server_name list"
  lfSignal :: bool
  lfPhase :: phase
  lfActions :: "stop_action list"
  lfDeferred :: bool

definition life_init :: life where
  "life_init = \<lparr>lfServers = [AdminServer], lfErrors = [], lfSignal = False, lfPhase = Starting,
     lfActions = [], lfDeferred = False\<rparr>"

text \<open>
  Stopping a server: \<open>fails\<close> says that \<open>Shutdown\<close> did not finish in time, and the server is closed.
\<close>

definition stopServer :: "server_name \<Rightarrow> bool \<Rightarrow> stop_action list" where
  "stopServer n fails = (if fails then [ShutdownOf n, CloseOf n] else [ShutdownOf n])"

text \<open>
  The lock is held while the servers are stopped, so none is removed then; and the servers are taken in
  any order.  The deferred calls close the backends and the telemetry.
\<close>

inductive life_step :: "life \<Rightarrow> life \<Rightarrow> bool" where
  add_main: "lfPhase s = Starting \<Longrightarrow>
    life_step s (s\<lparr>lfServers := lfServers s @ [MainServer], lfPhase := Waiting\<rparr>)"
| server_fails: "n \<in> set (lfServers s) \<Longrightarrow> lfPhase s = Starting \<or> lfPhase s = Waiting \<Longrightarrow>
    life_step s (s\<lparr>lfServers := remove1 n (lfServers s), lfErrors := lfErrors s @ [n]\<rparr>)"
| signal: "life_step s (s\<lparr>lfSignal := True\<rparr>)"
| choose_signal: "lfPhase s = Waiting \<Longrightarrow> lfSignal s \<Longrightarrow> life_step s (s\<lparr>lfPhase := Stopping (lfServers s)\<rparr>)"
| choose_error: "lfPhase s = Waiting \<Longrightarrow> lfErrors s \<noteq> [] \<Longrightarrow> life_step s (s\<lparr>lfPhase := Exited 1\<rparr>)"
| stop: "lfPhase s = Stopping ns \<Longrightarrow> n \<in> set ns \<Longrightarrow>
    life_step s (s\<lparr>lfPhase := Stopping (remove1 n ns), lfActions := lfActions s @ stopServer n fails\<rparr>)"
| all_stopped: "lfPhase s = Stopping [] \<Longrightarrow> life_step s (s\<lparr>lfPhase := Deferred\<rparr>)"
| deferred: "lfPhase s = Deferred \<Longrightarrow> life_step s (s\<lparr>lfDeferred := True, lfPhase := Exited 0\<rparr>)"

definition life_reach :: "life \<Rightarrow> bool" where
  "life_reach s \<longleftrightarrow> life_step\<^sup>*\<^sup>* life_init s"

subsection \<open>The invariant\<close>

text \<open>The servers that were asked to shut down, in order.\<close>

definition shut :: "stop_action list \<Rightarrow> server_name list" where
  "shut acts = List.map_filter (\<lambda>a. case a of ShutdownOf n \<Rightarrow> Some n | CloseOf _ \<Rightarrow> None) acts"

lemma shut_append [simp]: "shut (xs @ ys) = shut xs @ shut ys"
  by (simp add: shut_def map_filter_def)

lemma shut_stop [simp]: "shut [] = []" "shut (stopServer n fails) = [n]"
  by (simp_all add: shut_def stopServer_def map_filter_def)

definition pending :: "phase \<Rightarrow> server_name list \<Rightarrow> server_name list" where
  "pending p servers =
     (case p of Starting \<Rightarrow> MainServer # servers | Waiting \<Rightarrow> servers | Stopping ns \<Rightarrow> ns | _ \<Rightarrow> [])"

lemma pending_simps [simp]:
  "pending Starting servers = MainServer # servers" "pending Waiting servers = servers"
  "pending (Stopping ns) servers = ns" "pending Deferred servers = []" "pending (Exited c) servers = []"
  by (simp_all add: pending_def)

text \<open>Every server is waiting to be stopped, or was shut down, or has failed: one of them, once.\<close>

definition accounts :: "life \<Rightarrow> server_name \<Rightarrow> nat" where
  "accounts s n =
     count_list (pending (lfPhase s) (lfServers s)) n + count_list (shut (lfActions s)) n + count_list (lfErrors s) n"

definition accounted :: "life \<Rightarrow> bool" where
  "accounted s \<longleftrightarrow> (lfPhase s \<noteq> Exited 1 \<longrightarrow> (\<forall>n. accounts s n = 1)) \<and>
     (lfPhase s = Starting \<or> lfPhase s = Waiting \<longrightarrow> lfActions s = []) \<and>
     (\<forall>c. lfPhase s = Exited (Suc c) \<longrightarrow> c = 0 \<and> lfErrors s \<noteq> [] \<and> lfActions s = []) \<and>
     (lfDeferred s \<longleftrightarrow> lfPhase s = Exited 0)"

lemma count_pos: "x \<in> set xs \<Longrightarrow> 0 < count_list xs x"
  by (induction xs) auto

lemma accounted_step: "life_step s t \<Longrightarrow> accounted s \<Longrightarrow> accounted t"
proof (induction rule: life_step.induct)
  case (add_main s)
  have "accounts (s\<lparr>lfServers := lfServers s @ [MainServer], lfPhase := Waiting\<rparr>) m = accounts s m" for m
    using add_main(1) by (simp add: accounts_def)
  with add_main show ?case unfolding accounted_def by auto
next
  case (server_fails n s)
  let ?t = "s\<lparr>lfServers := remove1 n (lfServers s), lfErrors := lfErrors s @ [n]\<rparr>"
  have "accounts ?t m = accounts s m" for m
    using server_fails(2) count_pos [OF server_fails(1)] by (cases "m = n") (auto simp: accounts_def)
  with server_fails(2,3) show ?case unfolding accounted_def by auto
next
  case (stop s ns n fails)
  let ?t = "s\<lparr>lfPhase := Stopping (remove1 n ns), lfActions := lfActions s @ stopServer n fails\<rparr>"
  have "accounts ?t m = accounts s m" for m
    using stop(1) count_pos [OF stop(2)] by (cases "m = n") (auto simp: accounts_def)
  with stop(1,3) show ?case unfolding accounted_def by auto
qed (auto simp: accounted_def accounts_def)

interpretation life: step_invariant life_step accounted
  by unfold_locales (rule accounted_step)

lemma accounted_reach: "life_reach s \<Longrightarrow> accounted s"
proof -
  have "accounts life_init n = 1" for n by (cases n) (simp_all add: accounts_def life_init_def)
  then have "accounted life_init" by (simp add: accounted_def life_init_def)
  then show "life_reach s \<Longrightarrow> accounted s" using life.run_inv by (simp add: life_reach_def)
qed

text \<open>
  C23: when the program ends well, each of the two servers was shut down once or had failed before, and the
  deferred calls have run; when it ends because a server failed, no server was shut down and no deferred
  call has run.
\<close>

theorem ends_accounted:
  assumes "life_reach s" "lfPhase s = Exited c"
  shows "if c = 0 then lfDeferred s \<and> (\<forall>n. count_list (shut (lfActions s)) n + count_list (lfErrors s) n = 1)
    else lfErrors s \<noteq> [] \<and> lfActions s = [] \<and> \<not> lfDeferred s"
proof -
  note a = accounted_reach [OF assms(1)]
  show ?thesis
  proof (cases c)
    case 0
    have "accounts s n = count_list (shut (lfActions s)) n + count_list (lfErrors s) n" for n
      using assms(2) by (simp add: accounts_def)
    with a assms(2) 0 show ?thesis by (simp add: accounted_def)
  qed (use a assms(2) in \<open>auto simp: accounted_def\<close>)
qed

definition sample_end :: life where
  "sample_end = \<lparr>lfServers = [MainServer], lfErrors = [AdminServer], lfSignal = True, lfPhase = Exited 0,
     lfActions = [ShutdownOf MainServer, CloseOf MainServer], lfDeferred = True\<rparr>"

text \<open>The administration server fails when a signal has just arrived; the other one has to be closed.\<close>

lemma reach_step: "life_reach s \<Longrightarrow> life_step s t \<Longrightarrow> life_reach t"
  by (simp add: life_reach_def)

lemma sample_end_reached: "life_reach sample_end"
proof -
  let ?s = "life_init\<lparr>lfServers := [AdminServer, MainServer], lfPhase := Waiting\<rparr>"
  have "life_step life_init ?s" using add_main [of life_init] by (simp add: life_init_def)
  then have 1: "life_reach ?s" by (simp add: life_reach_def)
  let ?s = "?s\<lparr>lfSignal := True\<rparr>"
  have 2: "life_reach ?s" using 1 signal by (rule reach_step)
  let ?s = "?s\<lparr>lfServers := [MainServer], lfErrors := [AdminServer]\<rparr>"
  have 3: "life_reach ?s"
    using reach_step [OF 2 server_fails [of AdminServer]] by (simp add: life_init_def)
  let ?s = "?s\<lparr>lfPhase := Stopping [MainServer]\<rparr>"
  have 4: "life_reach ?s" using reach_step [OF 3 choose_signal] by simp
  let ?s = "?s\<lparr>lfPhase := Stopping [], lfActions := [ShutdownOf MainServer, CloseOf MainServer]\<rparr>"
  have 5: "life_reach ?s"
    using reach_step [OF 4 stop [of _ "[MainServer]" MainServer True]] by (simp add: stopServer_def life_init_def)
  let ?s = "?s\<lparr>lfPhase := Deferred\<rparr>"
  have 6: "life_reach ?s" using reach_step [OF 5 all_stopped] by simp
  show ?thesis using reach_step [OF 6 deferred] by (simp add: sample_end_def life_init_def)
qed

theorem ends_accounted_witness:
  "lfDeferred sample_end \<and> (\<forall>n. count_list (shut (lfActions sample_end)) n + count_list (lfErrors sample_end) n = 1)"
  using ends_accounted [OF sample_end_reached, of 0] by (simp add: sample_end_def)

end
