(* ===== verification/Isolation.thy ===== *)
theory Isolation
  imports Startup
begin

section \<open>Buckets do not reach each other\<close>

text \<open>
  Which part of the world outside a request can change: what the clients of the backends that the routes
  of its bucket name can change, asked for keys behind their own prefix in their own physical bucket, and
  sent uploads to the URLs of such keys only.
  The world is described by an arbitrary invariant \<open>I\<close>; what every such call keeps, serving keeps.
\<close>

subsection \<open>What a client keeps\<close>

definition keeps_op :: "('w \<Rightarrow> bool) \<Rightarrow> ('i \<Rightarrow> bool) \<Rightarrow> ('w, 'i, 'o) s3_operation \<Rightarrow> bool" where
  "keeps_op I within operation \<longleftrightarrow> (\<forall>input w. within input \<and> I w \<longrightarrow> I (snd (operation input w)))"

text \<open>A key behind the prefix of the backend.\<close>

definition ownKey :: "'w backend_client \<Rightarrow> string \<Rightarrow> bool" where
  "ownKey c k \<longleftrightarrow> (\<exists>s. k = bPrefix (bcConfig c) @ s)"

definition own :: "'w backend_client \<Rightarrow> string \<Rightarrow> string \<Rightarrow> bool" where
  "own c b k \<longleftrightarrow> b = bBucket (bcConfig c) \<and> ownKey c k"

text \<open>
  An upload that is streamed over HTTP to an object of the backend: its URL and host are those of a PUT to
  what the endpoint resolver of the backend makes of its physical bucket and a key behind its prefix, with
  the query of a part or without one.
\<close>

definition ownTarget :: "'w platform \<Rightarrow> 'w backend_client \<Rightarrow> request \<Rightarrow> bool" where
  "ownTarget pl c r \<longleftrightarrow>
     (\<exists>p re u req uploadID partNumber.
        epBucket p = bBucket (bcConfig c) \<and> ownKey c (epKey p) \<and>
        ResolveEndpointURL (plParseURL pl) (bcResolver c) p = Inr re \<and>
        (u = reURL re \<or> u = (reURL re)\<lparr>uRawQuery := partQuery uploadID partNumber\<rparr>) \<and>
        newPutRequest pl u = Inr req \<and> qMethod r = ''PUT'' \<and> qURL r = qURL req \<and> qHost r = qHost req)"

definition keeps :: "('w \<Rightarrow> bool) \<Rightarrow> 'w platform \<Rightarrow> 'w backend_client \<Rightarrow> bool" where
  "keeps I pl c \<longleftrightarrow>
     (let ops = bcOperations c in
      keeps_op I (\<lambda>i. own c (giBucket i) (giKey i)) (opGetObject ops) \<and>
      keeps_op I (\<lambda>i. own c (hiBucket i) (hiKey i)) (opHeadObject ops) \<and>
      keeps_op I (\<lambda>i. own c (piBucket i) (piKey i)) (opPutObject ops) \<and>
      keeps_op I (\<lambda>i. own c (oiBucket i) (oiKey i)) (opDeleteObject ops) \<and>
      keeps_op I (\<lambda>i. diBucket i = bBucket (bcConfig c) \<and> list_all (ownKey c) (diKeys i)) (opDeleteObjects ops) \<and>
      keeps_op I (\<lambda>i. own c (oiBucket i) (oiKey i)) (opDeleteObjectTagging ops) \<and>
      keeps_op I (\<lambda>i. own c (oiBucket i) (oiKey i)) (opGetObjectTagging ops) \<and>
      keeps_op I (\<lambda>i. own c (ptBucket i) (ptKey i)) (opPutObjectTagging ops) \<and>
      keeps_op I (\<lambda>i. own c (cuBucket i) (cuKey i)) (opCreateMultipartUpload ops) \<and>
      keeps_op I (\<lambda>i. own c (upBucket i) (upKey i)) (opUploadPart ops) \<and>
      keeps_op I (\<lambda>i. own c (cpBucket i) (cpKey i)) (opCompleteMultipartUpload ops) \<and>
      keeps_op I (\<lambda>i. own c (abBucket i) (abKey i)) (opAbortMultipartUpload ops) \<and>
      keeps_op I (\<lambda>i. own c (lpBucket i) (lpKey i)) (opListParts ops) \<and>
      keeps_op I (\<lambda>i. own c (coBucket i) (coKey i)) (opCopyObject ops) \<and>
      keeps_op I (\<lambda>i. own c (oiBucket i) (oiKey i)) (opGetObjectAcl ops) \<and>
      keeps_op I (\<lambda>i. own c (paBucket i) (paKey i)) (opPutObjectAcl ops) \<and>
      (\<forall>u w. ownTarget pl c (urRequest u) \<and> I w \<longrightarrow> I (snd (bcDo c u w))))"

text \<open>
  A client that is confined: what it does keeps the invariant, and its prefix has no escapes, which the
  router would decode together with the key.
\<close>

definition confined :: "('w \<Rightarrow> bool) \<Rightarrow> 'w platform \<Rightarrow> 'w backend_client \<Rightarrow> bool" where
  "confined I pl c \<longleftrightarrow> keeps I pl c \<and> CHR ''%'' \<notin> set (bPrefix (bcConfig c))"

lemma own_final: "ownKey c (finalKeyOf c d)"
  by (simp add: ownKey_def finalKeyOf_def)

lemma own_object: "confined I pl c \<Longrightarrow> ownKey c (objectKeyOf c d)"
  by (auto simp: confined_def ownKey_def objectKeyOf_def finalKeyOf_def conservativePathUnescape_plain)

text \<open>
  Escapes in the prefix are decoded for the operations on objects, and not for tagging, batch deletes and
  listings.
\<close>

lemma escaped_prefix_decoded:
  assumes "bPrefix (bcConfig c) = ''100%25/''" "dRewrittenKey d = ''a''"
  shows "objectKeyOf c d = ''100%/a'' \<and> finalKeyOf c d = ''100%25/a''"
proof -
  have "conservativePathUnescape ''100%25/a'' = ''100%/a''" by code_simp
  with assms show ?thesis by (simp add: objectKeyOf_def finalKeyOf_def)
qed

lemma keeps_do: "confined I pl c \<Longrightarrow> ownTarget pl c (urRequest u) \<Longrightarrow> I w \<Longrightarrow> bcDo c u w = (r, w1) \<Longrightarrow> I w1"
  unfolding confined_def keeps_def Let_def by (metis snd_conv)

lemmas keeps_defs = confined_def keeps_def keeps_op_def own_def Let_def

subsection \<open>Operations on one object\<close>

lemma object_operations_keep:
  assumes "confined I pl c" "I w"
  shows "I (snd (executeGetObject c rc d w))" "I (snd (executeHeadObject c rc d w))"
    "I (snd (executeDeleteObject c rc d w))" "I (snd (executeDeleteObjectTagging c rc d w))"
    "I (snd (executeGetObjectTagging c rc d w))" "I (snd (executeGetObjectAcl c rc d w))"
    "I (snd (executePutObjectAcl c rc d w))" "I (snd (executeCreateMultipartUpload c rc d w))"
    "I (snd (executeAbortMultipartUpload c rc d w))" "I (snd (executeListParts c rc d w))"
  using assms own_object [OF assms(1)] own_final [of c]
  by (simp_all add: executeGetObject_def executeHeadObject_def executeDeleteObject_def executeDeleteObjectTagging_def
      executeGetObjectTagging_def executeGetObjectAcl_def executePutObjectAcl_def executeCreateMultipartUpload_def
      executeAbortMultipartUpload_def executeListParts_def callBackend_world keeps_defs)

lemma body_operations_keep:
  assumes "confined I pl c" "I w"
  shows "I (snd (defaultPutObject c rc d w))" "I (snd (executePutObjectTagging xml c rc d w))"
    "I (snd (executeCompleteMultipartUpload xml c rc d w))" "I (snd (bufferedUploadPart c rc d u p w))"
  using assms own_object [OF assms(1)]
  by (auto simp: defaultPutObject_def executePutObjectTagging_def executeCompleteMultipartUpload_def
      bufferedUploadPart_def callBackend_world keeps_defs split: sum.split fault.split)

text \<open>The request of an upload is one to the object, and copying headers and signing leave its target as it is.\<close>

lemma ownTarget_cong:
  "qMethod r' = qMethod r \<Longrightarrow> qURL r' = qURL r \<Longrightarrow> qHost r' = qHost r \<Longrightarrow> ownTarget pl c r' = ownTarget pl c r"
  by (simp add: ownTarget_def)

lemma upstreamRequest_own:
  assumes "upstreamRequest pl c (finalKeyOf c d) msg query = Inr req" "query = None \<or> query = Some (partQuery uploadID partNumber)"
  shows "ownTarget pl c req"
proof -
  let ?p = "endpointParams c (finalKeyOf c d)"
  from assms(1) obtain re where re: "ResolveEndpointURL (plParseURL pl) (bcResolver c) ?p = Inr re"
    by (auto simp: upstreamRequest_def split: sum.split_asm fault.split_asm)
  let ?u = "case query of None \<Rightarrow> reURL re | Some q \<Rightarrow> (reURL re)\<lparr>uRawQuery := q\<rparr>"
  from assms(1) re obtain req0 where req: "newPutRequest pl ?u = Inr req0" "req = applyEndpointHeaders (reHeaders re) req0"
    by (auto simp: upstreamRequest_def Let_def split: sum.split_asm)
  have "epBucket ?p = bBucket (bcConfig c)" "ownKey c (epKey ?p)"
    using own_final by (simp_all add: endpointParams_def)
  moreover have "qMethod req = ''PUT''" "qURL req = qURL req0" "qHost req = qHost req0"
    using req by (auto simp: newPutRequest_def Let_def applyEndpointHeaders_def split: sum.split_asm)
  moreover have "?u = reURL re \<or> ?u = (reURL re)\<lparr>uRawQuery := partQuery uploadID partNumber\<rparr>" using assms(2) by auto
  ultimately show ?thesis unfolding ownTarget_def using re req(1) by blast
qed

lemma copied_target:
  "ownTarget pl c (copyPutObjectHeaders req rc) = ownTarget pl c req"
  "ownTarget pl c (copyUploadPartHeaders req rc) = ownTarget pl c req"
  "ownTarget pl c (copyAwsChunkedHeaders req rc) = ownTarget pl c req"
  "ownTarget pl c (chunkedHeaders l n req) = ownTarget pl c req"
  by (rule ownTarget_cong; simp add: copyPutObjectHeaders_def copyUploadPartHeaders_def copyAwsChunkedHeaders_def
      chunkedHeaders_def copyContentLength_def Let_def split: option.split)+

lemma sendStream_keeps:
  assumes "confined I pl c" "ownTarget pl c req" "I w"
  shows "I (snd (sendStream pl now c rc req w))"
proof -
  have "ownTarget pl c sreq"
    if "SignStreamingRequest (getCredentials (plCred pl) (bcCreds c)) (bcRegion c) now req (payloadHashOf rc) = Inr sreq" for sreq
    using that assms(2) SignRequest_keeps ownTarget_cong [of sreq req pl c]
    by (fastforce simp: SignStreamingRequest_def split: sum.split_asm option.split_asm)
  then show ?thesis using assms(1,3)
    by (auto simp: sendStream_def dest: keeps_do [rotated 3] split: sum.split fault.split prod.split)
qed

lemma sendReEncoded_keeps:
  assumes "confined I pl c" "ownTarget pl c req" "I w"
  shows "I (snd (sendReEncoded pl now c rc req w))"
proof -
  have "I (snd (upstreamAnswer (bcDo c u w)))" if "ownTarget pl c (urRequest u)" for u
    using assms(1,3) that by (auto simp: upstreamAnswer_def dest: keeps_do [rotated 3] split: sum.split prod.split)
  moreover have "ownTarget pl c sreq" if "qURL sreq = qURL req \<and> qMethod sreq = qMethod req \<and> qHost sreq = qHost req" for sreq
    using that assms(2) ownTarget_cong [of sreq req pl c] by simp
  ultimately show ?thesis using sendReEncoded_cases [of pl now c rc req w] assms(3) by fastforce
qed

lemma streaming_keeps:
  assumes "confined I pl c" "I w"
  shows "I (snd (streamingPutObject pl now c rc d w))" "I (snd (streamingUploadPart pl now c rc d u p w))"
    "I (snd (streamingAwsChunkedPutObject pl now c rc d w))" "I (snd (streamingAwsChunkedUploadPart pl now c rc d u p w))"
proof -
  have own: "ownTarget pl c req" if "upstreamRequest pl c (finalKeyOf c d) msg None = Inr req" for msg req
    using upstreamRequest_own [OF that] by simp
  have part: "ownTarget pl c req" if "upstreamRequest pl c (finalKeyOf c d) msg (Some (partQuery u p)) = Inr req" for msg req
    using upstreamRequest_own [OF that] by simp
  note keep = sendStream_keeps [OF assms(1) _ assms(2)] sendReEncoded_keeps [OF assms(1) _ assms(2)]
  show "I (snd (streamingPutObject pl now c rc d w))" "I (snd (streamingUploadPart pl now c rc d u p w))"
    "I (snd (streamingAwsChunkedPutObject pl now c rc d w))" "I (snd (streamingAwsChunkedUploadPart pl now c rc d u p w))"
    using assms(2) own part
    by (auto simp: streamingPutObject_def streamingUploadPart_def streamingAwsChunkedPutObject_def copied_target
        streamingAwsChunkedUploadPart_def Let_def intro!: keep split: sum.split option.split)
qed

lemma executeUploadPart_keeps:
  assumes "confined I pl c" "I w"
  shows "I (snd (executeUploadPart pl now c rc d w))"
  using assms(2) streaming_keeps [OF assms] body_operations_keep [OF assms]
  by (simp add: executeUploadPart_def Let_def streamed_def)

subsection \<open>The backends of a bucket\<close>

definition bucketBackends :: "(string \<times> bucket_config) list \<Rightarrow> string \<Rightarrow> string set" where
  "bucketBackends bs b =
     (case map_of bs b of
        None \<Rightarrow> {}
      | Some bk \<Rightarrow> bID ` set (List.map_filter rtBackend (bkRoutes bk)))"

text \<open>Every client of these backends is confined.\<close>

definition owned :: "('w \<Rightarrow> bool) \<Rightarrow> 'w platform \<Rightarrow> 'w manager \<Rightarrow> string set \<Rightarrow> bool" where
  "owned I pl mgr ids \<longleftrightarrow> (\<forall>i \<in> ids. \<forall>c. GetClient mgr i = Inr c \<longrightarrow> confined I pl c)"

lemma lookup_backend:
  assumes "cache_laws ops contents" "plain_names bs" "CHR '':'' \<notin> set meth" "sound contents bs m"
    "Match ops m b k meth = (Inr d, m')" "dBackend d = Some bc"
  shows "bID bc \<in> bucketBackends bs b"
proof -
  have "fst (Match ops \<lparr>mBuckets = bs, mCache = None\<rparr> b k meth) = Inr d"
    using Match_sound [OF assms(1-5)] by simp
  then obtain bk where bk: "map_of bs b = Some bk" and d: "matchRoutes 0 (bkRoutes bk) k = Inr (Some d)"
    by (auto simp: Match_uncached split: option.split_asm sum.split_asm)
  let ?rt = "bkRoutes bk ! dRouteIndex d"
  have "?rt \<in> set (bkRoutes bk)" "rtBackend ?rt = Some bc"
    using matchRoutes_Some [OF d] assms(6) by (auto simp: Let_def)
  with bk show ?thesis by (force simp: bucketBackends_def map_filter_def)
qed

text \<open>What is known while a request of bucket \<open>b\<close> is executed: the client is the one of the decision.\<close>

definition executing ::
  "('c \<Rightarrow> string \<rightharpoonup> decision) \<Rightarrow> (string \<times> bucket_config) list \<Rightarrow> ('w \<Rightarrow> bool) \<Rightarrow> ('w, 'c) executor \<Rightarrow>
     request_context \<Rightarrow> decision \<Rightarrow> 'w backend_client \<Rightarrow> bool" where
  "executing contents bs I ex rc d c \<longleftrightarrow>
     cache_laws (exCacheOps ex) contents \<and> plain_names bs \<and>
     owned I (exPlatform ex) (exManager ex) (bucketBackends bs (rcBucket rc)) \<and> confined I (exPlatform ex) c \<and>
     (\<forall>ids. set (exOrder ex ids) \<subseteq> set ids) \<and>
     (\<exists>b. dBackend d = Some b \<and> GetClient (exManager ex) (bID b) = Inr c)"

lemma mapKey_owned:
  assumes "executing contents bs I ex rc d c" "sound contents bs m" "mapKey ex c rc d k m = (Inr km, m')"
  shows "\<exists>c'. GetClient (exManager ex) (kmBackendID km) = Inr c' \<and> confined I (exPlatform ex) c' \<and> ownKey c' (kmPhysicalKey km)"
proof -
  note ex = assms(1) [unfolded executing_def]
  obtain r m1 where r: "Match (exCacheOps ex) m (rcBucket rc) k ''DELETE'' = (r, m1)" by fastforce
  have "confined I (exPlatform ex) c'" if "r = Inr kd" "dBackend kd = Some b" "GetClient (exManager ex) (bID b) = Inr c'" for kd b c'
  proof -
    have "bID b \<in> bucketBackends bs (rcBucket rc)"
      by (rule lookup_backend [of "exCacheOps ex" contents bs "''DELETE''" m _ k kd m1]) (use ex assms(2) r that in auto)
    with ex that(3) show ?thesis by (auto simp: owned_def)
  qed
  with ex r assms(3) show ?thesis
    by (auto simp: mapKey_def Let_def ownKey_def split: sum.split_asm fault.split_asm option.split_asm)
qed

lemma mapKeys_owned:
  assumes "executing contents bs I ex rc d c"
  shows "sound contents bs m \<Longrightarrow> mapKeys ex c rc d ks m = (Inr kms, m') \<Longrightarrow>
    \<forall>km \<in> set kms. \<exists>c'. GetClient (exManager ex) (kmBackendID km) = Inr c' \<and> confined I (exPlatform ex) c' \<and> ownKey c' (kmPhysicalKey km)"
proof (induction ks arbitrary: m kms m')
  case (Cons k ks)
  from Cons.prems(2) obtain km m1 kms1 where k: "mapKey ex c rc d k m = (Inr km, m1)"
    and ks: "mapKeys ex c rc d ks m1 = (Inr kms1, m')" and kms: "kms = km # kms1"
    by (auto split: prod.split_asm sum.split_asm)
  have "sound contents bs m1"
    using mapKey_sound [OF _ _ Cons.prems(1) k] assms by (simp add: executing_def)
  with Cons.IH [OF this ks] mapKey_owned [OF assms Cons.prems(1) k] kms show ?case by simp
qed simp

lemma deleteGroups_keep:
  assumes "\<forall>(b, kms) \<in> set gs. \<forall>c. GetClient (exManager ex) b = Inr c \<longrightarrow>
      confined I pl c \<and> list_all (ownKey c) (map kmPhysicalKey kms)"
  shows "I w \<Longrightarrow> I (snd (deleteGroups ex gs w))"
  using assms
proof (induction gs arbitrary: w)
  case (Cons g gs)
  obtain b kms where g: "g = (b, kms)" by (cases g)
  show ?case
  proof (cases "GetClient (exManager ex) b")
    case (Inr c)
    let ?r = "opDeleteObjects (bcOperations c) (deleteInput c (map kmPhysicalKey kms)) w"
    have "I (snd ?r)" using Cons.prems g Inr by (auto simp: keeps_defs deleteInput_def)
    moreover have "I (snd (deleteGroups ex gs v))" if "I v" for v using Cons.IH [OF that] Cons.prems(2) by simp
    ultimately show ?thesis
      by (auto simp: g Inr split: prod.split sum.split fault.split option.split) (metis snd_conv)+
  qed (use Cons g in simp)
qed simp

lemma executeDeleteObjects_keeps:
  assumes "executing contents bs I ex rc d c" "exMatcher ex = None \<or> sound_opt contents bs (exMatcher ex)" "I w"
  shows "I (snd (fst (executeDeleteObjects ex c rc d w)))"
proof -
  have c: "confined I (exPlatform ex) c" using assms(1) by (simp add: executing_def)
  have single: "I (snd (executeDeleteObjectsSingleBackend c d ks w))" for ks
  proof -
    have "list_all (ownKey c) (map (\<lambda>k. if dRewrittenKey d = [] then bPrefix (bcConfig c) @ k else objectKeyOf c d) ks)"
      using own_object [OF c] by (auto simp: list_all_iff ownKey_def)
    with c assms(3) show ?thesis
      by (simp add: executeDeleteObjectsSingleBackend_def callBackend_world keeps_defs deleteInput_def)
  qed
  have groups: "I (snd (deleteGroups ex (orderedGroups ex (groupKeys kms)) w))"
    if "mapKeys ex c rc d ks m = (Inr kms, m1)" "exMatcher ex = Some m" for m ks kms m1
  proof -
    have "sound contents bs m" using assms(2) that(2) by (auto simp: sound_opt_def)
    note km = mapKeys_owned [OF assms(1) this that(1)]
    have "confined I (exPlatform ex) c' \<and> list_all (ownKey c') (map kmPhysicalKey l)"
      if g: "(b, l) \<in> set (orderedGroups ex (groupKeys kms))" and c': "GetClient (exManager ex) b = Inr c'" for b l c'
    proof -
      have "set (exOrder ex (map fst (groupKeys kms))) \<subseteq> kmBackendID ` set kms"
        using assms(1) groupKeys_keys [of kms] unfolding executing_def by metis
      with g have "b \<in> kmBackendID ` set kms" by (auto simp: orderedGroups_def)
      moreover have "l = filter (\<lambda>km. kmBackendID km = b) kms"
        using g by (auto simp: orderedGroups_def groupKeys_lookup Let_def)
      ultimately show ?thesis using km c' by (auto simp: list_all_iff)
    qed
    then have "\<forall>(b, l) \<in> set (orderedGroups ex (groupKeys kms)). \<forall>c'. GetClient (exManager ex) b = Inr c' \<longrightarrow>
        confined I (exPlatform ex) c' \<and> list_all (ownKey c') (map kmPhysicalKey l)" by blast
    from deleteGroups_keep [where I = I and w = w, OF this assms(3)] show ?thesis .
  qed
  show ?thesis
    using single groups assms(3)
    by (auto simp: executeDeleteObjects_def Let_def split: option.split sum.split prod.split) (metis snd_conv)+
qed

lemma executeCopyObject_keeps:
  assumes "confined I pl c" "I w"
  shows "I (snd (fst (executeCopyObject ex c rc d cs w)))"
  using assms own_final [of c d]
  by (auto simp: executeCopyObject_def Let_def callBackend_world keeps_defs split: sum.split prod.split)

lemma ExecuteRequest_keeps:
  assumes "cache_laws (exCacheOps ex) contents" "plain_names bs"
    "exMatcher ex = None \<or> sound_opt contents bs (exMatcher ex)"
    "owned I (exPlatform ex) (exManager ex) (bucketBackends bs (rcBucket rc))"
    "\<forall>b. dBackend d = Some b \<longrightarrow> bID b \<in> bucketBackends bs (rcBucket rc)" "I w"
    "\<forall>ids. set (exOrder ex ids) \<subseteq> set ids"
  shows "I (snd (fst (ExecuteRequest ex now rc d w)))"
proof (cases "dBackend d")
  case (Some b)
  show ?thesis
  proof (cases "GetClient (exManager ex) (bID b)")
    case (Inr c)
    then have c: "confined I (exPlatform ex) c" using assms(4,5) Some by (auto simp: owned_def)
    then have ex: "executing contents bs I ex rc d c" using assms Some Inr by (simp add: executing_def)
    have put: "I (snd (fst (executePutObject ex now c rc d w)))"
      using streaming_keeps [OF c assms(6)] body_operations_keep [OF c assms(6)]
      by (simp add: executePutObject_def Let_def streamed_def executeCopyObject_keeps [OF c assms(6)])
    have post: "I (snd (fst (executePost ex c rc d w)))"
      using executeDeleteObjects_keeps [OF ex assms(3,6)] object_operations_keep [OF c assms(6)]
        body_operations_keep [OF c assms(6)] assms(6)
      by (simp add: executePost_def)
    show ?thesis
      using put post executeUploadPart_keeps [OF c assms(6)] object_operations_keep [OF c assms(6)]
        body_operations_keep [OF c assms(6)] assms(6)
      by (simp add: ExecuteRequest_def Let_def Some Inr executeListObjectsV2_def)
  qed (use assms(6) Some in \<open>simp add: ExecuteRequest_def Let_def\<close>)
qed (use assms(6) in \<open>simp add: ExecuteRequest_def Let_def\<close>)

subsection \<open>Requests\<close>

lemma executeProxy_world:
  "ioWorld (snd (executeProxy ck rc d io)) = snd (fst (ExecuteRequest (svExecutor (ioServer io)) (ckSign ck) rc d (ioWorld io)))"
  by (auto simp: executeProxy_def Let_def split: prod.split sum.split fault.split option.split)

lemma onWriter_world [simp]: "ioWorld (onWriter f io) = ioWorld io"
  by (simp add: onWriter_def)

text \<open>One request, at a server that a started router has become.\<close>

lemma request_keeps:
  assumes "cache_laws (exCacheOps (svExecutor sv)) contents" "plain_names bs" "kept contents bs sv io"
    "CHR '':'' \<notin> set (qMethod r)"
    "\<forall>b k. ParseS3PathWithChecker (limitRequest sv r) (svVirtualHosts sv) = Inr (b, k) \<longrightarrow>
       owned I (exPlatform (svExecutor sv)) (exManager (svExecutor sv)) (bucketBackends bs b)" "I (ioWorld io)"
    "\<forall>ids. set (exOrder (svExecutor sv) ids) \<subseteq> set ids"
  shows "I (ioWorld (snd (HandleS3Request ck r io)))"
proof -
  obtain m opt where sv: "ioServer io = serverWith sv m opt" and m: "sound contents bs m"
    using assms(3) by (auto simp: kept_def)
  let ?r = "limitRequest sv r"
  have lim: "limitRequest (ioServer io) r = ?r" "svVirtualHosts (ioServer io) = svVirtualHosts sv"
    by (simp_all add: sv limitRequest_def serverWith_def)
  have bucket: "ioWorld (snd h) = ioWorld io" if "handleBucketOperations ck ?r b k io = Some h" for b k h
    using that by (auto simp: handleBucketOperations_def Let_def split: if_split_asm sum.split_asm fault.split_asm)
  have listing: "ioWorld (snd (handleListing ck ?r b params doc io)) = ioWorld io" for b params doc
    by (auto simp: handleListing_def Let_def split: sum.split fault.split prod.split)
  have object: "I (ioWorld (snd (handleObjectOperation ck ?r b k op io)))"
    if p: "ParseS3PathWithChecker ?r (svVirtualHosts sv) = Inr (b, k)" for b k op
  proof (cases "authenticate (svVerifier sv) (ckVerify ck) ?r")
    case (Inl e)
    with assms(6) show ?thesis by (cases e) (simp_all add: handleObjectOperation_def Let_def sv)
  next
    case (Inr cr)
    obtain ctx r1 where cr: "cr = (ctx, r1)" by (cases cr)
    have "qMethod r1 = qMethod ?r"
      using Inr cr VerifyRequest_keeps by (auto simp: authenticate_def split: prod.split_asm option.split_asm if_split_asm)
    then have meth: "CHR '':'' \<notin> set (qMethod r1)" using assms(4) by (simp add: limitRequest_keeps)
    obtain x m1 where x: "Match (exCacheOps (svExecutor sv)) m b k (qMethod r1) = (x, m1)" by fastforce
    have m1: "sound contents bs m1" using Match_sound [OF assms(1,2) meth m x] by simp
    have "I (ioWorld (snd (executeProxy ck (requestContext ck r1 ctx b k op) d (withMatcher m1 io))))" if "x = Inr d" for d
    proof -
      let ?ex = "svExecutor (ioServer (withMatcher m1 io))"
      have ex: "?ex = svExecutor sv\<lparr>exMatcher := Some m1\<rparr>"
        by (simp add: withMatcher_def Let_def sv serverWith_def)
      have "bID bc \<in> bucketBackends bs b" if "dBackend d = Some bc" for bc
        by (rule lookup_backend [OF assms(1,2) meth m _ that]) (use x \<open>x = Inr d\<close> in simp)
      note own = this
      show ?thesis
        unfolding executeProxy_world ex
        by (rule ExecuteRequest_keeps [where I = I and contents = contents and bs = bs]) (use assms(1,2,5-7) m1 p own in \<open>simp_all add: requestContext_def sound_opt_def\<close>)
    qed
    then show ?thesis
      using assms(6) Inr cr x by (auto simp: handleObjectOperation_def Let_def sv split: sum.split fault.split)
  qed
  show ?thesis
  proof (cases "ParseS3PathWithChecker ?r (svVirtualHosts sv)")
    case (Inr bk)
    obtain b k where bk: "bk = (b, k)" by (cases bk)
    have "I (ioWorld (snd (handleObjectOperations ck ?r b k io)))"
      using object listing Inr bk assms(6)
      by (simp add: handleObjectOperations_def handleListObjects_def handleListObjectsV2_def Let_def)
    then show ?thesis
      using bucket Inr bk assms(6)
      by (auto simp: HandleS3Request_def Let_def lim finish_world split: option.split)
  qed (use assms(6) in \<open>simp add: HandleS3Request_def Let_def lim\<close>)
qed

lemma series_keeps:
  assumes "cache_laws (exCacheOps (svExecutor sv)) contents" "plain_names bs"
    "\<forall>ids. set (exOrder (svExecutor sv) ids) \<subseteq> set ids"
  shows "kept contents bs sv io \<Longrightarrow> \<forall>(_, r) \<in> set reqs. CHR '':'' \<notin> set (qMethod r) \<and>
      (\<forall>b k. ParseS3PathWithChecker (limitRequest sv r) (svVirtualHosts sv) = Inr (b, k) \<longrightarrow>
         owned I (exPlatform (svExecutor sv)) (exManager (svExecutor sv)) (bucketBackends bs b)) \<Longrightarrow>
    I (ioWorld io) \<Longrightarrow> I (ioWorld (serveSeries reqs io))"
proof (induction reqs arbitrary: io)
  case (Cons q reqs)
  obtain ck r where q: "q = (ck, r)" by (cases q)
  let ?io = "io\<lparr>ioWriter := newWriter\<rparr>"
  have "kept contents bs sv (snd (HandleS3Request ck r ?io))"
    using kept_request [OF assms(1,2), of ?io r ck] Cons.prems q by simp
  moreover have "I (ioWorld (snd (HandleS3Request ck r ?io)))"
    by (rule request_keeps [where I = I and contents = contents and bs = bs and sv = sv])
      (use assms Cons.prems q in auto)
  ultimately show ?case using Cons.IH Cons.prems(2) q by simp
qed simp

text \<open>
  C4: buckets are isolated.  Whatever requests a router that was started from a file serves, accepted or not,
  uploads, copies and batch deletes included, they change no more of the world than the backends of the
  routes of the requested buckets would when each of them is asked for keys behind its own prefix in its own
  physical bucket, and sent uploads by PUT to the URLs its endpoint resolver makes of such keys and that
  bucket: a statement about the world that all this keeps is kept by serving.  What a copy reads is not
  confined.  The conditions: no prefix of these backends has a percent sign, as the prefix is decoded with
  the key then; no bucket name of the configuration and no method has a colon, with which the cache could
  answer with a route of another bucket.
\<close>

theorem buckets_isolated:
  assumes "cache_laws (lbCache lb) contents" "\<forall>ids. mset (lbOrder lb ids) = mset ids"
    "launch lb env fl = Inr (sv, adm)" "plain_names (cfgBuckets (asConfig adm))"
    "\<forall>(_, r) \<in> set reqs. CHR '':'' \<notin> set (qMethod r) \<and>
       (\<forall>b k. ParseS3PathWithChecker (limitRequest sv r) (svVirtualHosts sv) = Inr (b, k) \<longrightarrow>
          owned I (lbPlatform lb) (asBackend adm) (bucketBackends (cfgBuckets (asConfig adm)) b))"
    "I w"
  shows "I (ioWorld (serveSeries reqs \<lparr>ioServer = sv, ioWriter = newWriter, ioWorld = w\<rparr>))"
proof -
  obtain cfg where start: "startRouter lb env fl cfg = Inr (sv, adm)"
    using assms(3) by (auto simp: launch_def)
  obtain store mgr m where parts: "sv = assembleServer lb cfg store mgr m" "adm = \<lparr>asBackend = mgr, asConfig = cfg\<rparr>"
    using startRouter_parts [OF start] by metis
  have ex: "exOrder (svExecutor sv) = lbOrder lb" "exManager (svExecutor sv) = asBackend adm" "asConfig adm = cfg"
    "exPlatform (svExecutor sv) = lbPlatform lb"
    by (simp_all add: parts assembleServer_def SetMatcher_def NewExecutor_def)
  note kept = started_kept [OF assms(1) start]
  show ?thesis
    by (rule series_keeps [where I = I and contents = contents and bs = "cfgBuckets cfg" and sv = sv])
      (use assms kept [of w] ex in \<open>auto dest: mset_eq_setD\<close>)
qed

text \<open>
  The clients of the sample platform, whose backends fail and whose world counts the calls: it never
  counts back.
\<close>

definition dead_clients :: "string list \<Rightarrow> nat manager \<Rightarrow> bool" where
  "dead_clients ps m \<longleftrightarrow>
     (\<forall>k c. map_of (mgClients m) k = Some c \<longrightarrow> bPrefix (bcConfig c) \<in> set ps \<and>
        bcOperations c = NewCircuitBreakerS3Operations failing_operations third_call_breaker \<and>
        bcDo c = (\<lambda>u n. (Inl ''timeout'', Suc n)))"

lemma addClients_dead:
  "addClients dead_platform bs m = Inr m' \<Longrightarrow> dead_clients ps m \<Longrightarrow> set (map bPrefix bs) \<subseteq> set ps \<Longrightarrow> dead_clients ps m'"
proof (induction bs arbitrary: m)
  case (Cons b bs)
  then obtain c where c: "createBackendClient dead_platform m (bID b) b = Inr c"
    and r: "addClients dead_platform bs (m\<lparr>mgClients := AList.update (bID b) c (mgClients m)\<rparr>) = Inr m'"
    by (auto split: sum.split_asm)
  have "bcConfig c = b \<and> bcOperations c = NewCircuitBreakerS3Operations failing_operations third_call_breaker \<and>
      bcDo c = (\<lambda>u n. (Inl ''timeout'', Suc n))"
    using c by (auto simp: createBackendClient_def Let_def dead_platform_def split: sum.split_asm if_split_asm option.split_asm)
  then have "dead_clients ps (m\<lparr>mgClients := AList.update (bID b) c (mgClients m)\<rparr>)"
    using Cons.prems(2,3) by (auto simp: dead_clients_def update_conv')
  with Cons.IH [OF r] Cons.prems(3) show ?case by simp
qed simp

lemma third_call_counts: "snd (inner i n) = n \<Longrightarrow> snd (throughBreaker third_call_breaker wr un inner i n) = Suc n"
  by (simp add: throughBreaker_def third_call_breaker_def split_def Let_def)

lemma dead_clients_confined:
  assumes "dead_clients ps m" "\<forall>p \<in> set ps. CHR ''%'' \<notin> set p"
  shows "owned (\<lambda>n. 3 \<le> n) pl m ids"
proof -
  have "keeps (\<lambda>n. 3 \<le> n) pl c"
    if "bcOperations c = NewCircuitBreakerS3Operations failing_operations third_call_breaker"
      "bcDo c = (\<lambda>u n. (Inl ''timeout'', Suc n))" for c :: "nat backend_client"
    using that by (simp add: keeps_def keeps_op_def Let_def NewCircuitBreakerS3Operations_def through_defs third_call_counts
        failing_operations_def)
  with assms show ?thesis
    by (auto simp: owned_def dead_clients_def GetClient_def confined_def split: option.split_asm)
qed

lemma sample_prefixes:
  "case launch sample_libraries sample_environment (defaultFlags\<lparr>flCredentials := ''keys.json''\<rparr>) of
     Inr (sv, adm) \<Rightarrow> map fst (cfgBuckets (asConfig adm)) = [''media''] \<and>
       map (bPrefix \<circ> snd) (cfgBackends (asConfig adm)) = [''p/'']
   | Inl _ \<Rightarrow> False"
  by code_simp

text \<open>Two requests of any kind, whoever signed them: an upload and a deletion.\<close>

theorem buckets_isolated_witness:
  "\<exists>sv adm. launch sample_libraries sample_environment (defaultFlags\<lparr>flCredentials := ''keys.json''\<rparr>) = Inr (sv, adm) \<and>
    (\<forall>ck1 r1 ck2 r2. 3 \<le> ioWorld (serveSeries [(ck1, r1\<lparr>qMethod := ''PUT''\<rparr>), (ck2, r2\<lparr>qMethod := ''DELETE''\<rparr>)]
      \<lparr>ioServer = sv, ioWriter = newWriter, ioWorld = 3\<rparr>))"
proof -
  obtain sv adm where s: "launch sample_libraries sample_environment (defaultFlags\<lparr>flCredentials := ''keys.json''\<rparr>) = Inr (sv, adm)"
    "map fst (cfgBuckets (asConfig adm)) = [''media'']" "map (bPrefix \<circ> snd) (cfgBackends (asConfig adm)) = [''p/'']"
    using sample_prefixes by (auto split: sum.split_asm)
  obtain cfg where start: "startRouter sample_libraries sample_environment (defaultFlags\<lparr>flCredentials := ''keys.json''\<rparr>) cfg = Inr (sv, adm)"
    using s(1) by (auto simp: launch_def)
  have "lbPlatform sample_libraries = dead_platform" by (simp add: sample_libraries_def)
  then obtain t where "NewManager dead_platform (asConfig adm) t = Inr (asBackend adm)"
    using startRouter_parts [OF start] by (metis admin_server.select_convs)
  then have "dead_clients [''p/''] (asBackend adm)"
    unfolding NewManager_def Let_def
    by (rule addClients_dead) (use s(3) in \<open>auto simp: dead_clients_def comp_def simp flip: list.map_comp\<close>)
  then have own: "owned (\<lambda>n. 3 \<le> n) (lbPlatform sample_libraries) (asBackend adm) ids" for ids
    by (rule dead_clients_confined) simp
  have c: "lbCache sample_libraries = one_entry_cache" "lbOrder sample_libraries = rev" by (simp_all add: sample_libraries_def)
  have laws: "cache_laws (lbCache sample_libraries) map_of" using one_entry_cache_laws by (simp add: c)
  have "\<forall>ids. mset (lbOrder sample_libraries ids) = mset ids" by (simp add: c)
  moreover have "plain_names (cfgBuckets (asConfig adm))" using s(2) by (auto simp: plain_names_def)
  moreover have "\<forall>(_, r) \<in> set [(ck1, r1\<lparr>qMethod := ''PUT''\<rparr>), (ck2, r2\<lparr>qMethod := ''DELETE''\<rparr>)]. CHR '':'' \<notin> set (qMethod r) \<and>
       (\<forall>b k. ParseS3PathWithChecker (limitRequest sv r) (svVirtualHosts sv) = Inr (b, k) \<longrightarrow>
          owned (\<lambda>n. 3 \<le> n) (lbPlatform sample_libraries) (asBackend adm) (bucketBackends (cfgBuckets (asConfig adm)) b))"
    for ck1 ck2 :: clock and r1 r2 :: request
    using own by simp
  ultimately have "3 \<le> ioWorld (serveSeries [(ck1, r1\<lparr>qMethod := ''PUT''\<rparr>), (ck2, r2\<lparr>qMethod := ''DELETE''\<rparr>)]
      \<lparr>ioServer = sv, ioWriter = newWriter, ioWorld = 3\<rparr>)"
    for ck1 ck2 :: clock and r1 r2 :: request
    using buckets_isolated [where I = "\<lambda>n. 3 \<le> n" and w = 3, OF laws _ s(1)] by blast
  with s(1) show ?thesis by blast
qed

end
