(* ===== verification/Metrics.thy ===== *)
theory Metrics
  imports Startup "HOL-Library.Multiset"
begin

section \<open>Metrics\<close>

text \<open>
  The counters of \<open>internal/observability/observability.go\<close> and what \<open>internal/server/server.go\<close> adds to
  them.  A vector of counters is the multiset of the label values it was incremented with; a histogram
  keeps the durations it was given.  The registry of Prometheus is not modelled.
\<close>

type_synonym counter = "string list multiset"

record metrics =
  mtRequestTotal :: counter
  mtRequestLatency :: "(string list \<times> int) list"
  mtBackendErrors :: counter
  mtRoutingDecisions :: counter

definition NewMetrics :: metrics where
  "NewMetrics = \<lparr>mtRequestTotal = {#}, mtRequestLatency = [], mtBackendErrors = {#}, mtRoutingDecisions = {#}\<rparr>"

text \<open>A request that has been routed to \<open>backendID\<close> and took so long.\<close>

definition countRouted :: "string \<Rightarrow> string \<Rightarrow> metrics \<Rightarrow> metrics" where
  "countRouted bucketName backendID m =
     m\<lparr>mtRoutingDecisions := add_mset [bucketName, backendID] (mtRoutingDecisions m)\<rparr>"

definition countResult :: "string \<Rightarrow> string \<Rightarrow> int \<Rightarrow> proxy_error fault + proxy_response \<Rightarrow> metrics \<Rightarrow> metrics" where
  "countResult meth backendID duration res m =
     (case res of
        Inl Panicked \<Rightarrow> m
      | Inl (Failed _) \<Rightarrow> m\<lparr>mtBackendErrors := add_mset [backendID, ''execution_error''] (mtBackendErrors m)\<rparr>
      | Inr resp \<Rightarrow>
          m\<lparr>mtRequestTotal := add_mset [meth, backendID, fmt_d (rsStatus resp)] (mtRequestTotal m),
            mtRequestLatency := mtRequestLatency m @ [([meth, backendID], duration)]\<rparr>)"

text \<open>What an operation on an object adds, beside what \<^const>\<open>handleObjectOperation\<close> does.\<close>

definition countObjectOperation ::
  "clock \<Rightarrow> int \<Rightarrow> request \<Rightarrow> string \<Rightarrow> string \<Rightarrow> operation \<Rightarrow> ('w, 'c) io \<Rightarrow> metrics \<Rightarrow> metrics" where
  "countObjectOperation ck duration r bucketName objectKey op io m =
     (let sv = ioServer io in
      case authenticate (svVerifier sv) (ckVerify ck) r of
        Inl _ \<Rightarrow> m
      | Inr (ctx, r1) \<Rightarrow>
          (case Match (exCacheOps (svExecutor sv)) (svMatcher sv) bucketName objectKey (qMethod r1) of
             (Inl _, _) \<Rightarrow> m
           | (Inr d, m1) \<Rightarrow>
               (case dBackend d of
                  None \<Rightarrow> m
                | Some b \<Rightarrow>
                    (let io1 = withMatcher m1 io;
                         rc = requestContext ck r1 ctx bucketName objectKey op;
                         ((res, _), _) = ExecuteRequest (svExecutor (ioServer io1)) (ckSign ck) rc d (ioWorld io1)
                     in countResult (qMethod r1) (bID b) duration res (countRouted bucketName (bID b) m)))))"

text \<open>The same for a whole request: listings and operations on buckets count nothing.\<close>

definition countRequest :: "clock \<Rightarrow> int \<Rightarrow> request \<Rightarrow> ('w, 'c) io \<Rightarrow> metrics \<Rightarrow> metrics" where
  "countRequest ck duration r0 io m =
     (let r = limitRequest (ioServer io) r0 in
      case ParseS3PathWithChecker r (svVirtualHosts (ioServer io)) of
        Inl _ \<Rightarrow> m
      | Inr (bucketName, objectKey) \<Rightarrow>
          (if handleBucketOperations ck r bucketName objectKey io \<noteq> None \<or> bucketName = []
             \<or> DetectListObjects r objectKey \<or> objectKey = [] \<and> DetectListObjectsV2 r then m
           else countObjectOperation ck duration r bucketName objectKey
                  (DetectMultipartOperation (qMethod r) (qQuery r)) io m))"

subsection \<open>The account\<close>

definition routedTo :: "metrics \<Rightarrow> counter" where
  "routedTo m = image_mset (drop 1) (mtRoutingDecisions m)"

definition answeredBy :: "metrics \<Rightarrow> counter" where
  "answeredBy m = image_mset (\<lambda>l. take 1 (drop 1 l)) (mtRequestTotal m)"

definition failedAt :: "metrics \<Rightarrow> counter" where
  "failedAt m = image_mset (take 1) (mtBackendErrors m)"

text \<open>Every routed request has been answered by its backend or has failed there, and every answer was timed.\<close>

definition balanced :: "metrics \<Rightarrow> bool" where
  "balanced m \<longleftrightarrow> routedTo m = answeredBy m + failedAt m \<and>
     mset (map fst (mtRequestLatency m)) = image_mset (take 2) (mtRequestTotal m)"

lemma balanced_new: "balanced NewMetrics"
  by (simp add: balanced_def NewMetrics_def routedTo_def answeredBy_def failedAt_def)

lemma balanced_result:
  "balanced m \<Longrightarrow> res \<noteq> Inl Panicked \<Longrightarrow> balanced (countResult meth b dur res (countRouted bucket b m))"
  by (auto simp: balanced_def countResult_def countRouted_def routedTo_def answeredBy_def failedAt_def
      split: sum.split fault.split)

lemma balanced_operation:
  assumes "fst (handleObjectOperation ck r b k op io) \<noteq> Crashed" "balanced m"
  shows "balanced (countObjectOperation ck dur r b k op io m)"
proof (cases "authenticate (svVerifier (ioServer io)) (ckVerify ck) r")
  case (Inr cr)
  obtain ctx r1 where cr: "cr = (ctx, r1)" by (cases cr)
  obtain x m1 where x: "Match (exCacheOps (svExecutor (ioServer io))) (svMatcher (ioServer io)) b k (qMethod r1) = (x, m1)"
    by fastforce
  show ?thesis
  proof (cases x)
    case d: (Inr d)
    show ?thesis
    proof (cases "dBackend d")
      case (Some bc)
      let ?rc = "requestContext ck r1 ctx b k op" and ?io = "withMatcher m1 io"
      obtain res w m2 where e: "ExecuteRequest (svExecutor (ioServer ?io)) (ckSign ck) ?rc d (ioWorld ?io) = ((res, w), m2)"
        by (metis prod.exhaust)
      have "handleObjectOperation ck r b k op io = executeProxy ck ?rc d ?io"
        using Inr cr x d Some by (simp add: handleObjectOperation_def Let_def)
      then have "res \<noteq> Inl Panicked" using assms(1) e by (auto simp: executeProxy_def Let_def)
      then have "balanced (countResult (qMethod r1) (bID bc) dur res (countRouted b (bID bc) m))"
        by (rule balanced_result [OF assms(2)])
      moreover have "countObjectOperation ck dur r b k op io m =
          countResult (qMethod r1) (bID bc) dur res (countRouted b (bID bc) m)"
        using Inr cr x d Some e by (simp add: countObjectOperation_def Let_def)
      ultimately show ?thesis by simp
    qed (use Inr cr x d assms(2) in \<open>simp add: countObjectOperation_def Let_def\<close>)
  qed (use Inr cr x assms(2) in \<open>simp add: countObjectOperation_def Let_def\<close>)
qed (use assms(2) in \<open>simp add: countObjectOperation_def Let_def\<close>)

lemma finish_returned: "fst (finish h) \<longleftrightarrow> fst h \<noteq> Crashed"
  by (auto simp: finish_def split: prod.split handler_result.split option.split)

text \<open>
  A request that returns keeps the balance: routing decisions are requests answered by their backend
  and failures there, whatever the request asks for.
\<close>

lemma balanced_request:
  assumes "fst (HandleS3Request ck r io)" "balanced m"
  shows "balanced (countRequest ck dur r io m)"
proof -
  let ?r = "limitRequest (ioServer io) r"
  show ?thesis
  proof (cases "ParseS3PathWithChecker ?r (svVirtualHosts (ioServer io))")
    case (Inr bk)
    obtain b k where bk: "bk = (b, k)" by (cases bk)
    show ?thesis
    proof (cases "handleBucketOperations ck ?r b k io \<noteq> None \<or> b = [] \<or> DetectListObjects ?r k \<or> k = [] \<and> DetectListObjectsV2 ?r")
      case False
      let ?op = "DetectMultipartOperation (qMethod ?r) (qQuery ?r)"
      have "HandleS3Request ck r io = finish (handleObjectOperation ck ?r b k ?op io)"
        using Inr bk False by (auto simp: HandleS3Request_def handleObjectOperations_def Let_def split: option.split)
      with assms(1) have "fst (handleObjectOperation ck ?r b k ?op io) \<noteq> Crashed" by (simp add: finish_returned)
      from balanced_operation [OF this assms(2)] show ?thesis
        using Inr bk False by (auto simp: countRequest_def Let_def)
    qed (use Inr bk assms(2) in \<open>simp add: countRequest_def Let_def\<close>)
  qed (use assms(2) in \<open>simp add: countRequest_def Let_def\<close>)
qed

text \<open>Serving and counting, and whether all requests returned.\<close>

definition count_step :: "('w, 'c) io \<times> metrics \<Rightarrow> ('w, 'c) io \<times> metrics \<Rightarrow> bool" where
  "count_step s t \<longleftrightarrow>
     (\<exists>ck dur r. let io = (fst s)\<lparr>ioWriter := newWriter\<rparr> in
        fst (HandleS3Request ck r io) \<and> t = (snd (HandleS3Request ck r io), countRequest ck dur r io (snd s)))"

interpretation counting: step_invariant count_step "\<lambda>s. balanced (snd s)"
  by unfold_locales (auto simp: count_step_def Let_def intro: balanced_request)

lemma metrics_balanced: "count_step\<^sup>*\<^sup>* (io, NewMetrics) (io', m) \<Longrightarrow> balanced m"
  using counting.run_inv [of "(io, NewMetrics)" "(io', m)"] balanced_new by simp

end
