(* ===== verification/Spec2Isabelle.thy ===== *)
theory Spec2Isabelle
  imports Prelude Template Regex Http Time ConfigError ParseValue VirtualHost Auth Config Routing
    PrefixOptimizer BucketOps ListObjects ListRoutes Chunked Signer Verifier SignVerify
    Crypto Cred S3Ops Backend Streaming Executor ExecutorFacts Server ServerFacts Admin
    Loader Observability Startup Invariant Lifecycle Isolation Metrics
begin

text \<open>
  Verification of the S3 router.

  The router (Go, below \<open>src/\<close>) is a proxy that looks like one S3 service.  Its buckets are virtual: the
  routes of a bucket are regular expressions over the key, and the first that matches names a backend and
  rewrites the key.  A request is verified (Signature Version 4), routed, sent to the backend with the
  backend's own credentials, and its answer is copied back; a listing asks the backend of every route and
  merges the answers.

  \<^bold>\<open>How the parts interact.\<close>  \<open>main\<close> loads the configuration file, builds a store of client secrets, a
  manager with one client for each backend, and a matcher with a cache of decisions, and starts two servers.
  \<open>Server.HandleS3Request\<close> finds bucket and key, by the host of the request or in the path, and hands the request
  to the bucket operations, to the listings, or through the verifier and the matcher to the executor.  The
  executor shares the matcher, for copies and batch deletes name further keys, and calls the backend through a
  circuit breaker, or for uploads through its own HTTP client, re-encoding aws-chunked bodies on the way.  The
  admin server shares the manager and its health records.  The definitions are composed in the same way:
  \<^const>\<open>launch\<close> gives a \<^typ>\<open>('w, 'c) server\<close> and an admin server, \<^const>\<open>HandleS3Request\<close> maps a request and
  a state (server, response writer, the world outside) to a result and a state, and \<^const>\<open>serveSeries\<close> runs a
  series of requests.

  \<^bold>\<open>The theories\<close>, and the files below \<open>src/\<close> they model (functions keep their names; fields of records have a
  prefix of one to three letters):

  \<^item> \<^theory_text>\<open>Prelude\<close>: byte strings, \<open>strings\<close>, \<open>strconv\<close>, results; \<^theory_text>\<open>Http\<close>: headers, queries, URLs, percent-encoding;
    \<^theory_text>\<open>Time\<close>: calendar and layouts; \<^theory_text>\<open>Regex\<close>: regular expressions; \<^theory_text>\<open>Crypto\<close>: SHA-256, HMAC.  These model Go's
    standard library as far as the router uses it.  \<^theory_text>\<open>Invariant\<close>: the contract of step relations.
  \<^item> \<^theory_text>\<open>Template\<close>: \<open>internal/template\<close>.  Round trip of parsing and rendering, and the static analysis against the
    evaluator.
  \<^item> \<^theory_text>\<open>Loader\<close> (\<open>internal/config/loader.go\<close>, \<open>ir/loader.go\<close>), \<^theory_text>\<open>ConfigError\<close> (\<open>context.go\<close>, \<open>error.go\<close>, \<open>ir/reflect.go\<close>),
    \<^theory_text>\<open>ParseValue\<close> (\<open>parse.go\<close>), \<^theory_text>\<open>VirtualHost\<close> (\<open>virtual_host.go\<close>), \<^theory_text>\<open>Config\<close> (the other files of \<open>internal/config\<close>).
    An accepted configuration is valid; values are read back as written; hosts map to the most specific entry;
    what the error texts do.
  \<^item> \<^theory_text>\<open>Auth\<close>: \<open>internal/auth\<close>, the stores of client secrets, with the locale \<open>credentials_store\<close> for their contract.
  \<^item> \<^theory_text>\<open>Routing\<close>: \<open>internal/routing\<close>.  The first matching route decides, the cache changes nothing, and when
    routing panics or does not, with a cache and without.
  \<^item> \<^theory_text>\<open>PrefixOptimizer\<close>, \<^theory_text>\<open>BucketOps\<close>, \<^theory_text>\<open>ListObjects\<close>, \<^theory_text>\<open>ListRoutes\<close>: \<open>internal/bucket\<close>.  Which routes a listing can
    leave out, the parameters and documents of bucket operations, the pages of a listing, the workers and
    what their order and failures do to the answer.
  \<^item> \<^theory_text>\<open>Verifier\<close> (\<open>internal/server/verifier.go\<close>), \<^theory_text>\<open>Signer\<close> (\<open>proxy/signer.go\<close>), \<^theory_text>\<open>SignVerify\<close>: the two
    implementations of the signature, what acceptance means, and that the one accepts what the other signs.
  \<^item> \<^theory_text>\<open>Chunked\<close>, \<^theory_text>\<open>Streaming\<close>, \<^theory_text>\<open>Executor\<close>, \<^theory_text>\<open>ExecutorFacts\<close>: \<open>internal/backend/proxy\<close>.  The re-encoder refines the
    text of the signed chunks of the payload, what it hands out can be re-encoded again, and it never ends on a body
    that stops inside a chunk; uploads carry the payload; batch deletes reach the backends of the keys' own routes;
    copies.
  \<^item> \<^theory_text>\<open>Cred\<close>, \<^theory_text>\<open>S3Ops\<close>, \<^theory_text>\<open>Backend\<close>: \<open>internal/backend\<close>.  Credentials of backends, the circuit breaker around every
    operation (locale \<open>tagged_output\<close>; what the breaker admits and records are arguments), endpoints, the manager and the health of its clients.
  \<^item> \<^theory_text>\<open>Server\<close>, \<^theory_text>\<open>ServerFacts\<close>: \<open>internal/server/server.go\<close>, from end to end: who gets in, which object a request
    reaches, how much is sent.  \<^theory_text>\<open>Admin\<close>: \<open>internal/admin\<close>.  \<^theory_text>\<open>Observability\<close>: \<open>internal/observability\<close>.
  \<^item> \<^theory_text>\<open>Startup\<close>, \<^theory_text>\<open>Lifecycle\<close>: \<open>cmd/s3router/main.go\<close>.  From the file to the servers, what serving keeps, the check
    of a route; how the servers run and stop, as a step relation.
  \<^item> \<^theory_text>\<open>Isolation\<close>: what all operations together can change, over any series of requests: for an arbitrary invariant
    of the world, the backends of the requested buckets, asked for their own keys and sent uploads to the URLs of
    their own keys.  Its lemmas follow the operations
    of the executor, the requests, and series of requests.
  \<^item> \<^theory_text>\<open>Metrics\<close>: the counters (\<open>observability.go\<close>, \<open>server.go\<close>) as multisets of label values, and their balance.

  \<^bold>\<open>Conventions.\<close>  A Go string is a list of bytes.  An error is a value of a datatype of its component in a sum;
  a panic is the case \<open>Panicked\<close> of \<open>fault\<close>, or \<open>None\<close> where nothing else can fail.  A pointer that may be nil is
  an option.  A Go map is an association list in the order of one iteration; where the code iterates over a
  map whose order shows, the order is an argument or the result is proved not to depend on it.  Integers are
  mathematical, wrapped to their width where the code can exceed it (\<open>wrap64\<close>, the conversion of a duration to
  \<open>int32\<close>); the hash functions work on 32-bit words.  Locks make operations atomic, so that an
  operation is a function of the state; the order of concurrent workers is an explicit schedule of events.

  \<^bold>\<open>Arguments of the model\<close>, for code that is not in the repository: the AWS SDK, the breaker, the HTTP client
  and the S3 clients (records \<open>platform\<close>, \<open>cred_env\<close>, \<open>s3_operations\<close>), the LRU cache (\<^const>\<open>cache_laws\<close> is what is
  relied on), the decoding and marshalling of XML (\<open>xml_codec\<close>), reading and decoding files (\<open>file_library\<close>,
  \<open>raw_library\<close>), \<open>url.Parse\<close>, the sorting of entries with equal keys, and the OpenTelemetry exporters.  The state of
  everything outside is a type variable \<open>'w\<close> that is threaded through every call.

  \<^bold>\<open>Recursion and fuel.\<close>  Loops end by a measure, except the one of the re-encoder that can run for ever:
  \<open>fillRaw\<close> is a partial function, whose value \<open>None\<close> is proved for a body that stops inside a chunk and excluded for
  a well-formed one.  Fuel appears in three places, none of them code of the router: \<^const>\<open>drain\<close>, a client that
  reads to the end (more fuel than the length of the output is enough, and is proved to give all of it),
  \<^const>\<open>listPages\<close>, a client that follows the tokens (more fuel than there are objects is enough), and
  \<open>chunks_of\<close>, which cuts a string (its fuel is the number of pieces).

  \<^bold>\<open>Not modelled\<close>, and why: the regular expressions are the part of Go's syntax named in \<^theory_text>\<open>Regex\<close>; a pattern
  beyond it is \<open>Unsupported\<close>.  The bytes of XML and JSON documents are those of an encoder of the library: a body is the
  value that is encoded.  Writing to a response succeeds, and what the connection makes of it is not described.
  Contexts are left out but for the values they carry, so a request is not cancelled in the middle.
  Floating-point numbers of the configuration are fractions, rounded to 53 bits by every operation.  \<open>OTelMiddleware\<close> and \<open>InstrumentHTTPTransport\<close> only call
  OpenTelemetry, and the registry of Prometheus is a library.  The S3 client of a listing does not change the world in this
  model: its answers are an argument.  Listening, timeouts of connections and delivering signals belong to the
  platform.  A listing is made from the first page of every backend's answer, as in the code.  A body length that is only
  announced makes the allocation panic above 2^48 bytes; running out of memory below that is not described.  The
  admin server dispatches on one path, so that a percent sign in the name of a backend is not described.  Dates before the year 0 and the texts of number parsing errors inside a message are left out.
  The tests, the chart and the integration suites are not part of the program.
\<close>

end
